(* ===== verification/Prelude.thy ===== *)
theory Prelude
  imports Main "HOL-Library.List_Lexorder" "HOL-Library.Char_ord" "HOL-Library.Product_Lexorder"
    "HOL-Library.Option_ord" "HOL-Library.Monad_Syntax"
begin

text \<open>
  Shared vocabulary of the development.

  \<^item> \<open>std::string\<close> is \<^typ>\<open>string\<close> (a list of bytes); the few members of it the program uses
    (\<open>find\<close>, \<open>find_last_of\<close> with \<open>replace\<close>, \<open>substr\<close>) are functions here.
  \<^item> \<open>std::map\<close> iterates in key order, and that order is visible in the stanzas the program
    sends. It is therefore modelled as an association list kept strictly sorted by key
    (\<open>smap\<close>), with an interface locale \<open>ordered_map\<close> that states the laws the clients use.
  \<^item> \<open>std::list::remove\<close> is \<^const>\<open>removeAll\<close>.
\<close>

named_theorems smap_simps "lookup laws of the ordered map"
named_theorems inv_intros "preservation of component invariants"

section \<open>Ordered maps\<close>

type_synonym ('k, 'v) smap = "('k \<times> 'v) list"

text \<open>\<open>m.find(k)\<close>, \<open>m[k] = v\<close> and \<open>m.erase(k)\<close>.\<close>

definition smap_get :: "('k, 'v) smap \<Rightarrow> 'k \<Rightarrow> 'v option" where
  "smap_get m k = map_of m k"

fun smap_put :: "'k::linorder \<Rightarrow> 'v \<Rightarrow> ('k, 'v) smap \<Rightarrow> ('k, 'v) smap" where
  "smap_put k v [] = [(k, v)]"
| "smap_put k v ((k', v') # m) =
     (if k = k' then (k, v) # m
      else if k < k' then (k, v) # (k', v') # m
      else (k', v') # smap_put k v m)"

definition smap_del :: "'k \<Rightarrow> ('k, 'v) smap \<Rightarrow> ('k, 'v) smap" where
  "smap_del k m = filter (\<lambda>(k', _). k' \<noteq> k) m"

text \<open>\<open>m[k]\<close> read with the default constructed value \<open>d\<close>.\<close>

definition smap_get_or :: "'v \<Rightarrow> ('k, 'v) smap \<Rightarrow> 'k \<Rightarrow> 'v" where
  "smap_get_or d m k = (case smap_get m k of None \<Rightarrow> d | Some v \<Rightarrow> v)"

definition smap_ok :: "('k::linorder, 'v) smap \<Rightarrow> bool" where
  "smap_ok m \<longleftrightarrow> sorted_wrt (<) (map fst m)"

section \<open>Strings\<close>

text \<open>\<open>s.find(c)\<close>: the index of the first occurrence.\<close>

fun find_char :: "char \<Rightarrow> string \<Rightarrow> nat option" where
  "find_char c [] = None"
| "find_char c (x # xs) = (if x = c then Some 0 else map_option Suc (find_char c xs))"

text \<open>\<open>if (s.find_last_of(a) != npos) s.replace(s.find_last_of(a), 1, b)\<close>.\<close>

fun replace_last :: "char \<Rightarrow> char \<Rightarrow> string \<Rightarrow> string" where
  "replace_last a b [] = []"
| "replace_last a b (x # xs) =
     (if a \<in> set xs then x # replace_last a b xs else if x = a then b # xs else x # xs)"

text \<open>\<open>s.find(t) != npos\<close>.\<close>

fun is_prefix :: "'a list \<Rightarrow> 'a list \<Rightarrow> bool" where
  "is_prefix [] s = True"
| "is_prefix (x # xs) [] = False"
| "is_prefix (x # xs) (y # ys) = (x = y \<and> is_prefix xs ys)"

fun has_infix :: "'a list \<Rightarrow> 'a list \<Rightarrow> bool" where
  "has_infix t [] = (t = [])"
| "has_infix t (x # s) = (is_prefix t (x # s) \<or> has_infix t s)"

section \<open>Interface of the ordered map\<close>

locale ordered_map =
  fixes get :: "'m \<Rightarrow> 'k \<Rightarrow> 'v option"
    and put :: "'k \<Rightarrow> 'v \<Rightarrow> 'm \<Rightarrow> 'm"
    and del :: "'k \<Rightarrow> 'm \<Rightarrow> 'm"
    and ok :: "'m \<Rightarrow> bool"
  assumes get_put: "get (put k v m) = (get m)(k \<mapsto> v)"
    and get_del: "get (del k m) = (get m)(k := None)"
    and ok_put: "ok m \<Longrightarrow> ok (put k v m)"
    and ok_del: "ok m \<Longrightarrow> ok (del k m)"
begin

lemma get_put_same: "get (put k v m) k = Some v"
  by (simp add: get_put)

lemma get_put_other: "k \<noteq> k' \<Longrightarrow> get (put k v m) k' = get m k'"
  by (simp add: get_put)

lemma get_del_same: "get (del k m) k = None"
  by (simp add: get_del)

lemma get_del_other: "k \<noteq> k' \<Longrightarrow> get (del k m) k' = get m k'"
  by (simp add: get_del)

lemma dom_put: "dom (get (put k v m)) = insert k (dom (get m))"
  by (simp add: get_put)

lemma dom_del: "dom (get (del k m)) = dom (get m) - {k}"
  by (simp add: get_del)

end

section \<open>Interface of a loop over a container\<close>

text \<open>
  A C++ loop whose body may fail: it is run on the elements one after the other, and the first
  failure ends it.
\<close>

locale each_loop =
  fixes body :: "'x \<Rightarrow> 'w \<Rightarrow> 'w option" and run :: "'x list \<Rightarrow> 'w \<Rightarrow> 'w option"
  assumes run_Nil: "run [] w = Some w"
    and run_Cons: "run (x # xs) w = Option.bind (body x w) (run xs)"
begin

lemma run_inv:
  assumes "\<And>x w w'. P w \<Longrightarrow> body x w = Some w' \<Longrightarrow> P w'" and "P w" and "run xs w = Some w'"
  shows "P w'"
  using assms(2,3)
proof (induction xs arbitrary: w)
  case (Cons x xs)
  then obtain w1 where "body x w = Some w1" "run xs w1 = Some w'" by (auto simp: run_Cons bind_eq_Some_conv)
  then show ?case using Cons assms(1) by blast
qed (simp add: run_Nil)

lemma run_total:
  assumes "\<And>x w. Q x \<Longrightarrow> \<exists>w'. body x w = Some w' \<and> R w w'" and "\<And>w. R w w" and "\<And>w v u. R w v \<Longrightarrow> R v u \<Longrightarrow> R w u"
    and "list_all Q xs"
  shows "\<exists>w'. run xs w = Some w' \<and> R w w'"
  using assms(4)
proof (induction xs arbitrary: w)
  case (Cons x xs)
  then obtain w1 where w1: "body x w = Some w1" "R w w1" using assms(1) [of x w] by auto
  moreover obtain w2 where "run xs w1 = Some w2" "R w1 w2" using Cons.IH [of w1] Cons.prems by auto
  ultimately show ?case using assms(3) by (auto simp: run_Cons)
qed (simp add: run_Nil assms(2))

lemma run_append: "run (xs @ ys) w = Option.bind (run xs w) (run ys)"
proof (induction xs arbitrary: w)
  case (Cons x xs)
  then show ?case by (cases "body x w") (simp_all add: run_Cons)
qed (simp add: run_Nil)

end

section \<open>Facts on ordered maps\<close>

lemma smap_get_Nil [simp]: "smap_get [] k = None"
  by (simp add: smap_get_def)

lemma smap_get_Cons: "smap_get ((k', v) # m) k = (if k' = k then Some v else smap_get m k)"
  by (auto simp: smap_get_def)

lemma smap_get_put [smap_simps]: "smap_get (smap_put k v m) = (smap_get m)(k \<mapsto> v)"
  by (induction k v m rule: smap_put.induct) (auto simp: smap_get_Cons fun_eq_iff)

lemma smap_get_del [smap_simps]: "smap_get (smap_del k m) = (smap_get m)(k := None)"
  unfolding smap_get_def smap_del_def by (induction m) (auto simp: fun_eq_iff)

lemma smap_keys_put: "fst ` set (smap_put k v m) = insert k (fst ` set m)"
  by (induction k v m rule: smap_put.induct) auto

lemma smap_ok_put [inv_intros]: "smap_ok m \<Longrightarrow> smap_ok (smap_put k v m)"
proof (induction k v m rule: smap_put.induct)
  case (1 k v)
  then show ?case by (simp add: smap_ok_def)
next
  case (2 k v k' v' m)
  then have ok: "smap_ok m" and lt: "\<forall>x \<in> fst ` set m. k' < x"
    by (auto simp: smap_ok_def)
  show ?case
  proof (cases "k = k' \<or> k < k'")
    case True
    with 2 show ?thesis by (auto simp: smap_ok_def)
  next
    case False
    with 2 ok have "smap_ok (smap_put k v m)" by auto
    moreover have "\<forall>x \<in> fst ` set (smap_put k v m). k' < x"
      using lt False by (auto simp: smap_keys_put)
    ultimately show ?thesis using False by (auto simp: smap_ok_def)
  qed
qed

lemma smap_ok_del [inv_intros]: "smap_ok m \<Longrightarrow> smap_ok (smap_del k m)"
  unfolding smap_ok_def smap_del_def
  by (induction m) auto

lemma smap_ok_Nil [simp]: "smap_ok []"
  by (simp add: smap_ok_def)

lemma smap_ok_mapval [simp]: "smap_ok (map (\<lambda>(k, v). (k, f k v)) m) = smap_ok m"
proof -
  have "map fst (map (\<lambda>(k, v). (k, f k v)) m) = map fst m" by (induction m) auto
  then show ?thesis by (simp only: smap_ok_def)
qed

lemma smap_get_mapval:
  "smap_get (map (\<lambda>(k, v). (k, f k v)) m) k = map_option (f k) (smap_get m k)"
  by (induction m) (auto simp: smap_get_Cons)

lemma smap_get_SomeD: "smap_get m k = Some v \<Longrightarrow> (k, v) \<in> set m"
  by (simp add: smap_get_def map_of_SomeD)

lemma smap_get_iff: "smap_ok m \<Longrightarrow> smap_get m k = Some v \<longleftrightarrow> (k, v) \<in> set m"
proof -
  assume "smap_ok m"
  then have "distinct (map fst m)"
    unfolding smap_ok_def using strict_sorted_iff by blast
  then show ?thesis by (simp add: smap_get_def)
qed

lemma smap_get_None_iff: "smap_get m k = None \<longleftrightarrow> k \<notin> fst ` set m"
  by (simp add: smap_get_def map_of_eq_None_iff)

interpretation om: ordered_map smap_get smap_put smap_del smap_ok
  by unfold_locales (simp_all add: smap_simps inv_intros)

lemmas smap_laws = om.get_put_same om.get_put_other om.get_del_same om.get_del_other
  om.dom_put om.dom_del

section \<open>Facts on strings\<close>

lemma find_char_None_iff [simp]: "find_char c s = None \<longleftrightarrow> c \<notin> set s"
  by (induction s) auto

lemma find_char_SomeD: "find_char c s = Some i \<Longrightarrow> i < length s \<and> s ! i = c \<and> c \<notin> set (take i s)"
  by (induction s arbitrary: i) (auto split: if_splits)

lemma replace_last_id [simp]: "a \<notin> set s \<Longrightarrow> replace_last a b s = s"
  by (induction s) auto

lemma replace_last_split:
  "a \<notin> set ys \<Longrightarrow> replace_last a b (xs @ a # ys) = xs @ b # ys"
  by (induction xs) auto

lemma length_replace_last [simp]: "length (replace_last a b s) = length s"
  by (induction s) auto

lemma replace_last_Nil_iff [simp]: "replace_last a b s = [] \<longleftrightarrow> s = []"
  by (cases s) auto

lemma replace_last_inverse:
  assumes "b \<notin> set s"
  shows "replace_last b a (replace_last a b s) = s"
proof (cases "a \<in> set s")
  case True
  then obtain xs ys where s: "s = xs @ a # ys" and ys: "a \<notin> set ys"
    by (meson split_list_last)
  with assms show ?thesis by (simp add: replace_last_split)
next
  case False
  with assms show ?thesis by simp
qed

section \<open>Facts on lists and options\<close>

lemma option_eqI: "(\<And>x. a = Some x \<longleftrightarrow> b = Some x) \<Longrightarrow> a = b"
  by (cases a; cases b) auto

lemma find_filter: "find P xs = (case filter P xs of [] \<Rightarrow> None | x # _ \<Rightarrow> Some x)"
  by (induction xs) auto

lemma find_distinct_Some_iff:
  "distinct (map k xs) \<Longrightarrow> find (\<lambda>x. k x = a) xs = Some x \<longleftrightarrow> x \<in> set xs \<and> k x = a"
  by (induction xs) (auto simp: image_iff)

lemma find_of_filter:
  "distinct (map k xs) \<Longrightarrow> find (\<lambda>x. k x = a) (filter Q xs)
    = (case find (\<lambda>x. k x = a) xs of None \<Rightarrow> None | Some x \<Rightarrow> if Q x then Some x else None)"
proof (induction xs)
  case (Cons x xs)
  have "find (\<lambda>y. k y = k x) (filter Q xs) = None" using Cons.prems
    unfolding find_None_iff by (auto simp: image_iff)
  then show ?case using Cons by auto
qed simp

end
