(* ===== verification/Protocol.thy ===== *)
theory Protocol
  imports Prelude "HOL-Library.Word"
begin

text \<open>
  The protocol spoken between the server (\<open>libtransport/NetworkPluginServer.cpp\<close>) and a backend
  process (\<open>plugin/cpp/networkplugin.cpp\<close>).

  \<^item> The message types of \<open>include/transport/protocol.proto\<close> as datatypes. The protobuf runtime
    that turns them into bytes and back is not part of the repository: it is the parameter
    \<open>codec\<close>, and the round-trip law a theorem needs is one of its hypotheses.
  \<^item> The framing both programs implement by hand: a 4-byte big-endian length in front of each
    serialized \<open>WrapperMessage\<close>, and the two reading loops \<open>handleDataRead\<close>. Both loops are
    interpretations of the locale \<open>frame_reader\<close>, in which the behaviour under arbitrary
    splitting of the byte stream is proved once.
\<close>

type_synonym bytes = "8 word list"

section \<open>Message types\<close>

datatype wtype =
    TYPE_CONNECTED | TYPE_DISCONNECTED | TYPE_LOGIN | TYPE_LOGOUT | TYPE_BUDDY_CHANGED
  | TYPE_BUDDY_REMOVED | TYPE_CONV_MESSAGE | TYPE_PING | TYPE_PONG | TYPE_JOIN_ROOM
  | TYPE_LEAVE_ROOM | TYPE_PARTICIPANT_CHANGED | TYPE_ROOM_NICKNAME_CHANGED
  | TYPE_ROOM_SUBJECT_CHANGED | TYPE_VCARD | TYPE_STATUS_CHANGED | TYPE_BUDDY_TYPING
  | TYPE_BUDDY_STOPPED_TYPING | TYPE_BUDDY_TYPED | TYPE_AUTH_REQUEST | TYPE_ATTENTION
  | TYPE_STATS | TYPE_FT_START | TYPE_FT_FINISH | TYPE_FT_DATA | TYPE_FT_PAUSE
  | TYPE_FT_CONTINUE | TYPE_EXIT | TYPE_BACKEND_CONFIG | TYPE_QUERY | TYPE_ROOM_LIST
  | TYPE_CONV_MESSAGE_ACK | TYPE_RAW_XML | TYPE_BUDDIES | TYPE_API_VERSION

record pb_buddy =
  pbb_userName :: string
  pbb_buddyName :: string
  pbb_alias :: string
  pbb_group :: "string list"
  pbb_status :: int
  pbb_statusMessage :: string
  pbb_iconHash :: string
  pbb_blocked :: "bool option"

record pb_attachment =
  pba_url :: string
  pba_mimeType :: string
  pba_description :: string

record pb_convmsg =
  pbc_userName :: string
  pbc_buddyName :: string
  pbc_message :: string
  pbc_nickname :: string
  pbc_xhtml :: string
  pbc_timestamp :: string
  pbc_headline :: bool
  pbc_id :: string
  pbc_pm :: bool
  pbc_carbon :: bool
  pbc_attachment :: "pb_attachment list"

record pb_room =
  pbr_userName :: string
  pbr_nickname :: string
  pbr_room :: string
  pbr_password :: string

record pb_participant =
  pbp_userName :: string
  pbp_room :: string
  pbp_nickname :: string
  pbp_flag :: int
  pbp_status :: int
  pbp_statusMessage :: string
  pbp_newname :: string
  pbp_iconHash :: string
  pbp_alias :: string

record pb_vcard =
  pbv_userName :: string
  pbv_buddyName :: string
  pbv_id :: int
  pbv_fullname :: string
  pbv_nickname :: string
  pbv_photo :: "string option"

record pb_login =
  pbl_user :: string
  pbl_legacyName :: string
  pbl_password :: string
  pbl_settings :: "(string, string) smap"

text \<open>\<open>WrapperMessage::payload\<close>: any of the messages, or the raw text of \<open>TYPE_RAW_XML\<close>.\<close>

datatype pb =
    PB_Connected string
  | PB_Disconnected string int string
  | PB_Login pb_login
  | PB_Logout string string
  | PB_Buddy pb_buddy
  | PB_Buddies "pb_buddy list"
  | PB_ConvMsg pb_convmsg
  | PB_Room pb_room
  | PB_RoomList "string list" "string list" string
  | PB_Participant pb_participant
  | PB_VCard pb_vcard
  | PB_Status string int string
  | PB_Stats int int int string
  | PB_BackendConfig string
  | PB_APIVersion int
  | PB_Raw string
  | PB_None

text \<open>
  The protobuf runtime: \<open>SerializeToString\<close> for every message, and \<open>ParseFromString\<close> of each
  message type.
\<close>

record codec =
  ser :: "pb \<Rightarrow> bytes"
  ser_wrap :: "wtype \<times> bytes \<Rightarrow> bytes"
  par_wrap :: "bytes \<Rightarrow> (wtype \<times> bytes) option"
  par_connected :: "bytes \<Rightarrow> string option"
  par_disconnected :: "bytes \<Rightarrow> (string \<times> int \<times> string) option"
  par_login :: "bytes \<Rightarrow> pb_login option"
  par_logout :: "bytes \<Rightarrow> (string \<times> string) option"
  par_buddy :: "bytes \<Rightarrow> pb_buddy option"
  par_convmsg :: "bytes \<Rightarrow> pb_convmsg option"
  par_room :: "bytes \<Rightarrow> pb_room option"
  par_roomlist :: "bytes \<Rightarrow> (string list \<times> string list \<times> string) option"
  par_participant :: "bytes \<Rightarrow> pb_participant option"
  par_vcard :: "bytes \<Rightarrow> pb_vcard option"
  par_status :: "bytes \<Rightarrow> (string \<times> int \<times> string) option"
  par_stats :: "bytes \<Rightarrow> (int \<times> int \<times> int \<times> string) option"
  par_backendconfig :: "bytes \<Rightarrow> string option"
  par_raw :: "bytes \<Rightarrow> string"

section \<open>Framing\<close>

text \<open>\<open>htonl\<close> written to memory, and \<open>ntohl\<close> of the four bytes read back.\<close>

definition be32 :: "32 word \<Rightarrow> bytes" where
  "be32 w = [ucast (drop_bit 24 w), ucast (drop_bit 16 w), ucast (drop_bit 8 w), ucast w]"

fun dec32 :: "bytes \<Rightarrow> nat" where
  "dec32 (a # b # c # d # _) = ((unat a * 256 + unat b) * 256 + unat c) * 256 + unat d"
| "dec32 _ = 0"

text \<open>\<open>NetworkPluginServer::send\<close> and \<open>NetworkPlugin::send\<close>: header, then the data.\<close>

definition frame :: "bytes \<Rightarrow> bytes" where
  "frame data = be32 (of_nat (length data)) @ data"

definition wrap :: "codec \<Rightarrow> wtype \<Rightarrow> pb \<Rightarrow> bytes" where
  "wrap cd t m = ser_wrap cd (t, ser cd m)"

definition nps_send :: "codec \<Rightarrow> wtype \<Rightarrow> pb \<Rightarrow> bytes" where
  "nps_send cd t m = frame (wrap cd t m)"

text \<open>The test at the top of both loops: is a whole wrapper message in the buffer?\<close>

definition split_frame :: "bytes \<Rightarrow> (bytes \<times> bytes) option" where
  "split_frame buf =
     (if 4 \<le> length buf \<and> dec32 buf \<le> length buf - 4
      then Some (take (dec32 buf) (drop 4 buf), drop (4 + dec32 buf) buf)
      else None)"

lemma split_frame_shorter: "split_frame buf = Some (f, rest) \<Longrightarrow> length rest < length buf"
  by (auto simp: split_frame_def split: if_splits)

text \<open>
  \<open>NetworkPluginServer::handleDataRead\<close>. The handler returns the new state and whether the loop
  goes on: the \<open>default:\<close> branch of the \<open>switch\<close> returns from the function. A wrapper that does
  not parse is dropped and the loop continues.
\<close>

function nps_loop ::
  "(bytes \<Rightarrow> 'w option) \<Rightarrow> ('w \<Rightarrow> 's \<Rightarrow> 's \<times> bool) \<Rightarrow> bytes \<Rightarrow> 's \<Rightarrow> bytes \<times> 's" where
  "nps_loop parse handle buf s =
     (case split_frame buf of
        None \<Rightarrow> (buf, s)
      | Some (f, rest) \<Rightarrow>
          (case parse f of
             None \<Rightarrow> nps_loop parse handle rest s
           | Some w \<Rightarrow>
               (case handle w s of (s', go) \<Rightarrow>
                  if go then nps_loop parse handle rest s' else (rest, s'))))"
  by pat_completeness auto
termination
  by (relation "measure (\<lambda>(_, _, buf, _). length buf)") (auto dest: split_frame_shorter)

definition nps_read ::
  "(bytes \<Rightarrow> 'w option) \<Rightarrow> ('w \<Rightarrow> 's \<Rightarrow> 's \<times> bool) \<Rightarrow> bytes \<Rightarrow> bytes \<times> 's \<Rightarrow> bytes \<times> 's" where
  "nps_read parse handle chunk bs = nps_loop parse handle (fst bs @ chunk) (snd bs)"

text \<open>
  \<open>NetworkPlugin::handleDataRead\<close>, the backend's loop: here a wrapper that does not parse ends
  the call as well.
\<close>

function plugin_loop ::
  "(bytes \<Rightarrow> 'w option) \<Rightarrow> ('w \<Rightarrow> 's \<Rightarrow> 's \<times> bool) \<Rightarrow> bytes \<Rightarrow> 's \<Rightarrow> bytes \<times> 's" where
  "plugin_loop parse handle buf s =
     (case split_frame buf of
        None \<Rightarrow> (buf, s)
      | Some (f, rest) \<Rightarrow>
          (case parse f of
             None \<Rightarrow> (rest, s)
           | Some w \<Rightarrow>
               (case handle w s of (s', go) \<Rightarrow>
                  if go then plugin_loop parse handle rest s' else (rest, s'))))"
  by pat_completeness auto
termination
  by (relation "measure (\<lambda>(_, _, buf, _). length buf)") (auto dest: split_frame_shorter)

definition plugin_read ::
  "(bytes \<Rightarrow> 'w option) \<Rightarrow> ('w \<Rightarrow> 's \<Rightarrow> 's \<times> bool) \<Rightarrow> bytes \<Rightarrow> bytes \<times> 's \<Rightarrow> bytes \<times> 's" where
  "plugin_read parse handle chunk bs = plugin_loop parse handle (fst bs @ chunk) (snd bs)"

declare nps_loop.simps [simp del] plugin_loop.simps [simp del]

text \<open>What one complete frame does in each loop, with the flag that says whether it goes on.\<close>

definition nps_step ::
  "(bytes \<Rightarrow> 'w option) \<Rightarrow> ('w \<Rightarrow> 's \<Rightarrow> 's \<times> bool) \<Rightarrow> bytes \<Rightarrow> 's \<Rightarrow> 's \<times> bool" where
  "nps_step parse handle f s = (case parse f of None \<Rightarrow> (s, True) | Some w \<Rightarrow> handle w s)"

definition plugin_step ::
  "(bytes \<Rightarrow> 'w option) \<Rightarrow> ('w \<Rightarrow> 's \<Rightarrow> 's \<times> bool) \<Rightarrow> bytes \<Rightarrow> 's \<Rightarrow> 's \<times> bool" where
  "plugin_step parse handle f s = (case parse f of None \<Rightarrow> (s, False) | Some w \<Rightarrow> handle w s)"

section \<open>Facts on the header\<close>

lemma unat_ucast_drop_bit:
  "unat (ucast (drop_bit k w) :: 8 word) = unat (w :: 32 word) div 2 ^ k mod 256"
proof -
  have "unat w < 4294967296" using unsigned_less [of w] by simp
  then show ?thesis
    by (simp add: unsigned_ucast_eq unsigned_drop_bit_eq take_bit_eq_mod) (simp add: drop_bit_eq_div)
qed

lemma length_be32 [simp]: "length (be32 w) = 4"
  by (simp add: be32_def)

lemma dec32_be32 [simp]: "dec32 (be32 w @ xs) = unat w"
proof -
  have bound: "unat w < 4294967296"
    using unsigned_less [of w] by simp
  have low: "unat (ucast w :: 8 word) = unat w mod 256"
    by (simp add: unsigned_ucast_eq take_bit_eq_mod)
  define n where "n = unat w"
  have "((n div 16777216 * 256 + n div 65536 mod 256) * 256 + n div 256 mod 256) * 256
      + n mod 256 = n"
  proof -
    have "n div 16777216 = n div 256 div 256 div 256" "n div 65536 = n div 256 div 256"
      by (simp_all add: div_mult2_eq [symmetric])
    then show ?thesis
      by (simp add: div_mult_mod_eq)
  qed
  then show ?thesis
    using bound unfolding be32_def by (simp add: unat_ucast_drop_bit low n_def)
qed

lemma length_frame [simp]: "length (frame m) = 4 + length m"
  by (simp add: frame_def)

lemma unat_of_nat_len: "n < 2 ^ 32 \<Longrightarrow> unat (of_nat n :: 32 word) = n"
  by (simp add: unsigned_of_nat take_bit_eq_mod)

lemma split_frame_frame:
  assumes "length m < 2 ^ 32"
  shows "split_frame (frame m @ tail) = Some (m, tail)"
  using assms by (simp add: split_frame_def frame_def unat_of_nat_len)

lemma split_frame_prefix:
  assumes "length m < 2 ^ 32" and "length q < length (frame m)" and "q = take (length q) (frame m)"
  shows "split_frame q = None"
proof (cases "4 \<le> length q")
  case True
  from assms(3) have "q = take (length q) (be32 (of_nat (length m)) @ m)"
    by (simp add: frame_def)
  with True have "q = be32 (of_nat (length m)) @ take (length q - 4) m"
    by (metis length_be32 take_append take_all)
  then have "dec32 q = length m"
    using assms(1) by (metis dec32_be32 unat_of_nat_len)
  with assms(2) True show ?thesis by (auto simp: split_frame_def)
next
  case False
  then show ?thesis by (simp add: split_frame_def)
qed

section \<open>Reading a stream of frames\<close>

definition stream :: "bytes list \<Rightarrow> bytes" where
  "stream ms = concat (map frame ms)"

locale frame_reader =
  fixes loop :: "bytes \<Rightarrow> 's \<Rightarrow> bytes \<times> 's"
    and step :: "bytes \<Rightarrow> 's \<Rightarrow> 's \<times> bool"
  assumes loop_None: "split_frame buf = None \<Longrightarrow> loop buf s = (buf, s)"
    and loop_Some: "split_frame buf = Some (f, rest) \<Longrightarrow>
      loop buf s = (if snd (step f s) then loop rest (fst (step f s)) else (rest, fst (step f s)))"
begin

lemma loop_frame:
  assumes "length m < 2 ^ 32"
  shows "loop (frame m @ tail) s =
    (if snd (step m s) then loop tail (fst (step m s)) else (tail, fst (step m s)))"
  by (rule loop_Some) (rule split_frame_frame [OF assms])

lemma loop_Nil [simp]: "loop [] s = ([], s)"
  by (rule loop_None) (simp add: split_frame_def)

text \<open>
  A buffer that holds a prefix of a stream: the complete frames are handled in order and what is
  left is the beginning of the next frame.
\<close>

lemma loop_prefix:
  assumes "\<And>m. m \<in> set ms \<Longrightarrow> length m < 2 ^ 32"
    and "\<And>m s. m \<in> set ms \<Longrightarrow> snd (step m s)"
    and "q @ suf = stream ms"
  shows "\<exists>dn rs r. ms = dn @ rs \<and> r @ suf = stream rs \<and> split_frame r = None
    \<and> loop q s = (r, fold (\<lambda>m s. fst (step m s)) dn s)"
  using assms
proof (induction ms arbitrary: q s)
  case Nil
  then have "q = []" "suf = []" by (auto simp: stream_def)
  then show ?case by (intro exI [of _ "[]"]) (auto simp: stream_def split_frame_def)
next
  case (Cons m ms)
  have len: "length m < 2 ^ 32" and go: "\<And>s. snd (step m s)"
    using Cons.prems by auto
  have eq: "q @ suf = frame m @ stream ms"
    using Cons.prems(3) by (simp add: stream_def)
  show ?case
  proof (cases "length q < length (frame m)")
    case True
    then have "q = take (length q) (frame m)"
      using eq by (metis append_eq_append_conv_if append_take_drop_id linorder_not_less
          nat_less_le take_all)
    with True len have "split_frame q = None"
      by (intro split_frame_prefix)
    moreover from this have "loop q s = (q, s)"
      by (rule loop_None)
    ultimately show ?thesis using Cons.prems(3)
      by (intro exI [of _ "[]"] exI [of _ "m # ms"] exI [of _ q]) simp
  next
    case False
    then obtain q' where q: "q = frame m @ q'" and rest: "q' @ suf = stream ms"
      using eq by (metis append_eq_append_conv_if append_take_drop_id linorder_not_less)
    from Cons.IH [OF _ _ rest, of "fst (step m s)"] Cons.prems(1,2)
    obtain dn rs r where ih: "ms = dn @ rs" "r @ suf = stream rs"
      "split_frame r = None"
      "loop q' (fst (step m s)) = (r, fold (\<lambda>m s. fst (step m s)) dn (fst (step m s)))"
      by (metis list.set_intros(2))
    have "loop q s = loop q' (fst (step m s))"
      using go by (simp add: q loop_frame [OF len])
    with ih show ?thesis
      by (intro exI [of _ "m # dn"] exI [of _ rs] exI [of _ r]) simp
  qed
qed

theorem feed_chunks:
  assumes "\<And>m. m \<in> set ms \<Longrightarrow> length m < 2 ^ 32"
    and "\<And>m s. m \<in> set ms \<Longrightarrow> snd (step m s)"
    and "buf @ concat chunks = stream ms"
    and "split_frame buf = None"
  shows "fold (\<lambda>c bs. loop (fst bs @ c) (snd bs)) chunks (buf, s)
    = ([], fold (\<lambda>m s. fst (step m s)) ms s)"
  using assms
proof (induction chunks arbitrary: ms buf s)
  case Nil
  from Nil.prems(3) have "buf = stream ms" by simp
  with Nil.prems(1,4) have "ms = []"
    by (cases ms) (auto simp: stream_def split_frame_frame)
  with \<open>buf = stream ms\<close> show ?case by (simp add: stream_def)
next
  case (Cons c chunks)
  have "(buf @ c) @ concat chunks = stream ms" using Cons.prems(3) by simp
  from loop_prefix [OF Cons.prems(1,2) this, of s]
  obtain dn rs r where ms: "ms = dn @ rs" and r: "r @ concat chunks = stream rs"
    and None: "split_frame r = None"
    and lp: "loop (buf @ c) s = (r, fold (\<lambda>m s. fst (step m s)) dn s)"
    by blast
  have "fold (\<lambda>c bs. loop (fst bs @ c) (snd bs)) chunks (r, fold (\<lambda>m s. fst (step m s)) dn s)
    = ([], fold (\<lambda>m s. fst (step m s)) rs (fold (\<lambda>m s. fst (step m s)) dn s))"
    using Cons.prems(1,2) ms by (intro Cons.IH r None) auto
  then show ?case by (simp add: lp ms)
qed

end

section \<open>The two loops\<close>

interpretation nr: frame_reader "nps_loop parse handle" "nps_step parse handle"
  for parse :: "bytes \<Rightarrow> 'w option" and handle :: "'w \<Rightarrow> 's \<Rightarrow> 's \<times> bool"
  by unfold_locales
    (subst nps_loop.simps, auto simp: nps_step_def split: option.splits prod.splits)+

interpretation pr: frame_reader "plugin_loop parse handle" "plugin_step parse handle"
  for parse :: "bytes \<Rightarrow> 'w option" and handle :: "'w \<Rightarrow> 's \<Rightarrow> 's \<times> bool"
  by unfold_locales
    (subst plugin_loop.simps, auto simp: plugin_step_def split: option.splits prod.splits)+

lemma fold_nps_read: "fold (nps_read parse handle) chunks bs
    = fold (\<lambda>c bs. nps_loop parse handle (fst bs @ c) (snd bs)) chunks bs"
  by (induction chunks arbitrary: bs) (simp_all add: nps_read_def)

lemma fold_plugin_read: "fold (plugin_read parse handle) chunks bs
    = fold (\<lambda>c bs. plugin_loop parse handle (fst bs @ c) (snd bs)) chunks bs"
  by (induction chunks arbitrary: bs) (simp_all add: plugin_read_def)

text \<open>
  C1: However the network splits the bytes of a sequence of frames into reads,
  \<open>NetworkPluginServer::handleDataRead\<close> handles exactly the frames' wrapper messages, each once
  and in order (those that do not parse are skipped), and leaves an empty buffer. The
  hypothesis on \<open>handle\<close> says that the \<open>switch\<close> knows the type of every message.
\<close>

theorem nps_read_stream:
  assumes "\<And>m. m \<in> set ms \<Longrightarrow> length m < 2 ^ 32"
    and "\<And>m w s. m \<in> set ms \<Longrightarrow> parse m = Some w \<Longrightarrow> snd (handle w s)"
    and "concat chunks = stream ms"
  shows "fold (nps_read parse handle) chunks ([], s)
    = ([], fold (\<lambda>w s. fst (handle w s)) (List.map_filter parse ms) s)"
proof -
  have go: "snd (nps_step parse handle m s)" if "m \<in> set ms" for m s
    using assms(2) [OF that] by (auto simp: nps_step_def split: option.splits)
  have "fold (\<lambda>m s. fst (nps_step parse handle m s)) ms s
      = fold (\<lambda>w s. fst (handle w s)) (List.map_filter parse ms) s"
    by (induction ms arbitrary: s) (simp_all add: nps_step_def List.map_filter_simps split: option.splits)
  then show ?thesis
    using nr.feed_chunks [of ms parse handle "[]" chunks s, OF assms(1) go] assms(3)
    by (simp add: fold_nps_read split_frame_def)
qed

theorem nps_read_stream_witness:
  "fold (nps_read (\<lambda>m. Some (length m)) (\<lambda>w s. (s @ [w], True)))
     [[0, 0], [0, 2, 7], [8, 0, 0, 0, 0]] ([], []) = ([], [2, 0])"
proof -
  have s: "concat [[0, 0], [0, 2, 7], [8, 0, 0, 0, 0 :: 8 word]] = stream [[7, 8], []]"
    by (simp add: stream_def frame_def be32_def)
  show ?thesis
    by (subst nps_read_stream [OF _ _ s]) (auto simp: List.map_filter_simps)
qed

text \<open>
  The backend's \<open>NetworkPlugin::handleDataRead\<close> has the same property for streams whose
  wrapper messages all parse and have a type its \<open>switch\<close> knows.
\<close>

theorem plugin_read_stream:
  assumes "\<And>m. m \<in> set ms \<Longrightarrow> length m < 2 ^ 32"
    and "\<And>m. m \<in> set ms \<Longrightarrow> parse m \<noteq> None"
    and "\<And>m w s. m \<in> set ms \<Longrightarrow> parse m = Some w \<Longrightarrow> snd (handle w s)"
    and "concat chunks = stream ms"
  shows "fold (plugin_read parse handle) chunks ([], s)
    = ([], fold (\<lambda>w s. fst (handle w s)) (map (the \<circ> parse) ms) s)"
proof -
  have go: "snd (plugin_step parse handle m s)" if "m \<in> set ms" for m s
    using assms(2) [OF that] assms(3) [OF that] by (auto simp: plugin_step_def split: option.splits)
  have "fold (\<lambda>m s. fst (plugin_step parse handle m s)) ms s
      = fold (\<lambda>w s. fst (handle w s)) (map (the \<circ> parse) ms) s"
    unfolding fold_map
  proof (rule fold_cong [OF refl refl])
    fix m assume m: "m \<in> set ms"
    show "(\<lambda>s. fst (plugin_step parse handle m s)) = ((\<lambda>w s. fst (handle w s)) \<circ> (the \<circ> parse)) m"
      using assms(2) [OF m] by (auto simp: plugin_step_def fun_eq_iff)
  qed
  then show ?thesis
    using pr.feed_chunks [of ms parse handle "[]" chunks s, OF assms(1) go] assms(4)
    by (simp add: fold_plugin_read split_frame_def)
qed

theorem plugin_read_stream_witness:
  "fold (plugin_read (\<lambda>m. Some (length m)) (\<lambda>w s. (s @ [w], True)))
     [[0, 0, 0], [1, 9, 0, 0], [0, 0]] ([], []) = ([], [1, 0])"
proof -
  have s: "concat [[0, 0, 0], [1, 9, 0, 0], [0, 0 :: 8 word]] = stream [[9], []]"
    by (simp add: stream_def frame_def be32_def)
  show ?thesis
    by (subst plugin_read_stream [OF _ _ _ s]) auto
qed

end
