(* ===== verification/Stanza.thy ===== *)
theory Stanza
  imports Prelude
begin

text \<open>
  The stanzas and addresses the components exchange. The classes are those of the Swiften
  library, which is not part of the repository: a JID, a presence and a message are the data
  their accessors return, and the operations with an algorithm of their own (node escaping,
  parsing and printing of JIDs, validity, the availability order of a \<open>StatusShow\<close>) are the
  fields of the parameter record \<open>swiften\<close>, an argument of every definition that uses one.
\<close>

section \<open>Addresses\<close>

datatype jid = JID (jid_node: string) (jid_domain: string) (jid_res: "string option")

definition jid_resource :: "jid \<Rightarrow> string" where
  "jid_resource j = (case jid_res j of None \<Rightarrow> [] | Some r \<Rightarrow> r)"

definition jid_bare :: "jid \<Rightarrow> jid" where
  "jid_bare j = JID (jid_node j) (jid_domain j) None"

definition jid_isBare :: "jid \<Rightarrow> bool" where
  "jid_isBare j = (jid_res j = None)"

definition jid_none :: jid where
  "jid_none = JID [] [] None"

text \<open>JIDs are map keys: a total order by node, domain and resource.\<close>

instantiation jid :: linorder
begin

definition less_eq_jid :: "jid \<Rightarrow> jid \<Rightarrow> bool" where
  "less_eq_jid a b \<longleftrightarrow> (jid_node a, jid_domain a, jid_res a) \<le> (jid_node b, jid_domain b, jid_res b)"

definition less_jid :: "jid \<Rightarrow> jid \<Rightarrow> bool" where
  "less_jid a b \<longleftrightarrow> (jid_node a, jid_domain a, jid_res a) < (jid_node b, jid_domain b, jid_res b)"

instance
proof
  fix x y z :: jid
  show "(x < y) = (x \<le> y \<and> \<not> y \<le> x)" unfolding less_eq_jid_def less_jid_def by (rule less_le_not_le)
  show "x \<le> x" unfolding less_eq_jid_def by (rule order_refl)
  show "x \<le> y \<Longrightarrow> y \<le> z \<Longrightarrow> x \<le> z" unfolding less_eq_jid_def by (rule order_trans)
  show "x \<le> y \<Longrightarrow> y \<le> x \<Longrightarrow> x = y"
    unfolding less_eq_jid_def by (cases x, cases y) (auto dest: order_antisym)
  show "x \<le> y \<or> y \<le> x" unfolding less_eq_jid_def by (rule linear)
qed

end

record swiften =
  sw_jid :: "string \<Rightarrow> string \<Rightarrow> string option \<Rightarrow> jid"
  sw_parse :: "string \<Rightarrow> jid"
  sw_str :: "jid \<Rightarrow> string"
  sw_valid :: "jid \<Rightarrow> bool"
  sw_escape :: "string \<Rightarrow> string"
  sw_unescape :: "string \<Rightarrow> string"
  sw_availability :: "int \<Rightarrow> int"

section \<open>Presence and message stanzas\<close>

datatype ptype = Available | Error | Probe | Subscribe | Subscribed | Unavailable | Unsubscribe
  | Unsubscribed

text \<open>\<open>Swift::StatusShow::Type\<close>, as the integers that \<open>pbnetwork::StatusType\<close> is cast to.\<close>

definition Show_Online :: int where "Show_Online = 0"
definition Show_None :: int where "Show_None = 5"

datatype mtype = Normal | Chat | MError | Groupchat | Headline

datatype chatstate = Active | Composing | Paused | Inactive | Gone

datatype errcond = Conflict | NotAuthorized | ItemNotFound | SubscriptionRequired | BadRequest | NotAcceptable
  | FeatureNotImplemented | OtherCondition

datatype affiliation = NoAffiliation | Member | Admin
datatype role = NoRole | Participant | Moderator

datatype mucitem =
  MUCItem (item_affiliation: affiliation) (item_role: role) (item_nick: string)
    (item_actor: string) (item_reason: string)

text \<open>
  The payloads the program looks at. \<open>Fwd\<close> is the stanza inside a \<open>Swift::Forwarded\<close>: type,
  recipient, sender, body, subject and payloads of the wrapped message.
\<close>

datatype payload =
    MUCP "string option"
  | VCardUpdateP string
  | MUCUserP "mucitem list" "nat list"
  | ErrorP errcond string
  | CapsInfoP string
  | InvisibleP
  | NicknameP string
  | DelayP int
  | ChatStateP chatstate
  | XHTMLP string
  | AttentionP
  | ReceiptP string
  | ReceiptRequestP
  | OobP string bool
  | HintNoCopyP
  | SpectrumErrorP int
  | CarbonsSentP forwarded
  | CarbonsReceivedP forwarded
  | PrivilegeP forwarded
and forwarded = Fwd mtype jid jid "string option" string "payload list"

record presence =
  pr_type :: ptype
  pr_to :: jid
  pr_from :: jid
  pr_show :: int
  pr_status :: string
  pr_priority :: int
  pr_payloads :: "payload list"

record message =
  m_type :: mtype
  m_to :: jid
  m_from :: jid
  m_id :: string
  m_body :: "string option"
  m_subject :: string
  m_payloads :: "payload list"

text \<open>
  \<open>Swift::Presence::create()\<close> followed by \<open>setTo\<close>, \<open>setFrom\<close> and \<open>setType\<close>. Without a \<open>show\<close>
  payload \<open>getShow()\<close> is \<open>Online\<close> for an available presence and \<open>None\<close> otherwise.
\<close>

definition mk_presence :: "jid \<Rightarrow> jid \<Rightarrow> ptype \<Rightarrow> presence" where
  "mk_presence to from t =
     \<lparr>pr_type = t, pr_to = to, pr_from = from,
      pr_show = (if t = Available then Show_Online else Show_None),
      pr_status = [], pr_priority = 0, pr_payloads = []\<rparr>"

definition empty_message :: message where
  "empty_message = \<lparr>m_type = Chat, m_to = jid_none, m_from = jid_none, m_id = [], m_body = None,
     m_subject = [], m_payloads = []\<rparr>"

definition forward_of :: "message \<Rightarrow> forwarded" where
  "forward_of m = Fwd (m_type m) (m_to m) (m_from m) (m_body m) (m_subject m) (m_payloads m)"

definition add_payload :: "payload \<Rightarrow> message \<Rightarrow> message" where
  "add_payload p m = m\<lparr>m_payloads := m_payloads m @ [p]\<rparr>"

definition pr_add_payload :: "payload \<Rightarrow> presence \<Rightarrow> presence" where
  "pr_add_payload p pr = pr\<lparr>pr_payloads := pr_payloads pr @ [p]\<rparr>"

text \<open>\<open>getPayload<T>()\<close> for the payload classes that are tested.\<close>

fun muc_payload :: "payload list \<Rightarrow> (string option) option" where
  "muc_payload [] = None"
| "muc_payload (MUCP pw # ps) = Some pw"
| "muc_payload (_ # ps) = muc_payload ps"

fun caps_payload :: "payload list \<Rightarrow> string option" where
  "caps_payload [] = None"
| "caps_payload (CapsInfoP h # ps) = Some h"
| "caps_payload (_ # ps) = caps_payload ps"

fun vcard_payload :: "payload list \<Rightarrow> string option" where
  "vcard_payload [] = None"
| "vcard_payload (VCardUpdateP h # ps) = Some h"
| "vcard_payload (_ # ps) = vcard_payload ps"

fun error_payload :: "payload list \<Rightarrow> errcond option" where
  "error_payload [] = None"
| "error_payload (ErrorP c _ # ps) = Some c"
| "error_payload (_ # ps) = error_payload ps"

fun chatstate_payload :: "payload list \<Rightarrow> chatstate option" where
  "chatstate_payload [] = None"
| "chatstate_payload (ChatStateP c # ps) = Some c"
| "chatstate_payload (_ # ps) = chatstate_payload ps"

fun xhtml_payload :: "payload list \<Rightarrow> string option" where
  "xhtml_payload [] = None"
| "xhtml_payload (XHTMLP x # ps) = Some x"
| "xhtml_payload (_ # ps) = xhtml_payload ps"

section \<open>Configuration\<close>

text \<open>
  The options the components read with the \<open>CONFIG_*\<close> macros, under the option's name. An
  option read with a \<open>_DEFAULTED\<close> macro may be absent; \<open>dflt\<close> is the macro.
\<close>

record settings =
  cf_jid :: jid
  cf_server_mode :: "bool option"
  cf_jid_escaping :: "bool option"
  cf_rawxml :: "bool option"
  cf_send_buddies_on_login :: "bool option"
  cf_needRegistration :: "bool option"
  cf_needPassword :: "bool option"
  cf_auto_register :: bool
  cf_vip_only :: bool
  cf_vip_message :: string
  cf_enable_remove_buddy :: bool
  cf_more_resources :: bool
  cf_enable_xhtml :: bool
  cf_reuse_old_backends :: bool
  cf_users_per_backend :: int
  cf_login_delay :: int
  cf_idle_reconnect_time :: int
  cf_admin_jid :: "string list"
  cf_admin_password :: string

definition dflt :: "'a option \<Rightarrow> 'a \<Rightarrow> 'a" where
  "dflt x d = (case x of None \<Rightarrow> d | Some v \<Rightarrow> v)"

definition inServerMode :: "settings \<Rightarrow> bool" where
  "inServerMode cf = dflt (cf_server_mode cf) False"

section \<open>Calls to the frontend and signals\<close>

text \<open>
  What a component does besides changing its own state: stanzas handed to the \<open>Frontend\<close>, calls
  of the virtual roster hooks, and the boost signals it emits, in the order it does them.
\<close>

text \<open>\<open>UserInfo\<close>, \<open>SettingType\<close>, \<open>SettingVariableInfo\<close> and \<open>BuddyInfo\<close> of \<open>include/transport/StorageBackend.h\<close>.\<close>

record userinfo =
  ui_id :: int
  ui_jid :: string
  ui_uin :: string
  ui_password :: string
  ui_language :: string
  ui_encoding :: string
  ui_settings :: "(string, string) smap"
  ui_vip :: bool

definition TYPE_BOOLEAN :: int where "TYPE_BOOLEAN = 4"
definition TYPE_STRING :: int where "TYPE_STRING = 13"

record settingvar =
  sv_type :: int
  sv_s :: string
  sv_i :: int
  sv_b :: bool

text \<open>A value that \<open>operator[]\<close> of \<open>std::map\<close> creates.\<close>

definition empty_var :: settingvar where
  "empty_var = \<lparr>sv_type = 0, sv_s = [], sv_i = 0, sv_b = False\<rparr>"

record buddyinfo =
  bi_id :: int
  bi_alias :: string
  bi_legacyName :: string
  bi_subscription :: string
  bi_groups :: "string list"
  bi_settings :: "(string, settingvar) smap"
  bi_flags :: int

datatype effect =
    SendPresence presence
  | SendMessage message
  | SendRosterAdmin jid
  | SendRosterRemove jid jid
  | SendRosterPush jid jid string "string list"
  | SendCapabilitiesRequest jid
  | RequestVCard
  | GetBuddy string
  | OnReadyToConnect
  | OnPresenceChanged presence
  | OnRawPresenceReceived presence
  | OnRoomJoined jid string string string
  | OnRoomLeft string
  | OnDisconnected
  | OnUserDestroyed
  | OnUserCreated
  | OnMessageToSend string message
  | OnBuddyAdded string string "string list"
  | OnBuddyRemoved string string "string list"
  | DisconnectUser string int
  | DbBegin
  | DbCommit
  | DbAddBuddy buddyinfo
  | DbUpdateBuddy buddyinfo
  | DbRemoveBuddy int
  | DbUpdateUserSetting string string

text \<open>A loop over \<open>xs\<close> whose body changes the state and has effects.\<close>

fun run_all :: "('a \<Rightarrow> 's \<Rightarrow> 's \<times> effect list) \<Rightarrow> 'a list \<Rightarrow> 's \<Rightarrow> 's \<times> effect list" where
  "run_all f [] s = (s, [])"
| "run_all f (x # xs) s = (let (s, o1) = f x s; (s, o2) = run_all f xs s in (s, o1 @ o2))"

section \<open>Facts\<close>

lemma run_all_inv: "P s \<Longrightarrow> (\<And>x s. P s \<Longrightarrow> P (fst (f x s))) \<Longrightarrow> P (fst (run_all f xs s))"
  by (induction xs arbitrary: s) (auto simp: Let_def split: prod.splits, metis fst_conv)

lemma run_all_stateless:
  "(\<And>x. x \<in> set xs \<Longrightarrow> f x s = (s, g x)) \<Longrightarrow> run_all f xs s = (s, concat (map g xs))"
  by (induction xs) auto

lemma jid_bare_sel [simp]:
  "jid_node (jid_bare j) = jid_node j" "jid_domain (jid_bare j) = jid_domain j"
  "jid_res (jid_bare j) = None" "jid_bare (jid_bare j) = jid_bare j"
  by (simp_all add: jid_bare_def)

lemma jid_isBare_iff: "jid_isBare j \<longleftrightarrow> jid_bare j = j"
  by (cases j) (auto simp: jid_isBare_def jid_bare_def)

lemma jid_isBare_bare [simp]: "jid_isBare (jid_bare j)"
  by (simp add: jid_isBare_def)

lemma mk_presence_sel [simp]:
  "pr_type (mk_presence to from t) = t" "pr_to (mk_presence to from t) = to"
  "pr_from (mk_presence to from t) = from" "pr_payloads (mk_presence to from t) = []"
  by (simp_all add: mk_presence_def)

end
