(* ===== verification/Naming.thy ===== *)
theory Naming
  imports Stanza
begin

text \<open>
  Translation between the names of the legacy network and XMPP nodes: \<open>Buddy::JIDToLegacyName\<close>,
  \<open>Buddy::buddyFlagsFromJID\<close>, the name part of \<open>Buddy::getSafeName\<close> (all of
  \<open>libtransport/Buddy.cpp\<close>), and the same substitution where \<open>Conversation\<close> and
  \<open>UserManager::handlePresence\<close> do it.
\<close>

unbundle bit_operations_syntax

definition BUDDY_NO_FLAG :: int where "BUDDY_NO_FLAG = 0"
definition BUDDY_JID_ESCAPING :: int where "BUDDY_JID_ESCAPING = 2"
definition BUDDY_BLOCKED :: int where "BUDDY_BLOCKED = 8"

text \<open>The name a JID stands for, before the roster is consulted.\<close>

definition node_to_legacy :: "swiften \<Rightarrow> string \<Rightarrow> string" where
  "node_to_legacy sw n =
     (if sw_unescape sw n = n then replace_last CHR ''%'' CHR ''@'' n else sw_unescape sw n)"

text \<open>\<open>JIDToLegacyName(jid, user)\<close>; \<open>roster\<close> is \<open>getBuddy(name)->getName()\<close> of the user's roster.\<close>

definition JIDToLegacyName :: "swiften \<Rightarrow> (string \<Rightarrow> string option) \<Rightarrow> jid \<Rightarrow> string" where
  "JIDToLegacyName sw roster j =
     (let name = node_to_legacy sw (jid_node j)
      in case roster name of None \<Rightarrow> name | Some n \<Rightarrow> n)"

definition buddyFlagsFromJID :: "swiften \<Rightarrow> jid \<Rightarrow> int" where
  "buddyFlagsFromJID sw j =
     (if sw_unescape sw (jid_node j) = jid_node j then BUDDY_NO_FLAG else BUDDY_JID_ESCAPING)"

text \<open>The part of \<open>getSafeName\<close> that computes the node from the name.\<close>

definition safe_name :: "swiften \<Rightarrow> int \<Rightarrow> string \<Rightarrow> string" where
  "safe_name sw flags name =
     (if flags AND BUDDY_JID_ESCAPING \<noteq> 0 then sw_escape sw name
      else replace_last CHR ''@'' CHR ''%'' name)"

text \<open>
  The node of a room: the last \<open>@\<close> becomes \<open>%\<close> unless the room's own escaping is on, then the
  result is escaped (\<open>Conversation::destroyRoom\<close>, \<open>handleMessage\<close> and \<open>generatePresence\<close>).
\<close>

definition room_node :: "swiften \<Rightarrow> bool \<Rightarrow> string \<Rightarrow> string" where
  "room_node sw mucEscaping name =
     sw_escape sw (if mucEscaping then name else replace_last CHR ''@'' CHR ''%'' name)"

text \<open>
  The loop of \<open>UserManager::handlePresence\<close> that turns a node into the legacy user name in
  server mode: \<open>while (find_last_of("%") != npos) replace(find_last_of("%"), 1, "@")\<close>.
\<close>

lemma count_replace_last:
  "a \<in> set s \<Longrightarrow> a \<noteq> b \<Longrightarrow> count_list (replace_last a b s) a < count_list s a"
  by (induction s) (auto simp: count_list_0_iff)

function percent_loop :: "string \<Rightarrow> string" where
  "percent_loop s =
     (if CHR ''%'' \<in> set s then percent_loop (replace_last CHR ''%'' CHR ''@'' s) else s)"
  by pat_completeness auto
termination
  by (relation "measure (\<lambda>s. count_list s CHR ''%'')") (auto intro!: count_replace_last)

declare percent_loop.simps [simp del]

section \<open>Facts\<close>

lemma map_replace_last:
  "a \<noteq> b \<Longrightarrow> map (\<lambda>c. if c = a then b else c) (replace_last a b s) = map (\<lambda>c. if c = a then b else c) s"
  by (induction s) auto

lemma map_id_if: "a \<notin> set s \<Longrightarrow> map (\<lambda>c. if c = a then b else c) s = s"
  by (induction s) auto

text \<open>
  The replacement loop of the login path ends and turns every \<open>%\<close> of the node into \<open>@\<close>.
\<close>

theorem percent_loop_all:
  "percent_loop s = map (\<lambda>c. if c = CHR ''%'' then CHR ''@'' else c) s"
proof (induction s rule: percent_loop.induct)
  case (1 s)
  show ?case
  proof (cases "CHR ''%'' \<in> set s")
    case True
    with 1 show ?thesis
      by (subst percent_loop.simps) (simp add: map_replace_last)
  next
    case False
    then show ?thesis
      by (subst percent_loop.simps) (simp add: map_id_if)
  qed
qed

lemma safe_name_node:
  assumes "CHR ''@'' \<notin> set (jid_node j)"
    and "sw_unescape sw (jid_node j) \<noteq> jid_node j \<longrightarrow>
      sw_escape sw (sw_unescape sw (jid_node j)) = jid_node j"
  shows "safe_name sw (buddyFlagsFromJID sw j) (node_to_legacy sw (jid_node j)) = jid_node j"
  using assms
  by (simp add: safe_name_def buddyFlagsFromJID_def node_to_legacy_def BUDDY_NO_FLAG_def
      BUDDY_JID_ESCAPING_def replace_last_inverse)

text \<open>
  The JID a contact gets from the name and flags derived from a subscription request is the
  JID the request was addressed to. The hypotheses are the laws of XEP-0106 for the node: a node
  contains no \<open>@\<close>, and escaping undoes unescaping.
\<close>

theorem node_roundtrip:
  assumes "CHR ''@'' \<notin> set (jid_node j)"
    and "sw_unescape sw (jid_node j) \<noteq> jid_node j \<Longrightarrow>
      sw_escape sw (sw_unescape sw (jid_node j)) = jid_node j"
  shows "safe_name sw (buddyFlagsFromJID sw j) (JIDToLegacyName sw (\<lambda>_. None) j) = jid_node j"
  using safe_name_node [of j sw] assms by (simp add: JIDToLegacyName_def Let_def)

definition escape_sw :: swiften where
  "escape_sw = \<lparr>sw_jid = JID, sw_parse = (\<lambda>s. JID [] s None),
     sw_str = (\<lambda>j. jid_node j @ ''@'' @ jid_domain j), sw_valid = (\<lambda>j. jid_domain j \<noteq> []),
     sw_escape = (\<lambda>s. concat (map (\<lambda>c. if c = CHR ''@'' then [CHR 0x5C, CHR ''4'', CHR ''0''] else [c]) s)),
     sw_unescape = (\<lambda>s. if s = ''a'' @ [CHR 0x5C, CHR ''4'', CHR ''0''] @ ''b'' then ''a@b'' else s),
     sw_availability = (\<lambda>s. s)\<rparr>"

theorem node_roundtrip_witness:
  "safe_name escape_sw (buddyFlagsFromJID escape_sw (JID (''a'' @ [CHR 0x5C, CHR ''4'', CHR ''0''] @ ''b'') ''d'' None))
     (JIDToLegacyName escape_sw (\<lambda>_. None) (JID (''a'' @ [CHR 0x5C, CHR ''4'', CHR ''0''] @ ''b'') ''d'' None))
   = ''a'' @ [CHR 0x5C, CHR ''4'', CHR ''0''] @ ''b''"
  using node_roundtrip [of "JID (''a'' @ [CHR 0x5C, CHR ''4'', CHR ''0''] @ ''b'') ''d'' None" escape_sw]
  by (simp add: escape_sw_def)

text \<open>
  A legacy name survives the translation to a node and back when it is escaped and escaping
  changes it, or, unescaped, when it has no \<open>%\<close>. The remaining case fails: with escaping on, a
  name that needs no escaping but contains a \<open>%\<close> comes back with its last \<open>%\<close> turned into \<open>@\<close>.
\<close>

theorem legacy_name_roundtrip:
  assumes "sw_unescape sw (sw_escape sw name) = name"
  shows "node_to_legacy sw (safe_name sw BUDDY_JID_ESCAPING name) =
      (if sw_escape sw name = name then replace_last CHR ''%'' CHR ''@'' name else name)
    \<and> (CHR ''%'' \<notin> set name
       \<and> sw_unescape sw (safe_name sw BUDDY_NO_FLAG name) = safe_name sw BUDDY_NO_FLAG name
       \<longrightarrow> node_to_legacy sw (safe_name sw BUDDY_NO_FLAG name) = name)"
  using assms
  by (auto simp: node_to_legacy_def safe_name_def BUDDY_NO_FLAG_def BUDDY_JID_ESCAPING_def
      replace_last_inverse)

theorem legacy_name_roundtrip_witness:
  "node_to_legacy escape_sw (safe_name escape_sw BUDDY_JID_ESCAPING ''a@b'') = ''a@b''
   \<and> node_to_legacy escape_sw (safe_name escape_sw BUDDY_JID_ESCAPING ''5%'') = ''5@''"
  using legacy_name_roundtrip [of escape_sw "''a@b''"] legacy_name_roundtrip [of escape_sw "''5%''"]
  by (simp add: escape_sw_def)

end
