(* ===== verification/Roster.thy ===== *)
theory Roster
  imports Naming
begin

text \<open>
  Contacts: \<open>libtransport/Buddy.cpp\<close> and \<open>LocalBuddy.cpp\<close> (one contact), \<open>RosterStorage.cpp\<close>
  (the queue of contacts to write to the database), \<open>RosterManager.cpp\<close> (the contact list of a
  user) and the gateway and server hooks \<open>XMPPRosterManager.cpp\<close> implements for it, with
  \<open>NetworkFactory::createBuddy\<close>.

  The contact list is a \<open>std::map<std::string, Buddy *>\<close> whose \<open>operator[]\<close> stores a null pointer
  for a name that is looked up and absent, so its values are \<open>buddy option\<close>. An operation that
  dereferences a null pointer is \<open>None\<close>.
\<close>

unbundle bit_operations_syntax

section \<open>State\<close>

datatype subscription = Ask | Both

record buddy =
  b_id :: int
  b_flags :: int
  b_subscription :: subscription
  b_jid :: jid
  b_presences :: "presence list"
  b_name :: string
  b_alias :: string
  b_groups :: "string list"
  b_statusMessage :: string
  b_iconHash :: string
  b_status :: int

record roster =
  r_buddies :: "(string, buddy option) smap"
  r_storage :: bool
  r_queue :: "(string, string) smap"
  r_storageTimer :: bool
  r_supportRemoteRoster :: bool
  r_RIETimer :: bool

text \<open>
  What the components above supply: the configuration, the user's address and state, the
  presences of the oracle, the frontend's raw-XML flag and \<open>boost::locale::to_lower\<close>.
\<close>

record renv =
  re_sw :: swiften
  re_cf :: settings
  re_userJID :: jid
  re_connected :: bool
  re_cacheMessages :: bool
  re_presences :: "presence list"
  re_rawxml :: bool
  re_low :: "string \<Rightarrow> string"

definition re_server :: "renv \<Rightarrow> bool" where
  "re_server e = inServerMode (re_cf e)"

section \<open>One contact\<close>

definition JID_DEFAULT_RESOURCE :: string where
  "JID_DEFAULT_RESOURCE = ''bot''"

definition getSafeName :: "renv \<Rightarrow> buddy \<Rightarrow> string" where
  "getSafeName e b =
     (if sw_valid (re_sw e) (b_jid b) then jid_node (b_jid b)
      else safe_name (re_sw e) (b_flags b) (b_name b))"

definition generateJID :: "renv \<Rightarrow> buddy \<Rightarrow> buddy" where
  "generateJID e b =
     (let b = b\<lparr>b_jid := jid_none\<rparr>
      in b\<lparr>b_jid := sw_jid (re_sw e) (getSafeName e b) (sw_str (re_sw e) (cf_jid (re_cf e)))
              (Some JID_DEFAULT_RESOURCE)\<rparr>)"

definition setFlags :: "renv \<Rightarrow> int \<Rightarrow> buddy \<Rightarrow> buddy" where
  "setFlags e flags b =
     (let b = b\<lparr>b_flags := flags\<rparr>
      in if getSafeName e b \<noteq> [] then generateJID e b else b)"

text \<open>\<open>getJID\<close>: the buddy with its JID generated if necessary; the JID is then \<^const>\<open>b_jid\<close>.\<close>

definition getJID :: "renv \<Rightarrow> buddy \<Rightarrow> buddy" where
  "getJID e b =
     (if \<not> sw_valid (re_sw e) (b_jid b) \<or> jid_node (b_jid b) = [] then generateJID e b else b)"

definition setBlocked :: "bool \<Rightarrow> buddy \<Rightarrow> buddy" where
  "setBlocked block b =
     b\<lparr>b_flags := (if block then b_flags b OR BUDDY_BLOCKED else b_flags b AND NOT BUDDY_BLOCKED)\<rparr>"

definition isBlocked :: "buddy \<Rightarrow> bool" where
  "isBlocked b = (b_flags b AND BUDDY_BLOCKED \<noteq> 0)"

definition isAvailable :: "buddy \<Rightarrow> bool" where
  "isAvailable b = (b_status b \<noteq> Show_None)"

definition new_LocalBuddy ::
  "renv \<Rightarrow> int \<Rightarrow> string \<Rightarrow> string \<Rightarrow> string list \<Rightarrow> int \<Rightarrow> buddy" where
  "new_LocalBuddy e i name alias groups flags =
     generateJID e \<lparr>b_id = i, b_flags = flags, b_subscription = Ask, b_jid = jid_none,
       b_presences = [], b_name = name, b_alias = alias, b_groups = groups, b_statusMessage = [],
       b_iconHash = [], b_status = Show_None\<rparr>"

definition isValid :: "renv \<Rightarrow> buddy \<Rightarrow> bool" where
  "isValid e b = (sw_valid (re_sw e) (b_jid b) \<and> CHR ''/'' \<notin> set (getSafeName e b))"

text \<open>Erase the first presence sent from a JID; replace the first one or append.\<close>

fun erase_from :: "jid \<Rightarrow> presence list \<Rightarrow> presence list" where
  "erase_from j [] = []"
| "erase_from j (p # ps) = (if pr_from p = j then ps else p # erase_from j ps)"

fun replace_from :: "presence \<Rightarrow> presence list \<Rightarrow> presence list" where
  "replace_from q [] = [q]"
| "replace_from q (p # ps) = (if pr_from p = pr_from q then q # ps else p # replace_from q ps)"

definition buddy_handleRawPresence :: "presence \<Rightarrow> buddy \<Rightarrow> buddy \<times> effect list" where
  "buddy_handleRawPresence p b =
     (b\<lparr>b_presences := erase_from (pr_from p) (b_presences b) @ [p]\<rparr>, [SendPresence p])"

definition status_presence :: "renv \<Rightarrow> buddy \<Rightarrow> presence" where
  "status_presence e b =
     (let p = (mk_presence (jid_bare (re_userJID e)) (b_jid b)
                 (if b_status b = Show_None then Unavailable else Available))
              \<lparr>pr_status := b_statusMessage b, pr_show := b_status b\<rparr>
      in if b_status b \<noteq> Show_None then pr_add_payload (VCardUpdateP (b_iconHash b)) p else p)"

definition generatePresenceStanzas :: "renv \<Rightarrow> buddy \<Rightarrow> buddy" where
  "generatePresenceStanzas e b =
     (let b = (if jid_node (b_jid b) = [] then generateJID e b else b)
      in if re_rawxml e then b\<lparr>b_presences := erase_from (b_jid b) (b_presences b)\<rparr>
         else b\<lparr>b_presences := replace_from (status_presence e b) (b_presences b)\<rparr>)"

definition sendPresence :: "renv \<Rightarrow> buddy \<Rightarrow> buddy \<times> effect list" where
  "sendPresence e b =
     (let b = generatePresenceStanzas e b in (b, map SendPresence (b_presences b)))"

definition setStatus :: "renv \<Rightarrow> int \<Rightarrow> string \<Rightarrow> buddy \<Rightarrow> buddy \<times> effect list" where
  "setStatus e status statusMessage b =
     (if b_status b \<noteq> status \<or> b_statusMessage b \<noteq> statusMessage
      then sendPresence e (b\<lparr>b_status := status, b_statusMessage := statusMessage\<rparr>)
      else (b, []))"

text \<open>
  \<open>setName\<close>: the saved old name is the new one, so the failure branch that restores it leaves the
  new name as well; a JID is never rejected by an exception here.
\<close>

definition setName :: "renv \<Rightarrow> string \<Rightarrow> buddy \<Rightarrow> buddy \<times> bool" where
  "setName e name b =
     (if name = b_name b then (b, True)
      else let b = generateJID e (b\<lparr>b_name := name\<rparr>) in (b, sw_valid (re_sw e) (b_jid b)))"

section \<open>The contact list\<close>

text \<open>\<open>getBuddy\<close>: \<open>m_buddies[name]\<close>, which leaves a null entry for an unknown name.\<close>

definition getBuddy :: "renv \<Rightarrow> string \<Rightarrow> roster \<Rightarrow> buddy option" where
  "getBuddy e name r = smap_get_or None (r_buddies r) (re_low e name)"

definition touchBuddy :: "renv \<Rightarrow> string \<Rightarrow> roster \<Rightarrow> roster" where
  "touchBuddy e name r =
     (case smap_get (r_buddies r) (re_low e name) of
        None \<Rightarrow> r\<lparr>r_buddies := smap_put (re_low e name) None (r_buddies r)\<rparr>
      | Some _ \<Rightarrow> r)"

text \<open>Write a changed contact object back.\<close>

definition writeBuddy :: "renv \<Rightarrow> buddy \<Rightarrow> roster \<Rightarrow> roster" where
  "writeBuddy e b r = r\<lparr>r_buddies := smap_put (re_low e (b_name b)) (Some b) (r_buddies r)\<rparr>"

definition roster_name :: "renv \<Rightarrow> roster \<Rightarrow> string \<Rightarrow> string option" where
  "roster_name e r name = map_option b_name (getBuddy e name r)"

text \<open>\<open>RosterStorage::storeBuddy\<close> behind \<open>RosterManager::storeBuddy\<close>.\<close>

definition storeBuddy :: "renv \<Rightarrow> buddy \<Rightarrow> roster \<Rightarrow> roster" where
  "storeBuddy e b r =
     (if r_storage r \<and> b_name b \<noteq> []
      then r\<lparr>r_queue := smap_put (b_name b) (re_low e (b_name b)) (r_queue r), r_storageTimer := True\<rparr>
      else r)"

definition buddy_info :: "buddy \<Rightarrow> buddyinfo" where
  "buddy_info b = \<lparr>bi_id = b_id b, bi_alias = b_alias b, bi_legacyName = b_name b,
     bi_subscription = (if b_subscription b = Ask then ''ask'' else ''both''),
     bi_groups = b_groups b, 
     bi_settings = [(''icon_hash'', empty_var\<lparr>sv_s := b_iconHash b, sv_type := TYPE_STRING\<rparr>)], bi_flags = b_flags b\<rparr>"

text \<open>
  \<open>RosterStorage::storeBuddies\<close>. \<open>ids\<close> is the identifier the database gives to a new contact;
  \<open>None\<close> is a queued contact that is no longer in the list.
\<close>

fun store_loop :: "(string \<Rightarrow> int) \<Rightarrow> (string \<times> string) list \<Rightarrow> (string, buddy option) smap
    \<Rightarrow> ((string, buddy option) smap \<times> effect list) option" where
  "store_loop ids [] bs = Some (bs, [])"
| "store_loop ids ((n, k) # q) bs =
     (case smap_get_or None bs k of
        None \<Rightarrow> None
      | Some b \<Rightarrow>
          (let (b', ef) = (if b_id b \<noteq> -1 then (b, DbUpdateBuddy (buddy_info b))
                           else (b\<lparr>b_id := ids (b_name b)\<rparr>, DbAddBuddy (buddy_info b)))
           in map_option (\<lambda>(bs, efs). (bs, ef # efs)) (store_loop ids q (smap_put k (Some b') bs))))"

definition storeBuddies :: "(string \<Rightarrow> int) \<Rightarrow> roster \<Rightarrow> (roster \<times> effect list) option" where
  "storeBuddies ids r =
     (if r_queue r = [] then Some (r, [])
      else map_option (\<lambda>(bs, efs). (r\<lparr>r_buddies := bs, r_queue := []\<rparr>, DbBegin # efs @ [DbCommit]))
             (store_loop ids (r_queue r) (r_buddies r)))"

section \<open>Hooks of the XMPP frontend\<close>

text \<open>The recipients of a roster push: every resource in server mode, the bare JID otherwise.\<close>

definition push_targets :: "renv \<Rightarrow> jid list" where
  "push_targets e =
     (if re_server e then map pr_from (re_presences e) else [jid_bare (re_userJID e)])"

definition sendBuddyRosterRemove :: "renv \<Rightarrow> buddy \<Rightarrow> effect list" where
  "sendBuddyRosterRemove e b =
     map (\<lambda>to. SendRosterRemove to (jid_bare (b_jid (getJID e b)))) (push_targets e)"

definition sendBuddyUnsubscribePresence :: "renv \<Rightarrow> buddy \<Rightarrow> effect list" where
  "sendBuddyUnsubscribePresence e b =
     [SendPresence (mk_presence (re_userJID e) (b_jid (getJID e b)) Unsubscribe),
      SendPresence (mk_presence (re_userJID e) (b_jid (getJID e b)) Unsubscribed)]"

definition sendBuddySubscribePresence :: "renv \<Rightarrow> buddy \<Rightarrow> effect list" where
  "sendBuddySubscribePresence e b =
     (let p = mk_presence (re_userJID e) (jid_bare (b_jid (getJID e b))) Subscribe
      in [SendPresence (if b_alias b \<noteq> [] then pr_add_payload (NicknameP (b_alias b)) p else p)])"

definition doRemoveBuddy :: "renv \<Rightarrow> buddy \<Rightarrow> roster \<Rightarrow> effect list" where
  "doRemoveBuddy e b r =
     (if re_server e \<or> r_supportRemoteRoster r then sendBuddyRosterRemove e b
      else sendBuddyUnsubscribePresence e b)"

definition sendBuddyRosterPush :: "renv \<Rightarrow> buddy \<Rightarrow> roster \<Rightarrow> buddy \<times> roster \<times> effect list" where
  "sendBuddyRosterPush e b r =
     (if re_server e \<and> (\<not> re_connected e \<or> re_cacheMessages e) then (b, r, [])
      else let b = getJID e b;
               out = map (\<lambda>to. SendRosterPush to (jid_bare (b_jid b)) (b_alias b) (b_groups b)) (push_targets e)
           in if b_subscription b \<noteq> Both
              then (b\<lparr>b_subscription := Both\<rparr>, storeBuddy e b r, out)
              else (b, r, out))"

definition doAddBuddy :: "renv \<Rightarrow> buddy \<Rightarrow> roster \<Rightarrow> buddy \<times> roster \<times> effect list" where
  "doAddBuddy e b r =
     (if re_server e then sendBuddyRosterPush e b r
      else if b_subscription b = Both then (b, r, [])
      else if r_supportRemoteRoster r then sendBuddyRosterPush e b r
      else (b, r\<lparr>r_RIETimer := True\<rparr>, []))"

definition doUpdateBuddy :: "renv \<Rightarrow> buddy \<Rightarrow> roster \<Rightarrow> buddy \<times> roster \<times> effect list" where
  "doUpdateBuddy e b r =
     (if re_server e \<or> r_supportRemoteRoster r then sendBuddyRosterPush e b r else (b, r, []))"

section \<open>Operations of the contact list\<close>

definition setBuddy :: "renv \<Rightarrow> buddy \<Rightarrow> roster \<Rightarrow> roster \<times> effect list" where
  "setBuddy e b r =
     (let (b, r, out) = doAddBuddy e b (writeBuddy e b r)
      in (storeBuddy e b (writeBuddy e b r), out))"

definition unsetBuddy :: "renv \<Rightarrow> buddy \<Rightarrow> roster \<Rightarrow> roster" where
  "unsetBuddy e b r =
     r\<lparr>r_buddies := smap_del (re_low e (b_name b)) (r_buddies r),
       r_queue := (if r_storage r then smap_del (b_name b) (r_queue r) else r_queue r)\<rparr>"

definition removeBuddy :: "renv \<Rightarrow> string \<Rightarrow> roster \<Rightarrow> roster \<times> effect list" where
  "removeBuddy e name r =
     (case getBuddy e (re_low e name) r of
        None \<Rightarrow> (touchBuddy e (re_low e name) r, [])
      | Some b \<Rightarrow>
          (unsetBuddy e b r,
           doRemoveBuddy e b r @ (if r_storage r \<and> b_id b \<noteq> -1 then [DbRemoveBuddy (b_id b)] else [])))"

definition setIconHash :: "renv \<Rightarrow> string \<Rightarrow> buddy \<Rightarrow> roster \<Rightarrow> buddy \<times> roster \<times> effect list" where
  "setIconHash e h b r =
     (if b_iconHash b \<noteq> h
      then let b = b\<lparr>b_iconHash := h\<rparr>; r = storeBuddy e b r; (b, out) = sendPresence e b in (b, r, out)
      else (b, r, []))"

definition setAlias :: "renv \<Rightarrow> string \<Rightarrow> buddy \<Rightarrow> roster \<Rightarrow> buddy \<times> roster \<times> effect list" where
  "setAlias e alias b r =
     (if b_alias b \<noteq> alias
      then let (b, r, out) = doUpdateBuddy e (b\<lparr>b_alias := alias\<rparr>) r in (b, storeBuddy e b r, out)
      else (b, r, []))"

fun groups_differ :: "string list \<Rightarrow> string list \<Rightarrow> bool" where
  "groups_differ (g # gs) (h # hs) = (g \<noteq> h \<or> groups_differ gs hs)"
| "groups_differ _ _ = False"

definition setGroups :: "renv \<Rightarrow> string list \<Rightarrow> buddy \<Rightarrow> roster \<Rightarrow> buddy \<times> roster \<times> effect list" where
  "setGroups e groups b r =
     (let changed = (length (b_groups b) \<noteq> length groups \<or> groups_differ (b_groups b) groups);
          b = b\<lparr>b_groups := groups\<rparr>
      in if changed
         then let (b, r, out) = doUpdateBuddy e b r in (b, storeBuddy e b r, out)
         else (b, r, []))"

definition sendBuddyPresences :: "renv \<Rightarrow> jid \<Rightarrow> buddy \<Rightarrow> buddy \<times> effect list" where
  "sendBuddyPresences e to b =
     (let b = generatePresenceStanzas e b; ps = map (\<lambda>p. p\<lparr>pr_to := to\<rparr>) (b_presences b)
      in (b\<lparr>b_presences := ps\<rparr>, map SendPresence ps))"

fun presences_loop ::
  "(buddy \<Rightarrow> buddy \<times> effect list) \<Rightarrow> (string, buddy option) smap
   \<Rightarrow> (string, buddy option) smap \<times> effect list" where
  "presences_loop f [] = ([], [])"
| "presences_loop f ((k, None) # bs) = (let (bs, out) = presences_loop f bs in ((k, None) # bs, out))"
| "presences_loop f ((k, Some b) # bs) =
     (let (b, o1) = (if isAvailable b then f b else (b, [])); (bs, o2) = presences_loop f bs
      in ((k, Some b) # bs, o1 @ o2))"

definition sendCurrentPresences :: "renv \<Rightarrow> jid \<Rightarrow> roster \<Rightarrow> roster \<times> effect list" where
  "sendCurrentPresences e to r =
     (let (bs, out) = presences_loop (sendBuddyPresences e to) (r_buddies r)
      in (r\<lparr>r_buddies := bs\<rparr>, out))"

definition unavailable_presences :: "renv \<Rightarrow> jid \<Rightarrow> buddy \<Rightarrow> buddy \<times> effect list" where
  "unavailable_presences e to b =
     (let b = generatePresenceStanzas e b; ps = map (\<lambda>p. p\<lparr>pr_to := to\<rparr>) (b_presences b)
      in (b\<lparr>b_presences := ps\<rparr>, map (\<lambda>p. SendPresence (p\<lparr>pr_type := Unavailable\<rparr>)) ps))"

definition sendUnavailablePresences :: "renv \<Rightarrow> jid \<Rightarrow> roster \<Rightarrow> roster \<times> effect list" where
  "sendUnavailablePresences e to r =
     (let (bs, out) = presences_loop (unavailable_presences e to) (r_buddies r)
      in (r\<lparr>r_buddies := bs\<rparr>,
          out @ [SendPresence (mk_presence to (cf_jid (re_cf e)) Unavailable)]))"

text \<open>\<open>Buddy::JIDToBuddy\<close> and \<open>sendCurrentPresence\<close>.\<close>

definition JIDToBuddy :: "renv \<Rightarrow> jid \<Rightarrow> roster \<Rightarrow> buddy option" where
  "JIDToBuddy e j r = getBuddy e (node_to_legacy (re_sw e) (jid_node j)) r"

definition sendCurrentPresence :: "renv \<Rightarrow> jid \<Rightarrow> jid \<Rightarrow> roster \<Rightarrow> roster \<times> effect list" where
  "sendCurrentPresence e from to r =
     (case JIDToBuddy e from r of
        Some b \<Rightarrow> (let (b, out) = sendBuddyPresences e to b in (writeBuddy e b r, out))
      | None \<Rightarrow> (touchBuddy e (node_to_legacy (re_sw e) (jid_node from)) r,
                 [SendPresence (mk_presence to from Unavailable)]))"

text \<open>\<open>NetworkFactory::createBuddy\<close> of \<open>NetworkPluginServer.cpp\<close>.\<close>

definition createBuddy :: "renv \<Rightarrow> buddyinfo \<Rightarrow> buddy option" where
  "createBuddy e bi =
     (let b = new_LocalBuddy e (bi_id bi) (bi_legacyName bi) (bi_alias bi) (bi_groups bi) (bi_flags bi)
      in if \<not> isValid e b then None
         else let b = b\<lparr>b_subscription := (if bi_subscription bi = ''both'' then Both else Ask)\<rparr>
              in Some (case smap_get (bi_settings bi) ''icon_hash'' of
                         None \<Rightarrow> b
                       | Some v \<Rightarrow> b\<lparr>b_iconHash := sv_s v\<rparr>))"

text \<open>
  \<open>handleSubscription\<close>. \<open>cur\<close> is the contact the request is about, the one of the list or a
  temporary one; \<open>resp\<close> is the type of the answer, \<open>Unavailable\<close> for none.
\<close>

definition on_added :: "buddy \<Rightarrow> effect" where
  "on_added b = OnBuddyAdded (b_name b) (b_alias b) (b_groups b)"

definition on_removed :: "buddy \<Rightarrow> effect" where
  "on_removed b = OnBuddyRemoved (b_name b) (b_alias b) (b_groups b)"

text \<open>The temporary contact for a name that is not in the list (\<open>libtransport/RosterManager.cpp\<close>).\<close>

definition temporary_buddy :: "renv \<Rightarrow> string \<Rightarrow> jid \<Rightarrow> buddy option" where
  "temporary_buddy e legacyName to =
     createBuddy e \<lparr>bi_id = -1, bi_alias = [], bi_legacyName = legacyName,
       bi_subscription = ''both'', bi_groups = [], bi_settings = [],
       bi_flags = buddyFlagsFromJID (re_sw e) to\<rparr>"

definition subscription_server ::
  "renv \<Rightarrow> presence \<Rightarrow> bool \<Rightarrow> buddy option \<Rightarrow> roster \<Rightarrow> (roster \<times> effect list \<times> ptype) option" where
  "subscription_server e p isNew cur r =
     (case pr_type p of
        Subscribe \<Rightarrow>
          (case cur of
             None \<Rightarrow> None
           | Some b \<Rightarrow>
               (let (r, out) = (if isNew then setBuddy e b r else (r, []))
                in Some (r, out @ [on_added b], Subscribed)))
      | Subscribed \<Rightarrow>
          (case cur of
             None \<Rightarrow> Some (r, [], Unavailable)
           | Some b \<Rightarrow> Some (r, if isNew then [] else [on_added b], Unavailable))
      | Unsubscribe \<Rightarrow>
          (case cur of
             None \<Rightarrow> None
           | Some b \<Rightarrow>
               (let (r, out) = (if isNew then (r, []) else removeBuddy e (b_name b) r)
                in Some (r, on_removed b # out, Unsubscribed)))
      | _ \<Rightarrow> Some (r, [], Unavailable))"

definition subscription_gateway ::
  "renv \<Rightarrow> presence \<Rightarrow> bool \<Rightarrow> buddy option \<Rightarrow> roster \<Rightarrow> (roster \<times> effect list \<times> ptype) option" where
  "subscription_gateway e p isNew cur r =
     (let t = pr_type p in
      if t = Subscribe \<or> t = Subscribed then
        (case cur of
           None \<Rightarrow> None
         | Some b \<Rightarrow>
             (let (r, o1) = (if isNew then setBuddy e b r else (r, []));
                  b = (case getBuddy e (b_name b) r of None \<Rightarrow> b | Some b' \<Rightarrow> b');
                  (b, r) = (if \<not> isNew \<and> b_subscription b \<noteq> Both
                            then let b = b\<lparr>b_subscription := Both\<rparr> in (b, storeBuddy e b r)
                            else (b, r));
                  (b', o2) = sendBuddyPresences e (pr_from p) b
              in Some (writeBuddy e b' r, o1 @ [on_added b] @ o2,
                       if t = Subscribe then Subscribed else Unavailable)))
      else if t = Unsubscribe then
        (case cur of
           None \<Rightarrow> None
         | Some b \<Rightarrow>
             (let o1 = (if isNew \<or> b_subscription b = Ask \<or> cf_enable_remove_buddy (re_cf e)
                        then [on_removed b] else []);
                  (r, o2) = (if isNew then (r, []) else removeBuddy e (b_name b) r)
              in Some (r, o1 @ o2, Unsubscribed)))
      else if t = Unsubscribed then
        (case cur of
           None \<Rightarrow> None
         | Some b \<Rightarrow>
             if b_subscription b = Ask
             then (let (r, out) = removeBuddy e (b_name b) r in Some (r, on_removed b # out, Unsubscribe))
             else Some (r, [], Unavailable))
      else Some (r, [], Unavailable))"

definition subscription_answer :: "renv \<Rightarrow> presence \<Rightarrow> ptype \<Rightarrow> effect list" where
  "subscription_answer e p resp =
     (let answer = (\<lambda>t. SendPresence (mk_presence (jid_bare (pr_from p)) (jid_bare (pr_to p)) t))
      in (if resp \<noteq> Unavailable then [answer resp] else [])
         @ (if re_server e then []
            else if resp = Unsubscribed then [answer Unsubscribe]
            else if resp = Subscribed then [answer Subscribe]
            else []))"

definition handleSubscription :: "renv \<Rightarrow> presence \<Rightarrow> roster \<Rightarrow> (roster \<times> effect list) option" where
  "handleSubscription e p r =
     (let name0 = node_to_legacy (re_sw e) (jid_node (pr_to p));
          r = touchBuddy e name0 r;
          legacyName = JIDToLegacyName (re_sw e) (roster_name e r) (pr_to p)
      in if legacyName = [] then Some (r, [])
         else
          let known = getBuddy e legacyName r;
              r = touchBuddy e legacyName r;
              isNew = (known = None);
              cur = (if isNew then temporary_buddy e legacyName (pr_to p) else known)
          in case (if re_server e then subscription_server e p isNew cur r
                   else subscription_gateway e p isNew cur r) of
               None \<Rightarrow> None
             | Some (r, out, resp) \<Rightarrow> Some (r, out @ subscription_answer e p resp))"

text \<open>\<open>setStorageBackend\<close>: load the stored contacts of the user.\<close>

fun load_loop :: "renv \<Rightarrow> buddyinfo list \<Rightarrow> (string, buddy option) smap \<Rightarrow> (string, buddy option) smap" where
  "load_loop e [] bs = bs"
| "load_loop e (bi # bis) bs =
     load_loop e bis
       (case createBuddy e bi of
          None \<Rightarrow> bs
        | Some b \<Rightarrow> smap_put (re_low e (b_name b)) (Some b) bs)"

definition setStorageBackend :: "renv \<Rightarrow> buddyinfo list option \<Rightarrow> roster \<Rightarrow> roster" where
  "setStorageBackend e db r =
     (case db of
        None \<Rightarrow> r
      | Some stored \<Rightarrow>
          if r_storage r then r
          else r\<lparr>r_buddies := load_loop e stored (r_buddies r), r_storage := True\<rparr>)"

text \<open>\<open>generateRosterPayload\<close>: address, name and groups of every contact.\<close>

definition generateRosterPayload :: "renv \<Rightarrow> roster \<Rightarrow> (jid \<times> string \<times> string list) list" where
  "generateRosterPayload e r =
     List.map_filter (\<lambda>(k, ob). map_option (\<lambda>b. (jid_bare (b_jid (getJID e b)), b_alias b, b_groups b)) ob)
       (r_buddies r)"

text \<open>
  \<open>XMPPRosterManager::handleRemoteRosterResponse\<close>: the answer to the request for the remote
  roster. When that roster is empty every entry is pushed, the null ones too: \<open>None\<close>.
\<close>

fun push_all :: "renv \<Rightarrow> (string \<times> buddy option) list \<Rightarrow> roster \<Rightarrow> (roster \<times> effect list) option" where
  "push_all e [] r = Some (r, [])"
| "push_all e ((k, None) # bs) r = None"
| "push_all e ((k, Some b) # bs) r =
     (let (b, r, o1) = sendBuddyRosterPush e b r
      in map_option (\<lambda>(r, o2). (r, o1 @ o2)) (push_all e bs (writeBuddy e b r)))"

definition handleRemoteRosterResponse ::
  "renv \<Rightarrow> bool \<Rightarrow> bool \<Rightarrow> roster \<Rightarrow> (roster \<times> effect list) option" where
  "handleRemoteRosterResponse e err remoteEmpty r =
     (if err then Some (r\<lparr>r_supportRemoteRoster := False\<rparr>, [])
      else let r = r\<lparr>r_supportRemoteRoster := True\<rparr>
           in if r_buddies r \<noteq> [] \<and> remoteEmpty then push_all e (r_buddies r) r else Some (r, []))"

text \<open>\<open>sendRIE\<close> when no resource supports roster exchange: plain subscription requests.\<close>

definition sendRIE_fallback :: "renv \<Rightarrow> roster \<Rightarrow> roster \<times> effect list" where
  "sendRIE_fallback e r =
     (r\<lparr>r_RIETimer := False\<rparr>,
      concat (map (\<lambda>(k, ob). case ob of None \<Rightarrow> [] | Some b \<Rightarrow> sendBuddySubscribePresence e b) (r_buddies r)))"

text \<open>\<open>handleBuddyPayload\<close> of \<open>NetworkPluginServer.cpp\<close>; \<open>fix\<close> is \<open>utf8::replace_invalid\<close>.\<close>

definition handleBuddyPayload ::
  "renv \<Rightarrow> (string \<Rightarrow> string) \<Rightarrow> string \<Rightarrow> string list \<Rightarrow> int \<Rightarrow> string \<Rightarrow> string \<Rightarrow> bool
   \<Rightarrow> buddy \<Rightarrow> roster \<Rightarrow> roster \<times> effect list" where
  "handleBuddyPayload e fixu alias groups status statusMessage iconhash blocked b r =
     (let (b, r, o1) = (if alias \<noteq> [] then setAlias e alias b r else (b, r, []));
          gs = map fixu groups;
          (b, r, o2) = (if gs \<noteq> [] then setGroups e gs b r else (b, r, []));
          (b, o3) = setStatus e status statusMessage b;
          (b, r, o4) = setIconHash e iconhash b r;
          b = setBlocked blocked b
      in (writeBuddy e b r, o1 @ o2 @ o3 @ o4))"

section \<open>Invariant\<close>

text \<open>
  Contacts are filed under the lower-cased name, and every name in the database queue belongs to
  a contact of the list.
\<close>

definition bq_ok :: "(string \<Rightarrow> string) \<Rightarrow> (string \<rightharpoonup> buddy option) \<Rightarrow> (string \<rightharpoonup> string) \<Rightarrow> bool" where
  "bq_ok low B Q \<longleftrightarrow> (\<forall>k b. B k = Some (Some b) \<longrightarrow> k = low (b_name b))
     \<and> (\<forall>n k. Q n = Some k \<longrightarrow> k = low n \<and> (\<exists>b. B k = Some (Some b) \<and> b_name b = n))"

definition roster_ok :: "renv \<Rightarrow> roster \<Rightarrow> bool" where
  "roster_ok e r \<longleftrightarrow> smap_ok (r_buddies r) \<and> smap_ok (r_queue r)
     \<and> bq_ok (re_low e) (smap_get (r_buddies r)) (smap_get (r_queue r))
     \<and> (\<not> r_storage r \<longrightarrow> r_queue r = [])"

text \<open>No other contact occupies the place of \<open>b\<close>.\<close>

definition slot_free :: "renv \<Rightarrow> buddy \<Rightarrow> roster \<Rightarrow> bool" where
  "slot_free e b r \<longleftrightarrow> (\<forall>b0. getBuddy e (b_name b) r = Some b0 \<longrightarrow> b_name b0 = b_name b)"

section \<open>Facts\<close>

lemma getBuddy_Some: "getBuddy e n r = Some b \<longleftrightarrow> smap_get (r_buddies r) (re_low e n) = Some (Some b)"
  by (auto simp: getBuddy_def smap_get_or_def split: option.splits)

lemma generateJID_sel [simp]:
  "b_name (generateJID e b) = b_name b" "b_id (generateJID e b) = b_id b"
  "b_subscription (generateJID e b) = b_subscription b" "b_alias (generateJID e b) = b_alias b"
  "b_groups (generateJID e b) = b_groups b" "b_status (generateJID e b) = b_status b"
  "b_flags (generateJID e b) = b_flags b"
  by (simp_all add: generateJID_def Let_def)

lemma getJID_sel [simp]:
  "b_name (getJID e b) = b_name b" "b_id (getJID e b) = b_id b"
  "b_subscription (getJID e b) = b_subscription b" "b_status (getJID e b) = b_status b"
  by (simp_all add: getJID_def)

lemma generatePresenceStanzas_sel [simp]:
  "b_name (generatePresenceStanzas e b) = b_name b" "b_id (generatePresenceStanzas e b) = b_id b"
  "b_subscription (generatePresenceStanzas e b) = b_subscription b"
  "b_status (generatePresenceStanzas e b) = b_status b"
  by (simp_all add: generatePresenceStanzas_def Let_def)

lemma storeBuddy_buddies [simp]: "r_buddies (storeBuddy e b r) = r_buddies r"
  by (simp add: storeBuddy_def)

lemma writeBuddy_sel [simp]:
  "r_queue (writeBuddy e b r) = r_queue r" "r_storage (writeBuddy e b r) = r_storage r"
  by (simp_all add: writeBuddy_def)

lemma getBuddy_write [simp]:
  "getBuddy e n (writeBuddy e b r) = (if re_low e n = re_low e (b_name b) then Some b else getBuddy e n r)"
  by (simp add: getBuddy_def writeBuddy_def smap_get_or_def smap_simps)

lemma getBuddy_store [simp]: "getBuddy e n (storeBuddy e b r) = getBuddy e n r"
  by (simp add: getBuddy_def)

lemma getBuddy_touch [simp]: "getBuddy e n (touchBuddy e m r) = getBuddy e n r"
  by (auto simp: getBuddy_def touchBuddy_def smap_get_or_def smap_simps split: option.splits)

lemma sendBuddyRosterPush_frame:
  assumes "sendBuddyRosterPush e b r = (b', r', out)"
  shows "b_name b' = b_name b" "r' = r \<or> r' = storeBuddy e b r"
    "b_id b' = b_id b" "b_subscription b = Both \<Longrightarrow> b_subscription b' = Both"
  using assms by (auto simp: sendBuddyRosterPush_def Let_def storeBuddy_def split: if_splits)

lemma doAddBuddy_frame:
  assumes "doAddBuddy e b r = (b', r', out)"
  shows "b_name b' = b_name b \<and> b_id b' = b_id b
    \<and> (b_subscription b = Both \<longrightarrow> b_subscription b' = Both)
    \<and> (r' = r \<or> r' = storeBuddy e b r \<or> r' = r\<lparr>r_RIETimer := True\<rparr>)"
  using assms sendBuddyRosterPush_frame [of e b r b' r' out]
  by (auto simp: doAddBuddy_def split: if_splits)

lemma getBuddy_timer [simp]: "getBuddy e n (r\<lparr>r_RIETimer := t\<rparr>) = getBuddy e n r"
  by (simp add: getBuddy_def)

lemma roster_ok_timer [simp]: "roster_ok e (r\<lparr>r_RIETimer := t\<rparr>) = roster_ok e r"
  by (simp add: roster_ok_def)

lemma bq_put:
  assumes "bq_ok low B Q" and "\<And>b0. B (low (b_name b)) = Some (Some b0) \<Longrightarrow> b_name b0 = b_name b"
  shows "bq_ok low (B(low (b_name b) \<mapsto> Some b)) Q"
proof -
  have "k = low n \<and> (\<exists>c. (B(low (b_name b) \<mapsto> Some b)) k = Some (Some c) \<and> b_name c = n)"
    if "Q n = Some k" for n k
  proof -
    from that assms(1) obtain b0 where "k = low n" "B k = Some (Some b0)" "b_name b0 = n"
      unfolding bq_ok_def by blast
    then show ?thesis using assms(2) [of b0] by (cases "k = low (b_name b)") auto
  qed
  moreover have "k = low (b_name c)" if "(B(low (b_name b) \<mapsto> Some b)) k = Some (Some c)" for k c
    using that assms(1) unfolding bq_ok_def by (cases "k = low (b_name b)") auto
  ultimately show ?thesis unfolding bq_ok_def by blast
qed

lemma bq_touch: "bq_ok low B Q \<Longrightarrow> B k = None \<Longrightarrow> bq_ok low (B(k \<mapsto> None)) Q"
  unfolding bq_ok_def by (auto, metis option.distinct(1))

lemma bq_enqueue:
  "bq_ok low B Q \<Longrightarrow> B (low n) = Some (Some b) \<Longrightarrow> b_name b = n \<Longrightarrow> bq_ok low B (Q(n \<mapsto> low n))"
  unfolding bq_ok_def by auto

lemma bq_del:
  assumes "bq_ok low B Q" and "B (low (b_name b)) = Some (Some b)"
  shows "bq_ok low (B(low (b_name b) := None)) (Q(b_name b := None))"
proof -
  have "k = low n \<and> (\<exists>c. (B(low (b_name b) := None)) k = Some (Some c) \<and> b_name c = n)"
    if "(Q(b_name b := None)) n = Some k" for n k
  proof -
    from that have n: "n \<noteq> b_name b" "Q n = Some k" by (auto split: if_splits)
    with assms(1) obtain b0 where b0: "k = low n" "B k = Some (Some b0)" "b_name b0 = n"
      unfolding bq_ok_def by blast
    have "k \<noteq> low (b_name b)"
    proof
      assume "k = low (b_name b)"
      with b0(2) assms(2) have "b0 = b" by simp
      with b0(3) n(1) show False by simp
    qed
    with b0 show ?thesis by (metis fun_upd_apply)
  qed
  moreover have "k = low (b_name c)" if "(B(low (b_name b) := None)) k = Some (Some c)" for k c
  proof -
    from that have "B k = Some (Some c)" by (simp split: if_splits)
    with assms(1) show ?thesis unfolding bq_ok_def by blast
  qed
  ultimately show ?thesis unfolding bq_ok_def by blast
qed

lemma roster_ok_write:
  assumes "roster_ok e r" and "slot_free e b r"
  shows "roster_ok e (writeBuddy e b r)"
  using assms
  by (auto simp: roster_ok_def slot_free_def getBuddy_Some writeBuddy_def smap_simps smap_ok_put
      intro!: bq_put)

lemma roster_ok_touch [inv_intros]: "roster_ok e r \<Longrightarrow> roster_ok e (touchBuddy e n r)"
  by (auto simp: roster_ok_def touchBuddy_def smap_simps smap_ok_put split: option.splits
      intro: bq_touch)

lemma roster_ok_store:
  assumes "roster_ok e r" and "getBuddy e (b_name b) r = Some b0" and "b_name b0 = b_name b"
  shows "roster_ok e (storeBuddy e b r)"
  using assms
  by (auto simp: roster_ok_def getBuddy_Some storeBuddy_def smap_simps smap_ok_put
      intro: bq_enqueue)

lemma roster_ok_unset:
  assumes "roster_ok e r" and "getBuddy e (b_name b) r = Some b"
  shows "roster_ok e (unsetBuddy e b r)"
proof (cases "r_storage r")
  case True
  with assms show ?thesis
    by (auto simp: roster_ok_def getBuddy_Some unsetBuddy_def smap_simps smap_ok_del intro: bq_del)
next
  case False
  with assms have "r_queue r = []" by (simp add: roster_ok_def)
  with False assms bq_del [of "re_low e" "smap_get (r_buddies r)" "smap_get []" b] show ?thesis
    by (simp add: roster_ok_def getBuddy_Some unsetBuddy_def smap_simps smap_ok_del fun_upd_idem)
qed

lemma storeBuddy_storage [simp]: "r_storage (storeBuddy e b r) = r_storage r"
  by (simp add: storeBuddy_def)

lemma setBuddy_roster:
  assumes "setBuddy e b r = (r', out)"
  shows "\<exists>b'. b_name b' = b_name b \<and> b_id b' = b_id b
    \<and> (b_subscription b = Both \<longrightarrow> b_subscription b' = Both)
    \<and> (\<forall>n. getBuddy e n r' = (if re_low e n = re_low e (b_name b) then Some b' else getBuddy e n r))
    \<and> r_storage r' = r_storage r"
proof -
  obtain b' r1 out1 where d: "doAddBuddy e b (writeBuddy e b r) = (b', r1, out1)"
    by (cases "doAddBuddy e b (writeBuddy e b r)") auto
  have r': "r' = storeBuddy e b' (writeBuddy e b' r1)"
    using assms d by (simp add: setBuddy_def)
  have g: "getBuddy e n r1 = getBuddy e n (writeBuddy e b r)" "r_storage r1 = r_storage r" for n
    using doAddBuddy_frame [OF d] by (elim conjE disjE; simp)+
  show ?thesis
    using doAddBuddy_frame [OF d] by (intro exI [of _ b']) (simp add: r' g)
qed

lemma roster_ok_setBuddy:
  assumes "roster_ok e r" and "slot_free e b r"
  shows "roster_ok e (fst (setBuddy e b r))"
proof -
  obtain b' r1 out1 where d: "doAddBuddy e b (writeBuddy e b r) = (b', r1, out1)"
    by (cases "doAddBuddy e b (writeBuddy e b r)") auto
  have w: "roster_ok e (writeBuddy e b r)" by (rule roster_ok_write) fact+
  have st: "roster_ok e (storeBuddy e b (writeBuddy e b r))"
    by (rule roster_ok_store [OF w, of _ b]) simp_all
  consider "r1 = writeBuddy e b r" | "r1 = storeBuddy e b (writeBuddy e b r)"
    | "r1 = (writeBuddy e b r)\<lparr>r_RIETimer := True\<rparr>"
    using doAddBuddy_frame [OF d] by blast
  then have g: "getBuddy e (b_name b) r1 = Some b" and ok: "roster_ok e r1"
    by (cases; simp add: w st)+
  have n: "b_name b' = b_name b" using doAddBuddy_frame [OF d] by simp
  have ok': "roster_ok e (writeBuddy e b' r1)"
    using ok g n by (intro roster_ok_write) (simp_all add: slot_free_def)
  have "roster_ok e (storeBuddy e b' (writeBuddy e b' r1))"
    by (rule roster_ok_store [OF ok', of _ b']) simp_all
  then show ?thesis by (simp add: setBuddy_def d)
qed

lemma roster_ok_removeBuddy:
  assumes "roster_ok e r" and low: "\<And>n. re_low e (re_low e n) = re_low e n"
  shows "roster_ok e (fst (removeBuddy e n r))"
proof (cases "getBuddy e (re_low e n) r")
  case None
  with assms show ?thesis by (simp add: removeBuddy_def roster_ok_touch)
next
  case (Some b)
  then have "smap_get (r_buddies r) (re_low e n) = Some (Some b)"
    by (simp add: getBuddy_Some low)
  then have "re_low e n = re_low e (b_name b)"
    using assms(1) unfolding roster_ok_def bq_ok_def by blast
  with Some have "getBuddy e (b_name b) r = Some b"
    by (simp add: getBuddy_def low)
  with assms(1) have "roster_ok e (unsetBuddy e b r)" by (rule roster_ok_unset)
  with Some show ?thesis by (simp add: removeBuddy_def)
qed

section \<open>The contact list as an interface\<close>

locale contact_list =
  fixes find_buddy :: "'r \<Rightarrow> string \<Rightarrow> buddy option"
    and add :: "buddy \<Rightarrow> 'r \<Rightarrow> 'r"
    and drop :: "buddy \<Rightarrow> 'r \<Rightarrow> 'r"
    and key :: "string \<Rightarrow> string"
  assumes find_key: "key n = key m \<Longrightarrow> find_buddy r n = find_buddy r m"
    and find_add: "\<exists>b'. find_buddy (add b r) (b_name b) = Some b' \<and> b_name b' = b_name b"
    and find_add_other: "key n \<noteq> key (b_name b) \<Longrightarrow> find_buddy (add b r) n = find_buddy r n"
    and find_drop: "find_buddy (drop b r) n = (if key n = key (b_name b) then None else find_buddy r n)"
begin

lemma add_then_find: "key n = key (b_name b) \<Longrightarrow> find_buddy (add b r) n \<noteq> None"
  using find_add [of b r] find_key [of n "b_name b" "add b r"] by auto

lemma drop_undoes_add:
  "find_buddy r (b_name b) = None \<Longrightarrow> find_buddy (drop b (add b r)) n = find_buddy r n"
  by (cases "key n = key (b_name b)") (simp_all add: find_drop find_add_other, metis find_key)

end

lemma getBuddy_unset: "getBuddy e n (unsetBuddy e b r) =
    (if re_low e n = re_low e (b_name b) then None else getBuddy e n r)"
  by (simp add: getBuddy_def unsetBuddy_def smap_get_or_def smap_simps)

lemma getBuddy_setBuddy:
  "\<exists>b'. b_name b' = b_name b \<and> b_id b' = b_id b \<and> (b_subscription b = Both \<longrightarrow> b_subscription b' = Both)
    \<and> (\<forall>n. getBuddy e n (fst (setBuddy e b r))
          = (if re_low e n = re_low e (b_name b) then Some b' else getBuddy e n r))"
  using setBuddy_roster [of e b r "fst (setBuddy e b r)" "snd (setBuddy e b r)"] by auto

interpretation cl: contact_list "\<lambda>r n. getBuddy e n r" "\<lambda>b r. fst (setBuddy e b r)" "unsetBuddy e" "re_low e"
  for e
proof unfold_locales
  fix n m and r :: roster assume "re_low e n = re_low e m"
  then show "getBuddy e n r = getBuddy e m r" by (simp add: getBuddy_def)
next
  fix b :: buddy and r :: roster
  show "\<exists>b'. getBuddy e (b_name b) (fst (setBuddy e b r)) = Some b' \<and> b_name b' = b_name b"
    using getBuddy_setBuddy [of b e r] by auto
next
  fix n and b :: buddy and r :: roster assume "re_low e n \<noteq> re_low e (b_name b)"
  then show "getBuddy e n (fst (setBuddy e b r)) = getBuddy e n r"
    using getBuddy_setBuddy [of b e r] by auto
next
  fix b :: buddy and r :: roster and n
  show "getBuddy e n (unsetBuddy e b r) = (if re_low e n = re_low e (b_name b) then None else getBuddy e n r)"
    by (rule getBuddy_unset)
qed

section \<open>Writing contacts to the database\<close>

definition stored :: "(string \<Rightarrow> int) \<Rightarrow> buddy \<Rightarrow> buddy" where
  "stored ids b = (if b_id b \<noteq> -1 then b else b\<lparr>b_id := ids (b_name b)\<rparr>)"

lemma stored_stored: "\<forall>n. ids n \<noteq> -1 \<Longrightarrow> stored ids (stored ids b) = stored ids b"
  by (simp add: stored_def)

lemma store_loop_total:
  assumes "\<forall>k \<in> snd ` set q. \<exists>b. smap_get bs k = Some (Some b)" and "\<forall>n. ids n \<noteq> -1"
  shows "\<exists>bs' efs. store_loop ids q bs = Some (bs', efs) \<and> length efs = length q
    \<and> (smap_ok bs \<longrightarrow> smap_ok bs')
    \<and> smap_get bs' = (\<lambda>k. if k \<in> snd ` set q then map_option (map_option (stored ids)) (smap_get bs k)
                          else smap_get bs k)"
  using assms(1)
proof (induction q arbitrary: bs)
  case Nil
  then show ?case by simp
next
  case (Cons x q)
  obtain n k where x: "x = (n, k)" by force
  from Cons.prems obtain b where b: "smap_get bs k = Some (Some b)" by (auto simp: x)
  define bs1 where "bs1 = smap_put k (Some (stored ids b)) bs"
  have "\<forall>k' \<in> snd ` set q. \<exists>b. smap_get bs1 k' = Some (Some b)"
    using Cons.prems by (auto simp: bs1_def smap_simps)
  from Cons.IH [OF this] obtain bs' efs where ih: "store_loop ids q bs1 = Some (bs', efs)"
    "length efs = length q" "smap_ok bs1 \<longrightarrow> smap_ok bs'"
    "smap_get bs' = (\<lambda>k. if k \<in> snd ` set q then map_option (map_option (stored ids)) (smap_get bs1 k)
                        else smap_get bs1 k)" by blast
  have ok: "smap_ok bs \<longrightarrow> smap_ok bs1" by (simp add: bs1_def smap_ok_put)
  have get: "smap_get bs' = (\<lambda>k'. if k' \<in> snd ` set (x # q)
      then map_option (map_option (stored ids)) (smap_get bs k') else smap_get bs k')"
    unfolding ih(4) bs1_def by (auto simp: x b smap_simps fun_eq_iff stored_stored [OF assms(2)])
  have "\<exists>ef. store_loop ids (x # q) bs = Some (bs', ef # efs)"
    using ih(1) b unfolding bs1_def stored_def
    by (cases "b_id b = -1") (auto simp: x smap_get_or_def split: if_splits)
  then obtain ef where st: "store_loop ids (x # q) bs = Some (bs', ef # efs)" ..
  show ?case
    by (rule exI [of _ bs'], rule exI [of _ "ef # efs"]) (use st ih(2,3) ok get in simp)
qed

section \<open>Properties\<close>


definition witness_renv :: renv where
  "witness_renv = \<lparr>re_sw = \<lparr>sw_jid = JID, sw_parse = (\<lambda>s. JID [] s None), sw_str = jid_domain,
       sw_valid = (\<lambda>j. jid_domain j \<noteq> []), sw_escape = id, sw_unescape = id, sw_availability = id\<rparr>,
     re_cf = \<lparr>cf_jid = JID [] ''gw'' None, cf_server_mode = None, cf_jid_escaping = None,
       cf_rawxml = None, cf_send_buddies_on_login = None, cf_needRegistration = None,
       cf_needPassword = None, cf_auto_register = False, cf_vip_only = False, cf_vip_message = [],
       cf_enable_remove_buddy = False, cf_more_resources = False, cf_enable_xhtml = False,
       cf_reuse_old_backends = False, cf_users_per_backend = 2, cf_login_delay = 0,
       cf_idle_reconnect_time = 0, cf_admin_jid = [], cf_admin_password = []\<rparr>,
     re_userJID = JID ''u'' ''x'' None, re_connected = True, re_cacheMessages = False,
     re_presences = [], re_rawxml = False, re_low = id\<rparr>"

definition witness_buddy :: buddy where
  "witness_buddy = new_LocalBuddy witness_renv (-1) ''bob'' [] [] BUDDY_NO_FLAG"

definition empty_roster :: roster where
  "empty_roster = \<lparr>r_buddies = [], r_storage = True, r_queue = [], r_storageTimer = False,
     r_supportRemoteRoster = False, r_RIETimer = False\<rparr>"

lemma roster_ok_empty: "roster_ok e empty_roster"
  by (simp add: roster_ok_def empty_roster_def bq_ok_def)


lemma push_all_null: "(k, None) \<in> set bs \<Longrightarrow> push_all e bs r = None"
  by (induction e bs r rule: push_all.induct) (auto split: prod.splits)

text \<open>
  Looking up a name that is not in the list plants a null entry, and the empty answer to the
  remote-roster request then pushes it: \<open>handleRemoteRosterResponse\<close> dereferences a null pointer.
\<close>

theorem remote_roster_null_deref:
  assumes "smap_get (r_buddies r) (re_low e name) = None"
  shows "handleRemoteRosterResponse e False True (touchBuddy e name r) = None"
proof -
  define r' where "r' = (touchBuddy e name r)\<lparr>r_supportRemoteRoster := True\<rparr>"
  have "smap_get (r_buddies r') (re_low e name) = Some None"
    using assms by (simp add: r'_def touchBuddy_def smap_simps)
  then have mem: "(re_low e name, None) \<in> set (r_buddies r')" by (rule smap_get_SomeD)
  then have "r_buddies r' \<noteq> []" by auto
  then have "handleRemoteRosterResponse e False True (touchBuddy e name r) = push_all e (r_buddies r') r'"
    by (simp add: handleRemoteRosterResponse_def Let_def r'_def)
  then show ?thesis using push_all_null [OF mem] by simp
qed

theorem remote_roster_null_deref_witness:
  "handleRemoteRosterResponse witness_renv False True (touchBuddy witness_renv ''eve'' empty_roster) = None"
  by (rule remote_roster_null_deref) (simp add: empty_roster_def)

section \<open>Subscription requests\<close>

text \<open>
  What the JID library guarantees for the address \<open>j\<close> of a request: its node contains neither
  \<open>@\<close> nor \<open>/\<close>, escaping undoes unescaping, the empty JID is invalid, and the address built from
  the same node under the gateway's domain is valid and has that node.
\<close>

definition addr_ok :: "renv \<Rightarrow> jid \<Rightarrow> bool" where
  "addr_ok e j \<longleftrightarrow>
     (let sw = re_sw e; n = jid_node j;
          full = sw_jid sw n (sw_str sw (cf_jid (re_cf e))) (Some JID_DEFAULT_RESOURCE)
      in CHR ''@'' \<notin> set n \<and> CHR ''/'' \<notin> set n
         \<and> (sw_unescape sw n \<noteq> n \<longrightarrow> sw_escape sw (sw_unescape sw n) = n)
         \<and> \<not> sw_valid sw jid_none \<and> sw_valid sw full \<and> jid_node full = n)"

lemma temporary_buddy_Some:
  assumes "addr_ok e to"
  shows "\<exists>b. temporary_buddy e (node_to_legacy (re_sw e) (jid_node to)) to = Some b
    \<and> b_name b = node_to_legacy (re_sw e) (jid_node to) \<and> b_subscription b = Both"
proof -
  define n where "n = node_to_legacy (re_sw e) (jid_node to)"
  have sn: "safe_name (re_sw e) (buddyFlagsFromJID (re_sw e) to) n = jid_node to"
    using assms unfolding n_def by (intro safe_name_node) (auto simp: addr_ok_def Let_def)
  define b where "b = new_LocalBuddy e (-1) n [] [] (buddyFlagsFromJID (re_sw e) to)"
  have "b_jid b = sw_jid (re_sw e) (jid_node to) (sw_str (re_sw e) (cf_jid (re_cf e))) (Some JID_DEFAULT_RESOURCE)"
    using assms sn by (simp add: b_def new_LocalBuddy_def generateJID_def getSafeName_def addr_ok_def Let_def)
  with assms have "isValid e b"
    by (simp add: isValid_def getSafeName_def addr_ok_def Let_def)
  then show ?thesis
    unfolding n_def [symmetric]
    by (simp add: temporary_buddy_def createBuddy_def Let_def b_def [symmetric])
      (simp add: b_def new_LocalBuddy_def)
qed

lemma sendBuddyPresences_sel [simp]:
  "b_name (fst (sendBuddyPresences e to b)) = b_name b"
  "b_subscription (fst (sendBuddyPresences e to b)) = b_subscription b"
  by (simp_all add: sendBuddyPresences_def Let_def)

lemma roster_ok_known:
  assumes "roster_ok e r" and "getBuddy e n r = Some b"
  shows "re_low e (b_name b) = re_low e n" and "getBuddy e (b_name b) r = Some b"
proof -
  show eq: "re_low e (b_name b) = re_low e n"
    using assms unfolding roster_ok_def bq_ok_def getBuddy_Some by metis
  show "getBuddy e (b_name b) r = Some b"
    using assms(2) by (simp add: getBuddy_def eq)
qed

lemma subscription_server_ok:
  assumes "roster_ok e r" and "\<And>n. re_low e (re_low e n) = re_low e n" and "slot_free e b r"
  shows "\<exists>r' out t. subscription_server e p isNew (Some b) r = Some (r', out, t) \<and> roster_ok e r'"
  using assms roster_ok_setBuddy [OF assms(1,3)] roster_ok_removeBuddy [OF assms(1,2), of "b_name b"]
  by (cases "pr_type p") (auto simp: subscription_server_def split: prod.splits)

lemma subscribe_gateway_step:
  assumes "roster_ok e r" and "slot_free e b r" and "pr_type p = Subscribe \<or> pr_type p = Subscribed"
    and "isNew \<longrightarrow> b_subscription b = Both" and "\<not> isNew \<longrightarrow> getBuddy e (b_name b) r = Some b"
  shows "\<exists>r' out b'. subscription_gateway e p isNew (Some b) r
      = Some (r', out, if pr_type p = Subscribe then Subscribed else Unavailable)
    \<and> roster_ok e r' \<and> getBuddy e (b_name b) r' = Some b' \<and> b_subscription b' = Both
    \<and> OnBuddyAdded (b_name b) (b_alias b') (b_groups b') \<in> set out"
proof -
  define r1 where "r1 = fst (if isNew then setBuddy e b r else (r, []))"
  define b1 where "b1 = (case getBuddy e (b_name b) r1 of None \<Rightarrow> b | Some b' \<Rightarrow> b')"
  have ok1: "roster_ok e r1"
    using roster_ok_setBuddy [OF assms(1,2)] assms(1) by (simp add: r1_def)
  have b1: "getBuddy e (b_name b) r1 = Some b1" "b_name b1 = b_name b" "isNew \<longrightarrow> b_subscription b1 = Both"
    using getBuddy_setBuddy [of b e r] assms(4,5)
    by (auto simp: r1_def b1_def split: if_splits)
  define upd where "upd = (\<not> isNew \<and> b_subscription b1 \<noteq> Both)"
  define b2 where "b2 = (if upd then b1\<lparr>b_subscription := Both\<rparr> else b1)"
  define r2 where "r2 = (if upd then storeBuddy e b2 r1 else r1)"
  have b2: "b_name b2 = b_name b" "b_subscription b2 = Both"
    using b1 by (auto simp: b2_def upd_def)
  have ok2: "roster_ok e r2"
    using ok1 b1 b2 roster_ok_store [OF ok1, of b2 b1] by (simp add: r2_def)
  have g2: "getBuddy e (b_name b) r2 = Some b1" using b1 by (simp add: r2_def)
  define b3 where "b3 = fst (sendBuddyPresences e (pr_from p) b2)"
  have b3: "b_name b3 = b_name b" "b_subscription b3 = Both" "b_alias b3 = b_alias b2" "b_groups b3 = b_groups b2"
    using b2 by (simp_all add: b3_def sendBuddyPresences_def generatePresenceStanzas_def Let_def)
  have ok3: "roster_ok e (writeBuddy e b3 r2)"
    by (rule roster_ok_write [OF ok2]) (simp add: slot_free_def g2 b3 b1)
  define o1 where "o1 = snd (if isNew then setBuddy e b r else (r, []))"
  define o2 where "o2 = snd (sendBuddyPresences e (pr_from p) b2)"
  have s1: "(if isNew then setBuddy e b r else (r, [])) = (r1, o1)"
    by (simp add: r1_def o1_def)
  have s2: "(if \<not> isNew \<and> b_subscription b1 \<noteq> Both
      then let b = b1\<lparr>b_subscription := Both\<rparr> in (b, storeBuddy e b r1) else (b1, r1)) = (b2, r2)"
    by (simp add: b2_def r2_def upd_def Let_def)
  have s3: "sendBuddyPresences e (pr_from p) b2 = (b3, o2)"
    by (simp add: b3_def o2_def)
  have "subscription_gateway e p isNew (Some b) r
      = Some (writeBuddy e b3 r2, o1 @ [on_added b2] @ o2, if pr_type p = Subscribe then Subscribed else Unavailable)"
    using assms(3) unfolding subscription_gateway_def Let_def [of "pr_type p"] option.case s1 prod.case
      Let_def [of "(r1, o1)"] b1_def [symmetric] Let_def [of b1] s2 Let_def [of "(b2, r2)"]
      s3 Let_def [of "(b3, o2)"]
    by simp
  then obtain out where "subscription_gateway e p isNew (Some b) r
      = Some (writeBuddy e b3 r2, out, if pr_type p = Subscribe then Subscribed else Unavailable)"
    and "on_added b2 \<in> set out"
    by auto
  then show ?thesis
    using ok3 b3 b2 by (intro exI [of _ "writeBuddy e b3 r2"] exI [of _ out] exI [of _ b3])
      (auto simp: on_added_def)
qed

lemma subscription_gateway_ok:
  assumes "roster_ok e r" and "\<And>n. re_low e (re_low e n) = re_low e n" and "slot_free e b r"
    and "isNew \<longrightarrow> b_subscription b = Both" and "\<not> isNew \<longrightarrow> getBuddy e (b_name b) r = Some b"
  shows "\<exists>r' out t. subscription_gateway e p isNew (Some b) r = Some (r', out, t) \<and> roster_ok e r'"
proof (cases "pr_type p = Subscribe \<or> pr_type p = Subscribed")
  case True
  then show ?thesis using subscribe_gateway_step [OF assms(1,3) True assms(4,5)] by blast
next
  case False
  then show ?thesis
    using assms(1) roster_ok_removeBuddy [OF assms(1,2), of "b_name b"]
    by (auto simp: subscription_gateway_def Let_def split: prod.splits)
qed

text \<open>The contact a request is about, as both modes find it.\<close>

lemma subscription_target:
  assumes "roster_ok e r" and "addr_ok e (pr_to p)"
  defines "name0 \<equiv> node_to_legacy (re_sw e) (jid_node (pr_to p))"
  defines "legacyName \<equiv> JIDToLegacyName (re_sw e) (roster_name e r) (pr_to p)"
  shows "(getBuddy e legacyName r = None \<and> legacyName = name0
       \<and> (\<exists>b. temporary_buddy e legacyName (pr_to p) = Some b \<and> b_name b = legacyName
              \<and> b_subscription b = Both \<and> slot_free e b r))
    \<or> (\<exists>b. getBuddy e legacyName r = Some b \<and> b_name b = legacyName \<and> slot_free e b r)"
proof (cases "getBuddy e name0 r")
  case None
  then have "legacyName = name0"
    by (simp add: legacyName_def name0_def JIDToLegacyName_def roster_name_def Let_def)
  with None temporary_buddy_Some [OF assms(2)] show ?thesis
    by (auto simp: name0_def slot_free_def)
next
  case (Some b)
  then have "legacyName = b_name b"
    by (simp add: legacyName_def name0_def JIDToLegacyName_def roster_name_def Let_def)
  with roster_ok_known [OF assms(1) Some] show ?thesis by (auto simp: slot_free_def)
qed

lemma roster_name_touch [simp]: "roster_name e (touchBuddy e n r) = roster_name e r"
  by (simp add: roster_name_def fun_eq_iff)

lemma slot_free_touch [simp]: "slot_free e b (touchBuddy e n r) = slot_free e b r"
  by (simp add: slot_free_def)

lemma handleSubscription_eq:
  fixes e r p
  defines "name0 \<equiv> node_to_legacy (re_sw e) (jid_node (pr_to p))"
  defines "legacyName \<equiv> JIDToLegacyName (re_sw e) (roster_name e r) (pr_to p)"
  defines "r1 \<equiv> touchBuddy e legacyName (touchBuddy e name0 r)"
  defines "isNew \<equiv> getBuddy e legacyName r = None"
  assumes "legacyName \<noteq> []"
    and "(if isNew then temporary_buddy e legacyName (pr_to p) else getBuddy e legacyName r) = Some b"
    and "(if re_server e then subscription_server e p isNew (Some b) r1
          else subscription_gateway e p isNew (Some b) r1) = Some (r', out, t)"
  shows "handleSubscription e p r = Some (r', out @ subscription_answer e p t)"
proof -
  have cur: "(if isNew then temporary_buddy e legacyName (pr_to p) else getBuddy e legacyName r) = Some b"
    by (rule assms(6))
  show ?thesis
    unfolding handleSubscription_def Let_def roster_name_touch getBuddy_touch
      name0_def [symmetric] legacyName_def [symmetric] r1_def [symmetric] isNew_def [symmetric]
    unfolding cur assms(7) using assms(5) by simp
qed

text \<open>The contact is there, new or known, and the step of either mode can run on it.\<close>

lemma handleSubscription_cases:
  assumes "roster_ok e r" and "addr_ok e (pr_to p)"
  defines "legacyName \<equiv> JIDToLegacyName (re_sw e) (roster_name e r) (pr_to p)"
  defines "r1 \<equiv> touchBuddy e legacyName (touchBuddy e (node_to_legacy (re_sw e) (jid_node (pr_to p))) r)"
  defines "isNew \<equiv> getBuddy e legacyName r = None"
  obtains b where "(if isNew then temporary_buddy e legacyName (pr_to p) else getBuddy e legacyName r) = Some b"
    and "slot_free e b r1" and "isNew \<longrightarrow> b_subscription b = Both"
    and "\<not> isNew \<longrightarrow> getBuddy e (b_name b) r1 = Some b" and "b_name b = legacyName"
    and "roster_ok e r1"
proof -
  have "roster_ok e r1" using assms(1) by (simp add: r1_def roster_ok_touch)
  with subscription_target [OF assms(1,2)] that show ?thesis
    unfolding legacyName_def [symmetric] by (auto simp: isNew_def r1_def)
qed

text \<open>
  C13: A subscription request for a well-formed address never dereferences a null contact, in
  either mode and whatever its type, and leaves the contact list well-formed.
\<close>

theorem handleSubscription_safe:
  assumes "roster_ok e r" and "addr_ok e (pr_to p)" and "\<And>n. re_low e (re_low e n) = re_low e n"
  shows "\<exists>r' out. handleSubscription e p r = Some (r', out) \<and> roster_ok e r'"
proof (cases "JIDToLegacyName (re_sw e) (roster_name e r) (pr_to p) = []")
  case True
  then have "handleSubscription e p r
      = Some (touchBuddy e (node_to_legacy (re_sw e) (jid_node (pr_to p))) r, [])"
    by (simp add: handleSubscription_def Let_def)
  with assms(1) show ?thesis by (simp add: roster_ok_touch)
next
  case False
  show ?thesis
  proof (rule handleSubscription_cases [OF assms(1,2)], goal_cases)
    case (1 b)
    from subscription_server_ok [OF 1(6) assms(3) 1(2), of p]
      subscription_gateway_ok [OF 1(6) assms(3) 1(2-4), of p]
    obtain r' out t where step: "(if re_server e then subscription_server e p
          (getBuddy e (JIDToLegacyName (re_sw e) (roster_name e r) (pr_to p)) r = None) (Some b)
          (touchBuddy e (JIDToLegacyName (re_sw e) (roster_name e r) (pr_to p))
            (touchBuddy e (node_to_legacy (re_sw e) (jid_node (pr_to p))) r))
        else subscription_gateway e p
          (getBuddy e (JIDToLegacyName (re_sw e) (roster_name e r) (pr_to p)) r = None) (Some b)
          (touchBuddy e (JIDToLegacyName (re_sw e) (roster_name e r) (pr_to p))
            (touchBuddy e (node_to_legacy (re_sw e) (jid_node (pr_to p))) r))) = Some (r', out, t)"
      and "roster_ok e r'"
      by (metis (full_types))
    then show ?thesis using handleSubscription_eq [OF False 1(1) step] by blast
  qed
qed

theorem handleSubscription_safe_witness:
  "\<exists>r' out. handleSubscription witness_renv
     (mk_presence (JID ''bob'' ''gw'' None) (JID ''u'' ''x'' None) Subscribe) empty_roster = Some (r', out)"
  using handleSubscription_safe [OF roster_ok_empty, of witness_renv
      "mk_presence (JID ''bob'' ''gw'' None) (JID ''u'' ''x'' None) Subscribe"]
  by (auto simp: addr_ok_def witness_renv_def jid_none_def)

text \<open>
  C14: In gateway mode a \<open>subscribe\<close> for a contact is always accepted: afterwards the contact is in
  the list with subscription \<open>Both\<close>, the backend is told to add it, and the answer ends with
  \<open>subscribed\<close> followed by the contact's own \<open>subscribe\<close>.
\<close>

theorem gateway_subscribe_accepts:
  assumes "roster_ok e r" and "addr_ok e (pr_to p)" and "\<not> re_server e" and "pr_type p = Subscribe"
    and "JIDToLegacyName (re_sw e) (roster_name e r) (pr_to p) \<noteq> []"
  shows "\<exists>r' out b. handleSubscription e p r = Some (r', out @
      [SendPresence (mk_presence (jid_bare (pr_from p)) (jid_bare (pr_to p)) Subscribed),
       SendPresence (mk_presence (jid_bare (pr_from p)) (jid_bare (pr_to p)) Subscribe)])
    \<and> getBuddy e (JIDToLegacyName (re_sw e) (roster_name e r) (pr_to p)) r' = Some b
    \<and> b_subscription b = Both
    \<and> OnBuddyAdded (JIDToLegacyName (re_sw e) (roster_name e r) (pr_to p)) (b_alias b) (b_groups b) \<in> set out"
proof (rule handleSubscription_cases [OF assms(1,2)], goal_cases)
  case (1 b)
  from subscribe_gateway_step [OF 1(6,2) _ 1(3,4), of p] assms(4) 1(5)
  obtain r' out b' where step: "subscription_gateway e p
        (getBuddy e (JIDToLegacyName (re_sw e) (roster_name e r) (pr_to p)) r = None) (Some b)
        (touchBuddy e (JIDToLegacyName (re_sw e) (roster_name e r) (pr_to p))
          (touchBuddy e (node_to_legacy (re_sw e) (jid_node (pr_to p))) r)) = Some (r', out, Subscribed)"
    and r': "getBuddy e (b_name b) r' = Some b'" "b_subscription b' = Both"
      "OnBuddyAdded (b_name b) (b_alias b') (b_groups b') \<in> set out"
    by auto
  have "handleSubscription e p r = Some (r', out @ subscription_answer e p Subscribed)"
    using step assms(3) by (intro handleSubscription_eq [OF assms(5) 1(1)]) simp
  with r' assms(3) show ?case
    unfolding 1(5) [symmetric] by (auto simp: subscription_answer_def)
qed

theorem gateway_subscribe_accepts_witness:
  "\<exists>r' out b. handleSubscription witness_renv
      (mk_presence (JID ''bob'' ''gw'' None) (JID ''u'' ''x'' None) Subscribe) empty_roster = Some (r', out)
    \<and> getBuddy witness_renv ''bob'' r' = Some b \<and> b_subscription b = Both"
  using gateway_subscribe_accepts [OF roster_ok_empty, of witness_renv
      "mk_presence (JID ''bob'' ''gw'' None) (JID ''u'' ''x'' None) Subscribe"]
  by (fastforce simp: addr_ok_def witness_renv_def jid_none_def re_server_def inServerMode_def dflt_def
      JIDToLegacyName_def node_to_legacy_def roster_name_def getBuddy_def smap_get_or_def empty_roster_def)

end
