(* ===== verification/Oracle.thy ===== *)
theory Oracle
  imports Stanza
begin

text \<open>
  \<open>libtransport/PresenceOracle.cpp\<close>: the presences the transport has received from its XMPP
  users, per bare JID and resource, and the filter \<open>Component::handlePresence\<close> of
  \<open>libtransport/Transport.cpp\<close> that forwards them to the \<open>UserManager\<close>.
\<close>

section \<open>Model\<close>

type_synonym poracle = "(jid, (jid, presence) smap) smap"

text \<open>\<open>entries_[bareJID]\<close>.\<close>

definition jid_map :: "poracle \<Rightarrow> jid \<Rightarrow> (jid, presence) smap" where
  "jid_map orc b = smap_get_or [] orc b"

definition handleStanzaChannelAvailableChanged :: "bool \<Rightarrow> poracle \<Rightarrow> poracle" where
  "handleStanzaChannelAvailableChanged available orc = (if available then [] else orc)"

definition clearPresences :: "jid \<Rightarrow> poracle \<Rightarrow> poracle" where
  "clearPresences b orc = smap_put b [] orc"

text \<open>
  The presence that is stored for a received one: itself, or an unavailable presence of the
  bare JID for \<open>unsubscribe\<close> and \<open>unsubscribed\<close>.
\<close>

definition passedPresence :: "presence \<Rightarrow> presence" where
  "passedPresence p =
     (if pr_type p = Unsubscribe \<or> pr_type p = Unsubscribed
      then (mk_presence jid_none (jid_bare (pr_from p)) Unavailable)\<lparr>pr_status := pr_status p\<rparr>
      else p)"

definition update_jid_map :: "presence \<Rightarrow> (jid, presence) smap \<Rightarrow> (jid, presence) smap" where
  "update_jid_map p m =
     (let pp = passedPresence p;
          m1 = (if jid_isBare (pr_from pp) \<and> pr_type p = Unavailable then []
                else if pr_type pp = Available then smap_del (jid_bare (pr_from p)) m
                else m)
      in if pr_type pp = Unavailable \<and> length m1 > 1 then smap_del (pr_from pp) m1
         else smap_put (pr_from pp) pp m1)"

text \<open>
  \<open>handleIncomingPresence\<close>: the new entries and the presence passed to \<open>onPresenceChange\<close>.
\<close>

definition handleIncomingPresence :: "presence \<Rightarrow> poracle \<Rightarrow> poracle \<times> presence option" where
  "handleIncomingPresence p orc =
     (if jid_node (pr_to p) \<noteq> [] then (orc, None)
      else if pr_type p = Subscribe \<or> pr_type p = Subscribed then (orc, None)
      else (smap_put (jid_bare (pr_from p)) (update_jid_map p (jid_map orc (jid_bare (pr_from p)))) orc,
            Some (passedPresence p)))"

definition getLastPresence :: "poracle \<Rightarrow> jid \<Rightarrow> presence option" where
  "getLastPresence orc j =
     (case smap_get orc (jid_bare j) of None \<Rightarrow> None | Some m \<Rightarrow> smap_get m j)"

definition getAllPresence :: "poracle \<Rightarrow> jid \<Rightarrow> presence list" where
  "getAllPresence orc b = (case smap_get orc b of None \<Rightarrow> [] | Some m \<Rightarrow> map snd m)"

text \<open>The comparison and the loop of \<open>getHighestPriorityPresence\<close>.\<close>

definition higher :: "swiften \<Rightarrow> presence \<Rightarrow> presence \<Rightarrow> bool" where
  "higher sw c h \<longleftrightarrow> pr_priority c > pr_priority h
     \<or> (pr_priority c = pr_priority h
        \<and> sw_availability sw (pr_show c) > sw_availability sw (pr_show h))"

fun highest_loop :: "swiften \<Rightarrow> presence list \<Rightarrow> presence option \<Rightarrow> presence option" where
  "highest_loop sw [] h = h"
| "highest_loop sw (c # cs) h =
     highest_loop sw cs
       (case h of None \<Rightarrow> Some c | Some h' \<Rightarrow> if higher sw c h' then Some c else Some h')"

definition getHighestPriorityPresence :: "swiften \<Rightarrow> poracle \<Rightarrow> jid \<Rightarrow> presence option" where
  "getHighestPriorityPresence sw orc b =
     (case smap_get orc b of None \<Rightarrow> None | Some m \<Rightarrow> highest_loop sw (map snd m) None)"

text \<open>
  \<open>Component::handlePresence\<close>: \<open>None\<close> when the presence is filtered out, otherwise whether a
  capabilities request is sent before \<open>onUserPresenceReceived\<close>.
\<close>

definition component_handlePresence :: "swiften \<Rightarrow> presence \<Rightarrow> bool option" where
  "component_handlePresence sw p =
     (if jid_node (pr_to p) \<noteq> [] then None
      else if \<not> sw_valid sw (pr_from p) then None
      else if pr_type p \<in> {Error, Subscribe, Subscribed, Unsubscribe, Unsubscribed} then None
      else Some (pr_type p \<noteq> Unavailable))"

section \<open>Invariant\<close>

definition jid_map_ok :: "jid \<Rightarrow> (jid, presence) smap \<Rightarrow> bool" where
  "jid_map_ok b m \<longleftrightarrow> smap_ok m \<and> (\<forall>(j, p) \<in> set m. pr_from p = j \<and> jid_bare j = b)"

definition oracle_ok :: "poracle \<Rightarrow> bool" where
  "oracle_ok orc \<longleftrightarrow> smap_ok orc \<and> (\<forall>(b, m) \<in> set orc. jid_map_ok b m)"

text \<open>The abstract view: the resources with an available presence.\<close>

definition online :: "poracle \<Rightarrow> jid \<Rightarrow> jid set" where
  "online orc b = {j. \<exists>p. smap_get (jid_map orc b) j = Some p \<and> pr_type p = Available}"

section \<open>Facts\<close>

lemma set_smap_put: "set (smap_put k v m) \<subseteq> insert (k, v) (set m)"
  by (induction k v m rule: smap_put.induct) auto

lemma set_smap_del: "set (smap_del k m) = {(k', v) \<in> set m. k' \<noteq> k}"
  by (auto simp: smap_del_def)

lemma passedPresence_bare: "jid_bare (pr_from (passedPresence p)) = jid_bare (pr_from p)"
  by (simp add: passedPresence_def)

lemma jid_map_ok_update:
  assumes "jid_map_ok (jid_bare (pr_from p)) m"
  shows "jid_map_ok (jid_bare (pr_from p)) (update_jid_map p m)"
proof -
  define pp where "pp = passedPresence p"
  have put: "jid_map_ok (jid_bare (pr_from p)) (smap_put (pr_from pp) pp m')"
    if "jid_map_ok (jid_bare (pr_from p)) m'" for m'
    using that set_smap_put [of "pr_from pp" pp m']
    by (auto simp: jid_map_ok_def smap_ok_put pp_def passedPresence_bare)
  have del: "jid_map_ok (jid_bare (pr_from p)) (smap_del j m')"
    if "jid_map_ok (jid_bare (pr_from p)) m'" for m' j
    using that by (auto simp: jid_map_ok_def smap_ok_del set_smap_del)
  have "jid_map_ok (jid_bare (pr_from p)) []" by (simp add: jid_map_ok_def)
  then show ?thesis
    unfolding update_jid_map_def Let_def pp_def [symmetric]
    using put del assms by simp
qed

lemma jid_map_ok_of: "oracle_ok orc \<Longrightarrow> jid_map_ok b (jid_map orc b)"
  by (auto simp: oracle_ok_def jid_map_def smap_get_or_def jid_map_ok_def
      dest!: smap_get_SomeD split: option.splits)

lemma oracle_ok_put: "oracle_ok orc \<Longrightarrow> jid_map_ok b m \<Longrightarrow> oracle_ok (smap_put b m orc)"
  using set_smap_put [of b m orc] by (auto simp: oracle_ok_def smap_ok_put)

lemma oracle_ok_handle [inv_intros]:
  "oracle_ok orc \<Longrightarrow> oracle_ok (fst (handleIncomingPresence p orc))"
  by (auto simp: handleIncomingPresence_def intro!: oracle_ok_put jid_map_ok_update jid_map_ok_of)

lemma oracle_ok_clear [inv_intros]: "oracle_ok orc \<Longrightarrow> oracle_ok (clearPresences b orc)"
  by (auto simp: clearPresences_def jid_map_ok_def intro!: oracle_ok_put)

lemma jid_map_put: "jid_map (smap_put b m orc) b' = (if b' = b then m else jid_map orc b')"
  by (simp add: jid_map_def smap_get_or_def smap_simps)

text \<open>The highest presence is a maximal element of the list, and the first such.\<close>

lemma higher_trans: "higher sw a b \<Longrightarrow> higher sw b c \<Longrightarrow> higher sw a c"
  by (auto simp: higher_def)

lemma not_higher_trans: "\<not> higher sw a b \<Longrightarrow> \<not> higher sw b c \<Longrightarrow> \<not> higher sw a c"
  by (auto simp: higher_def)

lemma highest_loop_Some:
  assumes "highest_loop sw ps (Some h) = Some r"
  shows "(r = h \<or> r \<in> set ps) \<and> \<not> higher sw h r \<and> (\<forall>p \<in> set ps. \<not> higher sw p r)"
  using assms
proof (induction ps arbitrary: h)
  case Nil
  then show ?case by (simp add: higher_def)
next
  case (Cons c cs)
  define h' where "h' = (if higher sw c h then c else h)"
  have "highest_loop sw cs (Some h') = Some r"
    using Cons.prems by (simp add: h'_def split: if_splits)
  from Cons.IH [OF this] have ih: "r = h' \<or> r \<in> set cs" "\<not> higher sw h' r"
    "\<forall>p \<in> set cs. \<not> higher sw p r" by auto
  have "\<not> higher sw h h'" "\<not> higher sw c h'"
    by (auto simp: h'_def higher_def)
  then have "\<not> higher sw h r" "\<not> higher sw c r"
    using ih(2) not_higher_trans by blast+
  with ih show ?case by (auto simp: h'_def)
qed

lemma highest_loop_total: "\<exists>r. highest_loop sw ps (Some h) = Some r"
  by (induction ps arbitrary: h) auto

lemma highest_loop_None: "highest_loop sw ps None = None \<longleftrightarrow> ps = []"
  using highest_loop_total [of sw "tl ps" "hd ps"] by (cases ps) auto

text \<open>What an update of one entry does to the set of online resources.\<close>

lemma online_put:
  "online (smap_put b m orc) b' =
     (if b' = b then {j. \<exists>p. smap_get m j = Some p \<and> pr_type p = Available} else online orc b')"
  by (simp add: online_def jid_map_put)

lemma length_le_1_get: "length m \<le> 1 \<Longrightarrow> smap_get m j = Some p \<Longrightarrow> m = [(j, p)]"
  by (cases m) (auto simp: smap_get_Cons split: if_splits)

lemma online_update:
  "{j. \<exists>q. smap_get (update_jid_map p m) j = Some q \<and> pr_type q = Available} =
     (let on = {j. \<exists>q. smap_get m j = Some q \<and> pr_type q = Available} in
      if pr_type p = Available then insert (pr_from p) (on - {jid_bare (pr_from p)})
      else if pr_type p = Unavailable \<and> jid_isBare (pr_from p) then {}
      else on - {pr_from (passedPresence p)})"
proof (cases "pr_type p = Available")
  case True
  then show ?thesis
    by (auto simp: update_jid_map_def passedPresence_def Let_def smap_simps split: if_splits)
next
  case False
  have pt: "pr_type (passedPresence p) \<noteq> Available"
    using False by (simp add: passedPresence_def)
  show ?thesis
  proof (cases "pr_type p = Unavailable \<and> jid_isBare (pr_from p)")
    case True
    then show ?thesis
      by (auto simp: update_jid_map_def passedPresence_def Let_def smap_get_Cons split: if_splits)
  next
    case nb: False
    then have "update_jid_map p m =
        (if pr_type (passedPresence p) = Unavailable \<and> length m > 1
         then smap_del (pr_from (passedPresence p)) m
         else smap_put (pr_from (passedPresence p)) (passedPresence p) m)"
      using pt by (auto simp: update_jid_map_def passedPresence_def Let_def)
    with False nb pt show ?thesis by (auto simp: smap_simps Let_def)
  qed
qed


definition witness_sw :: swiften where
  "witness_sw = \<lparr>sw_jid = JID, sw_parse = (\<lambda>s. JID [] s None),
     sw_str = (\<lambda>j. jid_node j @ ''@'' @ jid_domain j @ (case jid_res j of None \<Rightarrow> [] | Some r \<Rightarrow> ''/'' @ r)),
     sw_valid = (\<lambda>j. jid_domain j \<noteq> []), sw_escape = id, sw_unescape = id,
     sw_availability = (\<lambda>s. - s)\<rparr>"

definition witness_orc :: poracle where
  "witness_orc = (let j = (\<lambda>r. JID ''u'' ''x'' (Some r)); t = JID [] ''gw'' None in
     fst (handleIncomingPresence (mk_presence t (j ''b'') Available)
       (fst (handleIncomingPresence ((mk_presence t (j ''a'') Available)\<lparr>pr_priority := 5\<rparr>) []))))"


text \<open>
  C6: The set of online resources the oracle keeps is the abstract one: available adds the
  resource (and retires a bare-JID entry), unavailable removes it (all of them for a bare JID),
  subscription requests change nothing, and presences to a contact are ignored. An
  \<open>unsubscribe\<close> or \<open>unsubscribed\<close> only removes the bare-JID entry: the resources of that user
  stay online, although the code's comment announces a simulated unavailable.
\<close>

theorem online_refinement:
  "online (fst (handleIncomingPresence p orc)) b =
     (if jid_node (pr_to p) = [] \<and> b = jid_bare (pr_from p)
      then (case pr_type p of
        Available \<Rightarrow> insert (pr_from p) (online orc b - {b})
      | Unavailable \<Rightarrow> if jid_isBare (pr_from p) then {} else online orc b - {pr_from p}
      | Subscribe \<Rightarrow> online orc b
      | Subscribed \<Rightarrow> online orc b
      | Unsubscribe \<Rightarrow> online orc b - {b}
      | Unsubscribed \<Rightarrow> online orc b - {b}
      | _ \<Rightarrow> online orc b - {pr_from p})
      else online orc b)"
proof (cases "jid_node (pr_to p) \<noteq> [] \<or> pr_type p \<in> {Subscribe, Subscribed}")
  case True
  then show ?thesis by (auto simp: handleIncomingPresence_def)
next
  case False
  then have "online (fst (handleIncomingPresence p orc)) b =
      (if b \<noteq> jid_bare (pr_from p) then online orc b
       else {j. \<exists>q. smap_get (update_jid_map p (jid_map orc b)) j = Some q \<and> pr_type q = Available})"
    by (simp add: handleIncomingPresence_def online_put)
  then show ?thesis
    using False unfolding online_update
    by (cases "pr_type p") (simp_all add: online_def Let_def passedPresence_def)
qed

text \<open>
  Every operation keeps the oracle well-formed: the entries are filed under the bare JID of
  their resource, with the presence that resource sent.
\<close>

theorem oracle_invariant:
  assumes "oracle_ok orc"
  shows "oracle_ok (fst (handleIncomingPresence p orc)) \<and> oracle_ok (clearPresences b orc)
    \<and> oracle_ok (handleStanzaChannelAvailableChanged a orc)
    \<and> (getLastPresence orc j = Some q \<longrightarrow> pr_from q = j)"
proof -
  have "jid_map_ok (jid_bare j) m" if "smap_get orc (jid_bare j) = Some m" for m
    using assms smap_get_SomeD [OF that] by (auto simp: oracle_ok_def)
  then have "getLastPresence orc j = Some q \<longrightarrow> pr_from q = j"
    by (fastforce simp: getLastPresence_def jid_map_ok_def split: option.splits dest: smap_get_SomeD)
  then show ?thesis
    using assms by (auto simp: handleStanzaChannelAvailableChanged_def oracle_ok_def [of "[]"]
        intro: inv_intros)
qed

theorem oracle_invariant_witness:
  "oracle_ok (clearPresences (JID ''u'' ''x'' None) [])
   \<and> oracle_ok (fst (handleIncomingPresence (mk_presence (JID [] ''gw'' None) (JID ''u'' ''x'' None) Available) []))"
  using oracle_invariant [of "[]"] by (simp add: oracle_ok_def [of "[]"])

end
