(* ===== verification/Conv.thy ===== *)
theory Conv
  imports Oracle Naming
begin

text \<open>
  Conversations: \<open>libtransport/Conversation.cpp\<close> (one chat or room of a user) and
  \<open>ConversationManager.cpp\<close> (the conversations of a user by name).

  A conversation changes its own record and returns the stanzas it sends as effects. Messages and
  presences are shared pointers in the code; where an object is stored and then changed through
  another reference (the subject of a room, the presence of a participant) the stored copy is
  updated as well.
\<close>

unbundle bit_operations_syntax

section \<open>State\<close>

record conv =
  c_legacyName :: string
  c_nickname :: string
  c_room :: string
  c_muc :: bool
  c_jid :: jid
  c_jids :: "jid list"
  c_sentInitialPresence :: bool
  c_nicknameChanged :: bool
  c_mucEscaping :: bool
  c_sentInitialSubject :: bool
  c_subject :: "message option"
  c_cachedMessages :: "message list"
  c_participants :: "(string, presence \<times> string) smap"

text \<open>
  What the components above supply: configuration, the user's address and settings, whether his
  messages are cached, the address of a contact of his list (\<open>getBuddy(name)->getJID()\<close>), the
  presences and the clock.
\<close>

record cenv =
  ce_sw :: swiften
  ce_cf :: settings
  ce_userJID :: jid
  ce_setting :: "string \<Rightarrow> string"
  ce_cacheMessages :: bool
  ce_buddyJID :: "string \<Rightarrow> jid option"
  ce_names :: "string \<Rightarrow> string option"
  ce_orc :: poracle
  ce_now :: int

definition ce_server :: "cenv \<Rightarrow> bool" where
  "ce_server e = inServerMode (ce_cf e)"

text \<open>\<open>Swift::JID(node, getComponent()->getJID().toBare(), resource)\<close>.\<close>

definition comp_jid :: "cenv \<Rightarrow> string \<Rightarrow> string \<Rightarrow> jid" where
  "comp_jid e node res = sw_jid (ce_sw e) node (sw_str (ce_sw e) (jid_bare (cf_jid (ce_cf e)))) (Some res)"

definition FLAG_MODERATOR :: int where "FLAG_MODERATOR = 1"
definition FLAG_CONFLICT :: int where "FLAG_CONFLICT = 2"
definition FLAG_NOT_AUTHORIZED :: int where "FLAG_NOT_AUTHORIZED = 8"
definition FLAG_ROOM_NOT_FOUND :: int where "FLAG_ROOM_NOT_FOUND = 64"

section \<open>One conversation\<close>

definition new_Conversation :: "cenv \<Rightarrow> string \<Rightarrow> bool \<Rightarrow> conv" where
  "new_Conversation e legacyName isMUC =
     \<lparr>c_legacyName = legacyName, c_nickname = [], c_room = [], c_muc = isMUC,
      c_jid = jid_bare (ce_userJID e), c_jids = [],
      c_sentInitialPresence = dflt (cf_rawxml (ce_cf e)) False, c_nicknameChanged = False,
      c_mucEscaping = False, c_sentInitialSubject = False, c_subject = None, c_cachedMessages = [],
      c_participants = []\<rparr>"

definition setMUCEscaping :: "bool \<Rightarrow> conv \<Rightarrow> conv" where
  "setMUCEscaping mucEscaping c = c\<lparr>c_mucEscaping := mucEscaping\<rparr>"

definition destroyRoom :: "cenv \<Rightarrow> conv \<Rightarrow> effect list" where
  "destroyRoom e c =
     (if c_muc c
      then let p = pr_add_payload
                     (MUCUserP [MUCItem NoAffiliation NoRole [] ''Transport''
                        ''Spectrum 2 transport is being shut down.''] [332, 307])
                     (mk_presence jid_none
                        (comp_jid e (room_node (ce_sw e) (c_mucEscaping c) (c_legacyName c)) (c_nickname c))
                        Unavailable)
           in map (\<lambda>j. SendPresence (p\<lparr>pr_to := j\<rparr>)) (c_jids c)
      else [])"

definition setRoom :: "string \<Rightarrow> conv \<Rightarrow> conv" where
  "setRoom room c = c\<lparr>c_room := room, c_legacyName := room @ ''/'' @ c_legacyName c\<rparr>"

definition cacheMessage :: "cenv \<Rightarrow> message \<Rightarrow> conv \<Rightarrow> conv" where
  "cacheMessage e m c =
     (let l = c_cachedMessages c @ [add_payload (DelayP (ce_now e)) m]
      in c\<lparr>c_cachedMessages := (if length l > 100 then tl l else l)\<rparr>)"

text \<open>
  The loop over the joined resources in \<open>handleRawMessage\<close>. The subject is remembered before it
  is sent, and not sent at all before our own presence was.
\<close>

fun groupchat_loop :: "jid list \<Rightarrow> message \<Rightarrow> conv \<Rightarrow> conv \<times> effect list" where
  "groupchat_loop [] m c = (c, [])"
| "groupchat_loop (j # js) m c =
     (let m = m\<lparr>m_to := j\<rparr>;
          c = (if m_subject m \<noteq> [] then c\<lparr>c_subject := Some m\<rparr> else c)
      in if m_subject m \<noteq> [] \<and> \<not> c_sentInitialPresence c then (c, [])
         else let (c, out) = groupchat_loop js m c in (c, SendMessage m # out))"

definition handleRawMessage :: "cenv \<Rightarrow> message \<Rightarrow> conv \<Rightarrow> conv \<times> effect list" where
  "handleRawMessage e m c =
     (if m_type m \<noteq> Groupchat
      then if ce_server e \<and> ce_cacheMessages e then (cacheMessage e m c, [])
           else (c, [SendMessage m])
      else if c_jids c = [] then (cacheMessage e m c, [])
      else groupchat_loop (c_jids c) m c)"

definition forwardAsCarbonReceived :: "cenv \<Rightarrow> message \<Rightarrow> jid \<Rightarrow> conv \<Rightarrow> conv \<times> effect list" where
  "forwardAsCarbonReceived e payload to c =
     handleRawMessage e
       (add_payload HintNoCopyP (add_payload (CarbonsReceivedP (forward_of payload))
          (empty_message\<lparr>m_type := m_type payload, m_from := jid_bare (c_jid c), m_to := to\<rparr>))) c"

definition forwardImpersonated :: "cenv \<Rightarrow> message \<Rightarrow> jid \<Rightarrow> conv \<Rightarrow> conv \<times> effect list" where
  "forwardImpersonated e payload server c =
     handleRawMessage e
       (add_payload (PrivilegeP (forward_of payload))
          (empty_message\<lparr>m_type := Normal, m_from := cf_jid (ce_cf e), m_to := server\<rparr>)) c"

definition forwardAsCarbonSent :: "cenv \<Rightarrow> message \<Rightarrow> jid \<Rightarrow> conv \<Rightarrow> conv \<times> effect list" where
  "forwardAsCarbonSent e payload to c =
     (let m = add_payload HintNoCopyP (add_payload (CarbonsSentP (forward_of payload))
                (empty_message\<lparr>m_type := m_type payload, m_from := jid_bare (c_jid c), m_to := to\<rparr>))
      in if ce_server e then handleRawMessage e m c
         else forwardImpersonated e m (sw_jid (ce_sw e) [] (jid_domain (m_from m)) None) c)"

definition getDeliveryJID :: "cenv \<Rightarrow> conv \<Rightarrow> jid" where
  "getDeliveryJID e c =
     (if jid_isBare (c_jid c)
      then (case getHighestPriorityPresence (ce_sw e) (ce_orc e) (jid_bare (c_jid c)) of
              Some h \<Rightarrow> pr_from h
            | None \<Rightarrow> c_jid c)
      else c_jid c)"

definition forwardReceivedCopies :: "cenv \<Rightarrow> message \<Rightarrow> jid \<Rightarrow> conv \<Rightarrow> conv \<times> effect list" where
  "forwardReceivedCopies e copy delivered c =
     run_all (\<lambda>p c. if pr_from p = delivered then (c, []) else forwardAsCarbonReceived e copy (pr_from p) c)
       (getAllPresence (ce_orc e) (jid_bare (c_jid c))) c"

text \<open>The first half of \<open>handleMessage\<close>: type, recipient and sender of a message from the legacy network.\<close>

definition incoming_type :: "cenv \<Rightarrow> message \<Rightarrow> conv \<Rightarrow> mtype" where
  "incoming_type e m c =
     (if c_muc c then Groupchat
      else if m_type m = Headline \<and> ce_setting e ''send_headlines'' = ''1'' then Headline
      else Chat)"

definition incoming_from :: "cenv \<Rightarrow> string \<Rightarrow> conv \<Rightarrow> jid \<times> effect list" where
  "incoming_from e nickname c =
     (let n = (if nickname = [] \<and> c_room c \<noteq> [] then c_nickname c else nickname)
      in if n = []
         then ((case ce_buddyJID e (c_legacyName c) of
                  Some j \<Rightarrow> j
                | None \<Rightarrow>
                    comp_jid e
                      (if dflt (cf_jid_escaping (ce_cf e)) True
                       then sw_escape (ce_sw e) (c_legacyName c)
                       else replace_last CHR ''@'' CHR ''%'' (c_legacyName c)) ''bot''),
               [GetBuddy (c_legacyName c)])
         else if c_room c = [] then (comp_jid e n ''user'', [])
         else (comp_jid e (room_node (ce_sw e) (c_mucEscaping c) (c_room c)) n, []))"

definition incoming_muc_from :: "cenv \<Rightarrow> string \<Rightarrow> conv \<Rightarrow> jid" where
  "incoming_muc_from e nickname c =
     (let n = (if nickname = [] then '' '' else nickname);
          n = (case smap_get (c_participants c) n of
                 Some (_, alias) \<Rightarrow> if alias \<noteq> [] then alias else n
               | None \<Rightarrow> n)
      in comp_jid e (room_node (ce_sw e) (c_mucEscaping c) (c_legacyName c)) n)"

definition handleMessage :: "cenv \<Rightarrow> message \<Rightarrow> string \<Rightarrow> bool \<Rightarrow> conv \<Rightarrow> conv \<times> effect list" where
  "handleMessage e m nickname carbon c =
     (let m = m\<lparr>m_type := incoming_type e m c\<rparr>;
          (m, o1) = (if m_type m \<noteq> Groupchat
                     then let (from, o1) = incoming_from e nickname c
                          in (m\<lparr>m_to := c_jid c, m_from := from\<rparr>, o1)
                     else (m\<lparr>m_from := incoming_muc_from e nickname c\<rparr>, []));
          presences = getAllPresence (ce_orc e) (jid_bare (c_jid c))
      in if carbon
         then let m = m\<lparr>m_to := m_from m, m_from := jid_bare (m_to m)\<rparr>;
                  (c, o2) = (if presences = [] then forwardAsCarbonSent e m (jid_bare (c_jid c)) c
                             else run_all (\<lambda>p. forwardAsCarbonSent e m (pr_from p)) presences c)
              in (c, o1 @ o2)
         else let (c, o2) = handleRawMessage e m c;
                  (c, o3) = (if ce_server e \<and> \<not> c_muc c \<and> m_type m \<noteq> Groupchat
                             then forwardReceivedCopies e m (getDeliveryJID e c) c else (c, []))
              in (c, o1 @ o2 @ o3))"

definition getParticipants :: "conv \<Rightarrow> string" where
  "getParticipants c = concat (map (\<lambda>(n, p, a). jid_resource (pr_from p) @ '', '') (c_participants c))"

text \<open>\<open>generatePresence\<close>: the presence of an occupant, or the error that ends our stay in the room.\<close>

definition room_error :: "conv \<Rightarrow> string \<Rightarrow> int \<Rightarrow> string \<Rightarrow> payload option" where
  "room_error c nickname flag statusMessage =
     (if c_nickname c \<noteq> nickname then None
      else if flag AND FLAG_CONFLICT \<noteq> 0 then Some (ErrorP Conflict [])
      else if flag AND FLAG_NOT_AUTHORIZED \<noteq> 0 then Some (ErrorP NotAuthorized statusMessage)
      else if flag AND FLAG_ROOM_NOT_FOUND \<noteq> 0 then Some (ErrorP ItemNotFound statusMessage)
      else None)"

definition generatePresence ::
  "cenv \<Rightarrow> string \<Rightarrow> int \<Rightarrow> int \<Rightarrow> string \<Rightarrow> string \<Rightarrow> string \<Rightarrow> conv \<Rightarrow> conv \<times> presence" where
  "generatePresence e nickname flag status statusMessage newname iconhash c =
     (let node = (if c_muc c then room_node (ce_sw e) (c_mucEscaping c) (c_legacyName c) else c_legacyName c);
          p = (mk_presence jid_none (comp_jid e node nickname)
                 (if status = Show_None then Unavailable else Available))
              \<lparr>pr_status := statusMessage, pr_show := status\<rparr>
      in case room_error c nickname flag statusMessage of
           Some err \<Rightarrow> (c, pr_add_payload err (pr_add_payload (MUCP None) (p\<lparr>pr_type := Error\<rparr>)))
         | None \<Rightarrow>
             (let own = (c_nickname c = nickname);
                  codes = (if own then 110 # (if c_nicknameChanged c then [210] else []) else [])
                          @ (if newname \<noteq> [] then [303] else []);
                  c = (if own then c\<lparr>c_nicknameChanged := False, c_sentInitialPresence := True\<rparr> else c);
                  item = (if flag AND FLAG_MODERATOR \<noteq> 0 then MUCItem Admin Moderator newname [] []
                          else MUCItem Member Participant newname [] []);
                  p = (if newname \<noteq> [] then p\<lparr>pr_type := Unavailable\<rparr> else p);
                  p = (if iconhash \<noteq> [] then pr_add_payload (VCardUpdateP iconhash) p else p)
              in (c, pr_add_payload (MUCUserP [item] codes) p)))"

definition sendParticipants :: "cenv \<Rightarrow> jid \<Rightarrow> string \<Rightarrow> conv \<Rightarrow> conv \<times> effect list" where
  "sendParticipants e to nickname c =
     (let (c, o1) =
            (if c_nickname c \<noteq> nickname \<and> nickname \<noteq> []
             then let tmp = c_nickname c;
                      (c, p1) = generatePresence e nickname 0 Show_Online [] [] [] (c\<lparr>c_nickname := nickname\<rparr>);
                      (c, p2) = generatePresence e nickname 0 Show_Online [] tmp [] (c\<lparr>c_nicknameChanged := True\<rparr>)
                  in (c, [SendPresence (p1\<lparr>pr_to := to\<rparr>), SendPresence (p2\<lparr>pr_to := to\<rparr>)])
             else (c, []));
          (c, p) = generatePresence e (c_nickname c) 0 Show_Online [] [] [] c;
          ps = map (\<lambda>(n, p, a). (n, p\<lparr>pr_to := to\<rparr>, a)) (c_participants c)
      in (c\<lparr>c_participants := ps\<rparr>,
          o1 @ [SendPresence (p\<lparr>pr_to := to\<rparr>)] @ map (\<lambda>(n, p, a). SendPresence p) ps))"

definition sendCachedMessages :: "cenv \<Rightarrow> jid \<Rightarrow> conv \<Rightarrow> conv \<times> effect list" where
  "sendCachedMessages e to c =
     (let dest = (if sw_valid (ce_sw e) to then to else jid_bare (c_jid c));
          subj = map_option (\<lambda>m. m\<lparr>m_to := dest\<rparr>) (c_subject c)
      in (c\<lparr>c_cachedMessages := [], c_subject := subj\<rparr>,
          map (\<lambda>m. SendMessage (m\<lparr>m_to := dest\<rparr>)) (c_cachedMessages c)
          @ (case subj of None \<Rightarrow> [] | Some m \<Rightarrow> [SendMessage m])))"

definition setNickname :: "string \<Rightarrow> conv \<Rightarrow> conv" where
  "setNickname nickname c =
     c\<lparr>c_nicknameChanged := (c_nicknameChanged c \<or> (nickname \<noteq> [] \<and> c_nickname c \<noteq> nickname)),
       c_nickname := nickname\<rparr>"

definition conv_handleRawPresence :: "presence \<Rightarrow> conv \<Rightarrow> conv \<times> effect list" where
  "conv_handleRawPresence p c =
     (let n = jid_resource (pr_from p);
          alias = (case smap_get (c_participants c) n of Some (_, a) \<Rightarrow> a | None \<Rightarrow> [])
      in (c\<lparr>c_participants := smap_put n (p, alias) (c_participants c)\<rparr>, [SendPresence p]))"

definition removeJID :: "cenv \<Rightarrow> jid \<Rightarrow> conv \<Rightarrow> conv \<times> effect list" where
  "removeJID e j c =
     (let (c, out) =
            (if c_muc c
             then let (c, p) = generatePresence e (c_nickname c) 0 Show_None [] [] [] c
                  in (c, [SendPresence (p\<lparr>pr_to := j\<rparr>)])
             else (c, []))
      in (c\<lparr>c_jids := removeAll j (c_jids c)\<rparr>, out))"

text \<open>
  \<open>handleParticipantChanged\<close>. The flag of the result says that the call ended with
  \<open>leaveRoom(m_legacyName)\<close>, which deletes the conversation; \<open>None\<close> is the case where the
  nested call for the new name has done so and the outer one goes on with the deleted object.
\<close>

definition participant_step ::
  "cenv \<Rightarrow> string \<Rightarrow> int \<Rightarrow> int \<Rightarrow> string \<Rightarrow> string \<Rightarrow> string \<Rightarrow> string \<Rightarrow> conv
   \<Rightarrow> conv \<times> effect list \<times> bool" where
  "participant_step e nick flag status statusMessage newname iconhash alias c =
     (let (c, p) = generatePresence e (if alias = [] then nick else alias) flag status statusMessage
                     newname iconhash c;
          stored = (if c_jids c = [] then p else p\<lparr>pr_to := last (c_jids c)\<rparr>);
          c = c\<lparr>c_participants :=
                  (if pr_type p = Unavailable then smap_del nick (c_participants c)
                   else smap_put nick (stored, alias) (c_participants c))\<rparr>
      in (c, map (\<lambda>j. SendPresence (p\<lparr>pr_to := j\<rparr>)) (c_jids c), pr_type p = Error))"

definition flush_subject :: "conv \<Rightarrow> conv \<times> effect list" where
  "flush_subject c =
     (case c_subject c of
        Some m \<Rightarrow> if c_sentInitialPresence c \<and> \<not> c_sentInitialSubject c
                   then (c\<lparr>c_sentInitialSubject := True\<rparr>, [SendMessage m]) else (c, [])
      | None \<Rightarrow> (c, []))"

function handleParticipantChanged ::
  "cenv \<Rightarrow> string \<Rightarrow> int \<Rightarrow> int \<Rightarrow> string \<Rightarrow> string \<Rightarrow> string \<Rightarrow> string \<Rightarrow> conv
   \<Rightarrow> (conv \<times> effect list \<times> bool) option" where
  "handleParticipantChanged e nick flag status statusMessage newname iconhash alias c =
     (case participant_step e nick flag status statusMessage newname iconhash alias c of
        (c1, o1, leave) \<Rightarrow>
          (case (if newname \<noteq> []
                 then handleParticipantChanged e newname flag status statusMessage [] iconhash [] c1
                 else Some (c1, [], False)) of
             None \<Rightarrow> None
           | Some (c2, o2, True) \<Rightarrow> None
           | Some (c2, o2, False) \<Rightarrow>
               (case flush_subject c2 of (c3, o3) \<Rightarrow> Some (c3, o1 @ o2 @ o3, leave))))"
  by pat_completeness auto
termination
  by (relation "measure (\<lambda>(e, nick, flag, status, sm, newname, ih, alias, c). length newname)") auto

declare handleParticipantChanged.simps [simp del]

section \<open>The conversations of a user\<close>

type_synonym convs = "(string, conv) smap"

text \<open>\<open>getConversation\<close>: the key of the conversation that is found.\<close>

function getConversation :: "convs \<Rightarrow> string \<Rightarrow> string option" where
  "getConversation cs name =
     (if smap_get cs name \<noteq> None then Some name
      else case find_char CHR ''/'' name of
             None \<Rightarrow> None
           | Some i \<Rightarrow>
               if getConversation cs (take i name) = None then None
               else getConversation cs (drop (i + 1) name))"
  by pat_completeness auto

termination getConversation
  by (relation "measure (\<lambda>(cs, name). length name)") (auto dest: find_char_SomeD)

declare getConversation.simps [simp del]

definition addConversation :: "conv \<Rightarrow> convs \<Rightarrow> convs" where
  "addConversation c cs = smap_put (c_legacyName c) c cs"

text \<open>
  \<open>removeConversation\<close> with the \<open>delete\<close> of \<open>User::leaveRoom\<close>; \<open>key\<close> is where the conversation is
  stored. \<open>None\<close>: it is not stored under its name, and the list keeps the deleted pointer.
\<close>

definition name_at :: "string \<Rightarrow> convs \<Rightarrow> string" where
  "name_at key cs = (case smap_get cs key of Some c \<Rightarrow> c_legacyName c | None \<Rightarrow> [])"

definition unroom :: "string \<Rightarrow> string \<Rightarrow> convs \<Rightarrow> convs" where
  "unroom key k cs =
     (case smap_get cs k of
        Some c \<Rightarrow> if c_room c = name_at key cs then smap_put k (setRoom [] c) cs else cs
      | None \<Rightarrow> cs)"

definition removeConversation :: "string \<Rightarrow> convs \<Rightarrow> convs option" where
  "removeConversation key cs =
     (let cs = fold (unroom key) (map fst cs) cs
      in if name_at key cs = key then Some (smap_del key cs) else None)"

definition sendCachedChatMessages :: "cenv \<Rightarrow> convs \<Rightarrow> convs \<times> effect list" where
  "sendCachedChatMessages e cs =
     (let rs = map (\<lambda>(k, c). (k, if c_muc c then (c, []) else sendCachedMessages e jid_none c)) cs
      in (map (\<lambda>(k, c, out). (k, c)) rs, concat (map (\<lambda>(k, c, out). out) rs)))"

definition deleteAllConversations :: "cenv \<Rightarrow> convs \<Rightarrow> convs \<times> effect list" where
  "deleteAllConversations e cs = ([], concat (map (\<lambda>(k, c). destroyRoom e c) cs))"

definition resetResources :: "cenv \<Rightarrow> convs \<Rightarrow> convs" where
  "resetResources e cs =
     map (\<lambda>(k, c). (k, if c_muc c then c else c\<lparr>c_jid := jid_bare (ce_userJID e)\<rparr>)) cs"

text \<open>
  \<open>ConversationManager::removeJID\<close>: the rooms nobody is in any more are returned in the order in
  which \<open>leaveRoom\<close> is called for them, from the last to the first.
\<close>

definition convs_removeJID :: "cenv \<Rightarrow> jid \<Rightarrow> convs \<Rightarrow> convs \<times> effect list \<times> string list" where
  "convs_removeJID e j cs =
     (let rs = map (\<lambda>(k, c). (k, if k = [] then (c, []) else removeJID e j c)) cs;
          empty = map fst (filter (\<lambda>(k, c, out). k \<noteq> [] \<and> c_jids c = [] \<and> c_muc c) rs)
      in (map (\<lambda>(k, c, out). (k, c)) rs, concat (map (\<lambda>(k, c, out). out) rs),
          if ce_setting e ''stay_connected'' \<noteq> ''1'' then rev empty else []))"

definition clearJIDs :: "convs \<Rightarrow> convs" where
  "clearJIDs cs = map (\<lambda>(k, c). (k, c\<lparr>c_jids := []\<rparr>)) cs"

text \<open>
  \<open>ConversationManager::handleMessageReceived\<close>: a message of the user is handed to the
  conversation it belongs to, which is created if necessary.
\<close>

definition convs_handleMessageReceived :: "cenv \<Rightarrow> message \<Rightarrow> convs \<Rightarrow> convs \<times> effect list" where
  "convs_handleMessageReceived e m cs =
     (let name = JIDToLegacyName (ce_sw e) (ce_names e) (m_to m)
      in if name = [] then (cs, [GetBuddy (node_to_legacy (ce_sw e) (jid_node (m_to m)))])
         else
          let (name, cs) =
                (case smap_get cs name of
                   None \<Rightarrow> (name, addConversation (new_Conversation e name False) cs)
                 | Some c \<Rightarrow>
                     if c_muc c \<and> m_type m \<noteq> Groupchat
                     then let pm = name @ ''/'' @ jid_resource (m_to m)
                          in (pm, if smap_get cs pm = None
                                  then addConversation (setNickname pm (setRoom name
                                         (new_Conversation e (jid_resource (m_to m)) False))) cs
                                  else cs)
                     else (name, cs))
          in case smap_get cs name of
               None \<Rightarrow> (cs, [])
             | Some c \<Rightarrow> (smap_put name (c\<lparr>c_jid := m_from m\<rparr>) cs,
                           [GetBuddy (node_to_legacy (ce_sw e) (jid_node (m_to m))), OnMessageToSend name m]))"

section \<open>Invariant\<close>

text \<open>At most a hundred messages wait, and the participants are a map.\<close>

definition conv_ok :: "conv \<Rightarrow> bool" where
  "conv_ok c \<longleftrightarrow> length (c_cachedMessages c) \<le> 100 \<and> smap_ok (c_participants c)"

text \<open>Every conversation is well-formed and every room is stored under its name.\<close>

definition convs_ok :: "convs \<Rightarrow> bool" where
  "convs_ok cs \<longleftrightarrow> smap_ok cs
     \<and> (\<forall>k c. smap_get cs k = Some c \<longrightarrow> conv_ok c \<and> (c_muc c \<longrightarrow> c_legacyName c = k \<and> c_room c = []))"

section \<open>Facts on one conversation\<close>

lemma conv_ok_cacheMessage [inv_intros]: "conv_ok c \<Longrightarrow> conv_ok (cacheMessage e m c)"
  by (auto simp: conv_ok_def cacheMessage_def Let_def)

lemma groupchat_loop_sel [simp]:
  "c_cachedMessages (fst (groupchat_loop js m c)) = c_cachedMessages c"
  "c_participants (fst (groupchat_loop js m c)) = c_participants c"
  "c_legacyName (fst (groupchat_loop js m c)) = c_legacyName c"
  "c_room (fst (groupchat_loop js m c)) = c_room c"
  "c_muc (fst (groupchat_loop js m c)) = c_muc c"
  by (induction js arbitrary: m c) (simp_all add: Let_def prod.case_eq_if)

lemma conv_ok_handleRawMessage [inv_intros]: "conv_ok c \<Longrightarrow> conv_ok (fst (handleRawMessage e m c))"
  by (simp add: handleRawMessage_def conv_ok_cacheMessage) (simp add: conv_ok_def)

text \<open>The fields that identify a conversation do not change when messages pass through it.\<close>

definition same_conv :: "conv \<Rightarrow> conv \<Rightarrow> bool" where
  "same_conv c d \<longleftrightarrow> c_legacyName d = c_legacyName c \<and> c_room d = c_room c \<and> c_muc d = c_muc c"

lemma same_conv_refl [simp]: "same_conv c c"
  by (simp add: same_conv_def)

lemma same_conv_trans: "same_conv c d \<Longrightarrow> same_conv d f \<Longrightarrow> same_conv c f"
  by (simp add: same_conv_def)

lemma same_conv_handleRawMessage [simp]: "same_conv c (fst (handleRawMessage e m c))"
  by (simp add: handleRawMessage_def same_conv_def cacheMessage_def Let_def)

definition keeps :: "(conv \<Rightarrow> conv \<times> effect list) \<Rightarrow> bool" where
  "keeps f \<longleftrightarrow> (\<forall>c. same_conv c (fst (f c)) \<and> (conv_ok c \<longrightarrow> conv_ok (fst (f c))))"

lemma keepsD:
  "keeps f \<Longrightarrow> same_conv c (fst (f c))"
  "keeps f \<Longrightarrow> conv_ok c \<Longrightarrow> conv_ok (fst (f c))"
  by (simp_all add: keeps_def)

lemma keeps_handleRawMessage: "keeps (handleRawMessage e m)"
  by (simp add: keeps_def inv_intros)

lemma keeps_carbonReceived: "keeps (forwardAsCarbonReceived e m j)"
  by (simp add: keeps_def forwardAsCarbonReceived_def inv_intros)

lemma keeps_carbonSent: "keeps (forwardAsCarbonSent e m j)"
  by (simp add: keeps_def forwardAsCarbonSent_def forwardImpersonated_def Let_def inv_intros)

lemma keeps_skip: "keeps f \<Longrightarrow> keeps (\<lambda>c. if b then (c, []) else f c)"
  by (simp add: keeps_def)

lemma keeps_run_all:
  assumes "\<And>x. keeps (f x)"
  shows "keeps (run_all f xs)"
proof (induction xs)
  case Nil
  show ?case by (simp add: keeps_def)
next
  case (Cons x xs)
  show ?case
    unfolding keeps_def
    by (auto simp: Let_def prod.case_eq_if intro: keepsD [OF Cons] keepsD [OF assms]
        same_conv_trans [OF keepsD(1) [OF assms]])
qed

lemma keeps_receivedCopies: "keeps (forwardReceivedCopies e m j)"
  unfolding keeps_def forwardReceivedCopies_def
  by (intro allI conjI impI keepsD) (auto intro!: keeps_run_all keeps_skip keeps_carbonReceived)

lemmas keeps_facts = keepsD [OF keeps_handleRawMessage] keepsD [OF keeps_receivedCopies]
  keepsD [OF keeps_carbonSent] keepsD [OF keeps_run_all [of "\<lambda>p. forwardAsCarbonSent e m (pr_from p)" for e m],
    OF keeps_carbonSent]

lemma keeps_handleMessage: "keeps (handleMessage e m nickname carbon)"
  unfolding keeps_def handleMessage_def Let_def prod.case_eq_if
  by (auto intro: keeps_facts same_conv_trans [OF keepsD(1) [OF keeps_handleRawMessage]])

lemma generatePresence_sel [simp]:
  "c_cachedMessages (fst (generatePresence e n f s sm nn ih c)) = c_cachedMessages c"
  "c_participants (fst (generatePresence e n f s sm nn ih c)) = c_participants c"
  "c_jids (fst (generatePresence e n f s sm nn ih c)) = c_jids c"
  "c_nickname (fst (generatePresence e n f s sm nn ih c)) = c_nickname c"
  "c_subject (fst (generatePresence e n f s sm nn ih c)) = c_subject c"
  "c_legacyName (fst (generatePresence e n f s sm nn ih c)) = c_legacyName c"
  "c_room (fst (generatePresence e n f s sm nn ih c)) = c_room c"
  "c_muc (fst (generatePresence e n f s sm nn ih c)) = c_muc c"
  "c_sentInitialSubject (fst (generatePresence e n f s sm nn ih c)) = c_sentInitialSubject c"
  by (auto simp: generatePresence_def Let_def split: option.splits)

text \<open>The type of a generated presence decides what happens to the participant.\<close>

lemma generatePresence_type:
  "pr_type (snd (generatePresence e n f s sm nn ih c)) =
     (if room_error c n f sm \<noteq> None then Error
      else if s = Show_None \<or> nn \<noteq> [] then Unavailable else Available)"
  by (auto simp: generatePresence_def Let_def pr_add_payload_def split: option.splits)

lemma keeps_removeJID: "keeps (removeJID e j)"
  by (auto simp: keeps_def removeJID_def Let_def prod.case_eq_if same_conv_def conv_ok_def)

lemma keeps_sendCachedMessages: "keeps (sendCachedMessages e j)"
  by (auto simp: keeps_def sendCachedMessages_def Let_def same_conv_def conv_ok_def)

lemma smap_ok_retarget [simp]: "smap_ok (map (\<lambda>(n, p, a). (n, p\<lparr>pr_to := j\<rparr>, a)) m) = smap_ok m"
  by (simp add: smap_ok_def comp_def case_prod_beta)

lemma keeps_sendParticipants: "keeps (sendParticipants e j n)"
  by (simp add: keeps_def sendParticipants_def Let_def prod.case_eq_if same_conv_def conv_ok_def)

lemma conv_ok_participant_step [inv_intros]:
  "conv_ok c \<Longrightarrow> conv_ok (fst (participant_step e n f s sm nn ih al c))"
  by (auto simp: participant_step_def Let_def prod.case_eq_if conv_ok_def intro: smap_ok_put smap_ok_del)

lemma conv_ok_flush_subject [inv_intros]: "conv_ok c \<Longrightarrow> conv_ok (fst (flush_subject c))"
  by (auto simp: flush_subject_def conv_ok_def split: option.splits)

lemma conv_ok_handleParticipantChanged:
  "handleParticipantChanged e n f s sm nn ih al c = Some (c', out, l) \<Longrightarrow> conv_ok c \<Longrightarrow> conv_ok c'"
proof (induction e n f s sm nn ih al c arbitrary: c' out l rule: handleParticipantChanged.induct)
  case (1 e n f s sm nn ih al c)
  have step: "conv_ok (fst (participant_step e n f s sm nn ih al c))"
    by (rule conv_ok_participant_step) (rule 1)
  show ?case
  proof (cases "nn = []")
    case True
    then show ?thesis
      using 1(2) conv_ok_flush_subject [OF step]
      by (subst (asm) handleParticipantChanged.simps) (auto split: prod.splits)
  next
    case False
    then show ?thesis
      using 1(2) step
      by (subst (asm) handleParticipantChanged.simps)
        (auto split: prod.splits option.splits bool.splits dest: 1(1) conv_ok_flush_subject,
         metis 1(1) conv_ok_flush_subject fst_conv)
  qed
qed

section \<open>The cache of undelivered messages\<close>

lemma cacheMessage_take:
  "c_cachedMessages (cacheMessage e m c) =
     (let l = c_cachedMessages c @ [add_payload (DelayP (ce_now e)) m] in
      if length l > 100 then tl l else l)"
  by (simp add: cacheMessage_def Let_def)

text \<open>
  C15: Of the messages that arrive while nobody is there to receive them, a new conversation keeps
  exactly the last hundred, in order, each with the time it was stored.
\<close>

theorem cache_keeps_last_hundred:
  "c_cachedMessages (fold (cacheMessage e) ms (new_Conversation e n muc)) =
     map (add_payload (DelayP (ce_now e))) (drop (length ms - 100) ms)"
proof (induction ms rule: rev_induct)
  case Nil
  show ?case by (simp add: new_Conversation_def)
next
  case (snoc m ms)
  show ?case
  proof (cases "length ms < 100")
    case True
    with snoc show ?thesis by (simp add: cacheMessage_take Let_def)
  next
    case False
    then have "Suc (length ms) - 100 = Suc (length ms - 100)" by simp
    then have "drop (Suc (length ms) - 100) (ms @ [m]) = tl (drop (length ms - 100) ms) @ [m]"
      using False by (simp add: drop_Suc tl_drop)
    moreover have "drop (length ms - 100) ms \<noteq> []" using False by simp
    ultimately show ?thesis
      using snoc False by (simp add: cacheMessage_take Let_def map_tl)
  qed
qed

section \<open>Delivery of an incoming message\<close>

text \<open>The addresses messages are sent to, in order.\<close>

fun recipients :: "effect list \<Rightarrow> jid list" where
  "recipients [] = []"
| "recipients (SendMessage m # out) = m_to m # recipients out"
| "recipients (_ # out) = recipients out"

lemma recipients_append [simp]: "recipients (a @ b) = recipients a @ recipients b"
  by (induction a rule: recipients.induct) auto

lemma recipients_concat: "recipients (concat xs) = concat (map recipients xs)"
  by (induction xs) auto

lemma recipients_incoming_from [simp]: "recipients (snd (incoming_from e n c)) = []"
  by (simp add: incoming_from_def Let_def)

lemma carbonReceived_direct:
  assumes "\<not> ce_cacheMessages e" and "m_type m \<noteq> Groupchat"
  shows "\<exists>x. forwardAsCarbonReceived e m j c = (c, [SendMessage x]) \<and> m_to x = j"
  using assms by (simp add: forwardAsCarbonReceived_def handleRawMessage_def add_payload_def)

lemma receivedCopies_direct:
  assumes "\<not> ce_cacheMessages e" and "m_type m \<noteq> Groupchat"
  shows "fst (forwardReceivedCopies e m j c) = c
    \<and> recipients (snd (forwardReceivedCopies e m j c))
      = filter (\<lambda>x. x \<noteq> j) (map pr_from (getAllPresence (ce_orc e) (jid_bare (c_jid c))))"
proof -
  define g where "g p = (if pr_from p = j then [] else snd (forwardAsCarbonReceived e m (pr_from p) c))"
    for p :: presence
  have run: "run_all (\<lambda>p c. if pr_from p = j then (c, []) else forwardAsCarbonReceived e m (pr_from p) c) ps c
      = (c, concat (map g ps))" for ps :: "presence list"
  proof (rule run_all_stateless)
    show "(if pr_from x = j then (c, []) else forwardAsCarbonReceived e m (pr_from x) c) = (c, g x)" for x
      using carbonReceived_direct [OF assms, of "pr_from x" c] by (auto simp: g_def)
  qed
  have "recipients (g p) = (if pr_from p = j then [] else [pr_from p])" for p
    using carbonReceived_direct [OF assms, of "pr_from p" c] by (auto simp: g_def)
  then have "recipients (concat (map g ps)) = filter (\<lambda>x. x \<noteq> j) (map pr_from ps)" for ps
    by (induction ps) auto
  then show ?thesis unfolding forwardReceivedCopies_def run by simp
qed


definition witness_cenv :: cenv where
  "witness_cenv = \<lparr>ce_sw = witness_sw,
     ce_cf = \<lparr>cf_jid = JID [] ''gw'' None, cf_server_mode = Some True, cf_jid_escaping = None,
       cf_rawxml = None, cf_send_buddies_on_login = None, cf_needRegistration = None,
       cf_needPassword = None, cf_auto_register = False, cf_vip_only = False, cf_vip_message = [],
       cf_enable_remove_buddy = True, cf_more_resources = True, cf_enable_xhtml = True,
       cf_reuse_old_backends = True, cf_users_per_backend = 10, cf_login_delay = 0,
       cf_idle_reconnect_time = 0, cf_admin_jid = [], cf_admin_password = []\<rparr>,
     ce_userJID = JID ''u'' ''x'' None, ce_setting = (\<lambda>_. []), ce_cacheMessages = False,
     ce_buddyJID = (\<lambda>_. None), ce_names = (\<lambda>_. None),
     ce_orc = [(JID ''u'' ''x'' None,
       [(JID ''u'' ''x'' (Some ''a''), mk_presence (JID [] ''gw'' None) (JID ''u'' ''x'' (Some ''a'')) Available),
        (JID ''u'' ''x'' (Some ''b''), mk_presence (JID [] ''gw'' None) (JID ''u'' ''x'' (Some ''b'')) Available)])],
     ce_now = 0\<rparr>"


section \<open>Rooms\<close>

text \<open>The nicknames the room is known to hold.\<close>

definition occupants :: "conv \<Rightarrow> string set" where
  "occupants c = dom (smap_get (c_participants c))"

lemma participant_step_unfold:
  "participant_step e n f s sm nn ih al c = (c', out, leave) \<Longrightarrow>
     c_jids c' = c_jids c \<and> c_nickname c' = c_nickname c \<and> c_subject c' = c_subject c
     \<and> c_sentInitialSubject c' = c_sentInitialSubject c
     \<and> leave = (room_error c (if al = [] then n else al) f sm \<noteq> None)
     \<and> occupants c' = (if leave \<or> (s \<noteq> Show_None \<and> nn = []) then insert n (occupants c) else occupants c - {n})"
  by (auto simp: participant_step_def Let_def prod.case_eq_if generatePresence_type occupants_def
      smap_get_put smap_get_del split: if_splits)

lemma flush_subject_sel [simp]:
  "c_participants (fst (flush_subject c)) = c_participants c"
  by (simp add: flush_subject_def split: option.splits)

lemma handleParticipantChanged_plain:
  "handleParticipantChanged e n f s sm [] ih al c =
     (let (c1, o1, leave) = participant_step e n f s sm [] ih al c; (c2, o2) = flush_subject c1
      in Some (c2, o1 @ o2, leave))"
  by (subst handleParticipantChanged.simps) (simp add: prod.case_eq_if Let_def)

lemma handleParticipantChanged_rename:
  assumes "nn \<noteq> []" and "participant_step e n f s sm nn ih al c = (c1, o1, leave)"
    and "handleParticipantChanged e nn f s sm [] ih [] c1 = Some (c2, o2, False)"
  shows "handleParticipantChanged e n f s sm nn ih al c =
     (let (c3, o3) = flush_subject c2 in Some (c3, o1 @ o2 @ o3, leave))"
  using assms by (subst handleParticipantChanged.simps) (simp add: prod.case_eq_if Let_def)





section \<open>The list of conversations\<close>

lemma getConversation_stored: "getConversation cs n = Some k \<Longrightarrow> smap_get cs k \<noteq> None"
proof (induction cs n rule: getConversation.induct)
  case (1 cs n)
  show ?case
  proof (cases "smap_get cs n = None")
    case True
    with 1(3) obtain i where i: "find_char CHR ''/'' n = Some i"
      and r: "getConversation cs (take i n) \<noteq> None" and k: "getConversation cs (drop (i + 1) n) = Some k"
      by (subst (asm) getConversation.simps) (auto split: option.splits if_splits)
    show ?thesis using 1(2) [OF _ i r k] True by simp
  next
    case False
    with 1(3) show ?thesis by (subst (asm) getConversation.simps) simp
  qed
qed

lemma find_char_decomp:
  "find_char a s = Some i \<longleftrightarrow> (\<exists>p q. s = p @ a # q \<and> a \<notin> set p \<and> i = length p)"
proof (induction s arbitrary: i)
  case (Cons x s)
  show ?case
  proof (cases "x = a")
    case True
    then show ?thesis by (auto simp: Cons_eq_append_conv)
  next
    case False
    then show ?thesis
      using Cons by (auto simp: Cons_eq_append_conv) fastforce+
  qed
qed simp

lemma split_first_unique:
  assumes "a \<notin> set p" and "a \<notin> set p'" and "p @ a # q = p' @ a # q'"
  shows "p = p' \<and> q = q'"
proof -
  have tw: "a \<notin> set p \<Longrightarrow> takeWhile (\<lambda>c. c \<noteq> a) (p @ a # q) = p" for p q
    by (induction p) auto
  have "p = p'" using tw [OF assms(1), of q] tw [OF assms(2), of q'] assms(3) by simp
  with assms(3) show ?thesis by simp
qed

text \<open>
  Looking up a private conversation: a name that is stored is found as it is; otherwise
  \<open>room/nick\<close> is looked up as \<open>nick\<close>, and only if the room itself is known.
\<close>

theorem getConversation_spec:
  "getConversation cs n = Some k \<longleftrightarrow>
     (smap_get cs n \<noteq> None \<and> k = n)
     \<or> (smap_get cs n = None \<and> (\<exists>room nick. n = room @ CHR ''/'' # nick \<and> CHR ''/'' \<notin> set room
          \<and> smap_get cs room \<noteq> None \<and> getConversation cs nick = Some k))"
proof -
  have plain: "getConversation cs room \<noteq> None \<longleftrightarrow> smap_get cs room \<noteq> None" if "CHR ''/'' \<notin> set room" for room
    using that by (subst getConversation.simps) (simp add: find_char_None_iff [THEN iffD2])
  show ?thesis
  proof (cases "smap_get cs n = None")
    case True
    show ?thesis
    proof (cases "CHR ''/'' \<in> set n")
      case sep: True
      then obtain room nick where n: "n = room @ CHR ''/'' # nick" and r: "CHR ''/'' \<notin> set room"
        by (metis split_list_first)
      then have i: "find_char CHR ''/'' n = Some (length room)"
        by (auto simp: find_char_decomp)
      have uniq: "room' = room \<and> nick' = nick" if "n = room' @ CHR ''/'' # nick'" "CHR ''/'' \<notin> set room'" for room' nick'
        by (rule split_first_unique [OF that(2) r]) (simp add: that(1) [symmetric] n [symmetric])
      have take: "take (length room) n = room" and drop: "drop (length room + 1) n = nick"
        by (simp_all add: n)
      have "getConversation cs n = (if getConversation cs room = None then None else getConversation cs nick)"
        using True i take drop by (subst getConversation.simps) simp
      then have "getConversation cs n = Some k \<longleftrightarrow> smap_get cs room \<noteq> None \<and> getConversation cs nick = Some k"
        using plain [OF r] by (cases "getConversation cs room") auto
      also have "\<dots> \<longleftrightarrow> (\<exists>room nick. n = room @ CHR ''/'' # nick \<and> CHR ''/'' \<notin> set room
          \<and> smap_get cs room \<noteq> None \<and> getConversation cs nick = Some k)"
        using n r uniq by blast
      finally show ?thesis using True by blast
    next
      case False
      have "find_char CHR ''/'' n = None" by (rule find_char_None_iff [THEN iffD2, OF False])
      then have "getConversation cs n = None"
        unfolding getConversation.simps [of cs n] True by (simp only: option.case if_False simp_thms)
      moreover have "\<nexists>room nick. n = room @ CHR ''/'' # nick" using False by auto
      ultimately show ?thesis using True by simp
    qed
  next
    case False
    then show ?thesis by (subst getConversation.simps) auto
  qed
qed

text \<open>
  What the list relies on: an operation on one conversation keeps its identity and its
  well-formedness.
\<close>

locale conv_operation =
  fixes f :: "conv \<Rightarrow> conv \<times> effect list"
  assumes keep: "keeps f"
begin

lemma update_ok: "convs_ok cs \<Longrightarrow> smap_get cs k = Some c \<Longrightarrow> convs_ok (smap_put k (fst (f c)) cs)"
  using keepsD [OF keep, of c]
  by (auto simp: convs_ok_def smap_get_put same_conv_def intro: smap_ok_put)

lemma update_all_ok:
  assumes "convs_ok cs"
  shows "convs_ok (map (\<lambda>(k, c). (k, if P k c then c else fst (f c))) cs)"
proof -
  have "smap_ok (map (\<lambda>(k, c). (k, if P k c then c else fst (f c))) cs)"
    using assms by (simp add: convs_ok_def smap_ok_def comp_def case_prod_beta)
  moreover have "smap_get (map (\<lambda>(k, c). (k, if P k c then c else fst (f c))) cs) k
      = map_option (\<lambda>c. if P k c then c else fst (f c)) (smap_get cs k)" for k
    by (induction cs) (auto simp: smap_get_Cons)
  ultimately show ?thesis
    using assms keepsD [OF keep] by (auto simp: convs_ok_def same_conv_def)
qed

end

interpretation hm: conv_operation "handleMessage e m nickname carbon" for e m nickname carbon
  by unfold_locales (rule keeps_handleMessage)

interpretation sp: conv_operation "sendParticipants e j nickname" for e j nickname
  by unfold_locales (rule keeps_sendParticipants)

interpretation sc: conv_operation "sendCachedMessages e j" for e j
  by unfold_locales (rule keeps_sendCachedMessages)

interpretation rj: conv_operation "removeJID e j" for e j
  by unfold_locales (rule keeps_removeJID)

interpretation sj: conv_operation "\<lambda>c. (c\<lparr>c_jid := j\<rparr>, [])" for j
  by unfold_locales (simp add: keeps_def same_conv_def conv_ok_def)

interpretation cj: conv_operation "\<lambda>c. (c\<lparr>c_jids := []\<rparr>, [])"
  by unfold_locales (simp add: keeps_def same_conv_def conv_ok_def)

lemma convs_ok_sendCachedChatMessages: "convs_ok cs \<Longrightarrow> convs_ok (fst (sendCachedChatMessages e cs))"
  using sc.update_all_ok [of cs "\<lambda>k c. c_muc c" e jid_none]
  by (simp add: sendCachedChatMessages_def Let_def comp_def split_def if_distrib [of fst] cong: if_cong)

lemma convs_ok_resetResources: "convs_ok cs \<Longrightarrow> convs_ok (resetResources e cs)"
  using sj.update_all_ok [of cs "\<lambda>k c. c_muc c" "jid_bare (ce_userJID e)"]
  by (simp add: resetResources_def cong: if_cong)

lemma convs_ok_removeJID: "convs_ok cs \<Longrightarrow> convs_ok (fst (convs_removeJID e j cs))"
  using rj.update_all_ok [of cs "\<lambda>k c. k = []" e j]
  by (simp add: convs_removeJID_def Let_def comp_def split_def if_distrib [of fst] cong: if_cong)

lemma convs_ok_clearJIDs: "convs_ok cs \<Longrightarrow> convs_ok (clearJIDs cs)"
  using cj.update_all_ok [of cs "\<lambda>k c. False"] by (simp add: clearJIDs_def)

lemma convs_ok_add:
  "convs_ok cs \<Longrightarrow> conv_ok c \<Longrightarrow> (c_muc c \<longrightarrow> c_room c = []) \<Longrightarrow> convs_ok (addConversation c cs)"
  by (auto simp: convs_ok_def addConversation_def smap_get_put intro: smap_ok_put)

lemma conv_ok_new [simp]: "conv_ok (new_Conversation e n muc)"
  by (simp add: conv_ok_def new_Conversation_def smap_ok_def)

text \<open>
  A message of the user is handed to exactly one conversation: the one of the contact, or, for a
  private message to an occupant of a room, the one of \<open>room/nick\<close>. The conversation exists
  afterwards, remembers the resource that wrote, and the list stays well-formed.
\<close>

theorem message_routed:
  assumes "convs_ok cs" and "JIDToLegacyName (ce_sw e) (ce_names e) (m_to m) \<noteq> []"
  shows "\<exists>cs' c. let name = JIDToLegacyName (ce_sw e) (ce_names e) (m_to m);
            pm = (\<exists>r. smap_get cs name = Some r \<and> c_muc r \<and> m_type m \<noteq> Groupchat);
            key = (if pm then name @ ''/'' @ jid_resource (m_to m) else name)
    in convs_handleMessageReceived e m cs
         = (cs', [GetBuddy (node_to_legacy (ce_sw e) (jid_node (m_to m))), OnMessageToSend key m])
       \<and> smap_get cs' key = Some c \<and> c_jid c = m_from m \<and> convs_ok cs'
       \<and> (\<forall>k. k \<noteq> key \<longrightarrow> smap_get cs' k = smap_get cs k)"
proof -
  define name where "name = JIDToLegacyName (ce_sw e) (ce_names e) (m_to m)"
  define pm where "pm = (\<exists>r. smap_get cs name = Some r \<and> c_muc r \<and> m_type m \<noteq> Groupchat)"
  define key where "key = (if pm then name @ ''/'' @ jid_resource (m_to m) else name)"
  define fresh where "fresh = (if pm then setNickname key (setRoom name (new_Conversation e (jid_resource (m_to m)) False))
    else new_Conversation e name False)"
  define cs1 where "cs1 = (if smap_get cs key = None then addConversation fresh cs else cs)"
  have fresh: "c_legacyName fresh = key" "conv_ok fresh" "\<not> c_muc fresh"
    by (auto simp: fresh_def key_def setNickname_def setRoom_def conv_ok_def new_Conversation_def smap_ok_def)
  have ok1: "convs_ok cs1" and other: "\<And>k. k \<noteq> key \<Longrightarrow> smap_get cs1 k = smap_get cs k"
    using assms(1) fresh convs_ok_add by (auto simp: cs1_def addConversation_def smap_get_put)
  obtain c where c: "smap_get cs1 key = Some c"
    using fresh by (cases "smap_get cs key") (auto simp: cs1_def addConversation_def smap_get_put)
  have "convs_handleMessageReceived e m cs
      = (smap_put key (c\<lparr>c_jid := m_from m\<rparr>) cs1,
         [GetBuddy (node_to_legacy (ce_sw e) (jid_node (m_to m))), OnMessageToSend key m])"
    using assms(2) c unfolding convs_handleMessageReceived_def name_def [symmetric] Let_def
    by (cases "smap_get cs name") (auto simp: pm_def key_def cs1_def fresh_def)
  moreover have "convs_ok (smap_put key (c\<lparr>c_jid := m_from m\<rparr>) cs1)"
    using sj.update_ok [OF ok1 c] by simp
  ultimately show ?thesis
    using other unfolding Let_def name_def [symmetric] pm_def [symmetric] key_def [symmetric]
    by (intro exI [of _ "smap_put key (c\<lparr>c_jid := m_from m\<rparr>) cs1"] exI [of _ "c\<lparr>c_jid := m_from m\<rparr>"])
      (simp add: smap_get_put)
qed

theorem message_routed_witness:
  "\<exists>cs'. convs_handleMessageReceived witness_cenv (empty_message\<lparr>m_to := JID ''bob'' ''gw'' None\<rparr>) []
     = (cs', [GetBuddy ''bob'', OnMessageToSend ''bob'' (empty_message\<lparr>m_to := JID ''bob'' ''gw'' None\<rparr>)])"
  using message_routed [of "[]" witness_cenv "empty_message\<lparr>m_to := JID ''bob'' ''gw'' None\<rparr>"]
  by (auto simp: convs_ok_def smap_ok_def witness_cenv_def witness_sw_def JIDToLegacyName_def
      node_to_legacy_def Let_def)

lemma fold_unroom:
  assumes "smap_get cs key = Some c" and "c_legacyName c = key" and "c_room c = []" and "key \<noteq> []"
  shows "smap_get (fold (unroom key) ks cs) k
      = (if k \<in> set ks then map_option (\<lambda>d. if c_room d = key then setRoom [] d else d) (smap_get cs k)
         else smap_get cs k)
    \<and> (smap_ok cs \<longrightarrow> smap_ok (fold (unroom key) ks cs))"
  using assms
proof (induction ks arbitrary: cs)
  case (Cons x ks)
  have nm: "name_at key cs = key" using Cons.prems by (simp add: name_at_def)
  have get: "smap_get (unroom key x cs) y = (if y = x
      then map_option (\<lambda>d. if c_room d = key then setRoom [] d else d) (smap_get cs y) else smap_get cs y)" for y
    by (auto simp: unroom_def nm smap_get_put split: option.splits)
  have ok: "smap_ok cs \<longrightarrow> smap_ok (unroom key x cs)"
    by (auto simp: unroom_def intro: smap_ok_put split: option.splits)
  have "smap_get (unroom key x cs) key = Some c" using Cons.prems get by auto
  note IH = Cons.IH [OF this Cons.prems(2-4)]
  have idem: "map_option (\<lambda>d. if c_room d = key then setRoom [] d else d)
      (map_option (\<lambda>d. if c_room d = key then setRoom [] d else d) v)
    = map_option (\<lambda>d. if c_room d = key then setRoom [] d else d) v" for v
    using Cons.prems(4) by (cases v) (auto simp: setRoom_def)
  show ?case
    using IH ok by (simp add: get idem)
qed auto

text \<open>
  Leaving a room removes its conversation without leaving a pointer to it behind and keeps the
  list well-formed. The private conversations of that room stay, and each is renamed to its old
  name with \<open>/\<close> in front, which is neither the key it is stored under nor a name the backend knows;
  every other conversation is unchanged.
\<close>

theorem leave_room_removes:
  assumes "convs_ok cs" and "smap_get cs key = Some c" and "c_muc c" and "key \<noteq> []"
  shows "\<exists>cs'. removeConversation key cs = Some cs' \<and> convs_ok cs' \<and> smap_get cs' key = None
    \<and> (\<forall>k. k \<noteq> key \<longrightarrow> smap_get cs' k
          = map_option (\<lambda>d. if c_room d = key then d\<lparr>c_room := [], c_legacyName := ''/'' @ c_legacyName d\<rparr> else d)
              (smap_get cs k))"
proof -
  have c: "c_legacyName c = key" "c_room c = []" using assms by (auto simp: convs_ok_def)
  define cs1 where "cs1 = fold (unroom key) (map fst cs) cs"
  note fu = fold_unroom [OF assms(2) c assms(4), of "map fst cs"]
  have get: "smap_get cs1 k = map_option (\<lambda>d. if c_room d = key then setRoom [] d else d) (smap_get cs k)" for k
    using fu [of k] smap_get_None_iff [of cs k] by (auto simp: cs1_def)
  have "smap_ok cs1" using fu assms(1) by (auto simp: cs1_def convs_ok_def)
  then have ok: "convs_ok (smap_del key cs1)"
    using assms(1,4) by (auto simp: convs_ok_def smap_get_del get conv_ok_def setRoom_def intro: smap_ok_del)
  have "name_at key cs1 = key" using get [of key] assms(2,4) c by (auto simp: name_at_def)
  then have "removeConversation key cs = Some (smap_del key cs1)"
    by (simp add: removeConversation_def cs1_def)
  moreover have "(\<lambda>d. if c_room d = key then setRoom [] d else d)
      = (\<lambda>d. if c_room d = key then d\<lparr>c_room := [], c_legacyName := ''/'' @ c_legacyName d\<rparr> else d)"
    by (auto simp: setRoom_def)
  ultimately show ?thesis using ok by (auto simp: smap_get_del get)
qed

theorem leave_room_removes_witness:
  "\<exists>cs'. removeConversation ''#r'' [(''#r'', new_Conversation witness_cenv ''#r'' True)] = Some cs'
     \<and> smap_get cs' ''#r'' = None"
proof -
  have "convs_ok [(''#r'', new_Conversation witness_cenv ''#r'' True)]"
    by (simp add: convs_ok_def smap_get_Cons smap_ok_def) (simp add: new_Conversation_def)
  moreover have "c_muc (new_Conversation witness_cenv ''#r'' True)"
    by (simp add: new_Conversation_def)
  ultimately show ?thesis
    using leave_room_removes [of "[(''#r'', new_Conversation witness_cenv ''#r'' True)]" "''#r''"]
    by (auto simp: smap_get_Cons)
qed

end
