(* ===== verification/Pool.thy ===== *)
theory Pool
  imports Protocol Roster Conv
begin

text \<open>
  The backend processes of \<open>libtransport/NetworkPluginServer.cpp\<close>: which backends are connected,
  which user is on which backend, who waits for one, and the messages that are sent to them.

  Backends live in a heap addressed by numbers, since \<open>User::m_data\<close> keeps a raw pointer to one
  and a backend is deleted when its connection ends. Dereferencing a null or dangling pointer is
  \<open>None\<close>. Users are identified by the number of their \<open>User\<close> object. The outputs are the wrapper
  messages written to a backend (type and payload, framed and serialized as in \<open>Protocol\<close>), the
  backends that are spawned, and the start of the component.
\<close>

section \<open>State\<close>

record backend =
  be_pong :: int
  be_users :: "nat list"
  be_data :: bytes
  be_res :: int
  be_init_res :: int
  be_shared :: int
  be_acceptUsers :: bool
  be_longRun :: bool
  be_willDie :: bool
  be_id :: string

record pool =
  p_heap :: "(nat, backend) smap"
  p_next :: nat
  p_clients :: "nat list"
  p_pids :: "nat list"
  p_waiting :: "nat list"
  p_isNextLongRun :: bool
  p_crashed :: "string list"
  p_startingBackend :: bool
  p_lastLogin :: int
  p_loginTimer :: "int option"
  p_firstPong :: bool
  p_data :: "(nat, nat) smap"
  p_slots :: "nat list"

datatype pout =
    ToBackend nat wtype pb
  | SpawnBackend nat
  | KillBackend string
  | CloseBackend nat
  | StartComponent

text \<open>
  What the pool reads of a user, and what the rest of the program and the system supply: the
  lookup of a user by address, the serializer of stanzas, the process id \<open>exec_\<close> returns for a
  log identifier, and the clock.
\<close>

record puser =
  pu_bare :: string
  pu_uin :: string
  pu_password :: string
  pu_settings :: "(string, string) smap"
  pu_buddies :: "(string, buddy option) smap"
  pu_ready :: bool
  pu_lastActivity :: int

record penv =
  pe_sw :: swiften
  pe_cf :: settings
  pe_user :: "nat \<Rightarrow> puser"
  pe_lookup :: "string \<Rightarrow> nat option"
  pe_xml_presence :: "presence \<Rightarrow> string"
  pe_xml_message :: "message \<Rightarrow> string"
  pe_exec :: "nat \<Rightarrow> nat"
  pe_now :: int

definition put_backend :: "nat \<Rightarrow> backend \<Rightarrow> pool \<Rightarrow> pool" where
  "put_backend b bk P = P\<lparr>p_heap := smap_put b bk (p_heap P)\<rparr>"

section \<open>Choosing a backend\<close>

definition login_delayed :: "penv \<Rightarrow> pool \<Rightarrow> bool" where
  "login_delayed e P \<longleftrightarrow> cf_login_delay (pe_cf e) \<noteq> 0
     \<and> pe_now e - p_lastLogin P < cf_login_delay (pe_cf e)"

definition is_free :: "penv \<Rightarrow> bool \<Rightarrow> bool \<Rightarrow> backend \<Rightarrow> bool" where
  "is_free e acceptUsers longRun bk \<longleftrightarrow> \<not> be_willDie bk \<and> be_acceptUsers bk = acceptUsers
     \<and> int (length (be_users bk)) < cf_users_per_backend (pe_cf e) \<and> be_longRun bk = longRun"

fun find_free :: "(backend \<Rightarrow> bool) \<Rightarrow> (nat, backend) smap \<Rightarrow> nat list \<Rightarrow> (nat \<times> backend) option" where
  "find_free f h [] = None"
| "find_free f h (b # bs) =
     (case smap_get h b of
        Some bk \<Rightarrow> if f bk then Some (b, bk) else find_free f h bs
      | None \<Rightarrow> find_free f h bs)"

text \<open>The slot of \<open>m_pids\<close> for the next backend: the first terminated one, or a new one.\<close>

fun first_zero :: "nat list \<Rightarrow> nat" where
  "first_zero [] = 0"
| "first_zero (p # ps) = (if p = 0 then 0 else Suc (first_zero ps))"

definition spawn :: "penv \<Rightarrow> bool \<Rightarrow> pool \<Rightarrow> pool \<times> pout list" where
  "spawn e longRun P =
     (let i = first_zero (p_pids P); pid = pe_exec e (i + 1)
      in (P\<lparr>p_isNextLongRun := longRun, p_startingBackend := True,
            p_pids := (if i = length (p_pids P) then p_pids P @ [pid] else (p_pids P)[i := pid])\<rparr>,
          [SpawnBackend (i + 1)]))"

definition getFreeClient :: "penv \<Rightarrow> bool \<Rightarrow> bool \<Rightarrow> bool \<Rightarrow> pool \<Rightarrow> nat option \<times> pool \<times> pout list" where
  "getFreeClient e acceptUsers longRun check P =
     (if login_delayed e P
      then (None,
            P\<lparr>p_loginTimer := Some ((cf_login_delay (pe_cf e) - (pe_now e - p_lastLogin P)) * 1000)\<rparr>, [])
      else
       let P = (if check then P else P\<lparr>p_lastLogin := pe_now e\<rparr>)
       in case find_free (is_free e acceptUsers longRun) (p_heap P) (p_clients P) of
            Some (b, bk) \<Rightarrow>
              (Some b,
               if \<not> cf_reuse_old_backends (pe_cf e) \<and> \<not> check
                  \<and> int (length (be_users bk)) + 1 \<ge> cf_users_per_backend (pe_cf e)
               then put_backend b (bk\<lparr>be_acceptUsers := False\<rparr>) P else P, [])
          | None \<Rightarrow>
              if p_startingBackend P then (None, P, [])
              else let (P, out) = spawn e longRun P in (None, P, out))"

section \<open>Messages to the backend of a user\<close>

definition to_backend :: "nat \<Rightarrow> wtype \<Rightarrow> pb \<Rightarrow> pool \<Rightarrow> pout list option" where
  "to_backend u t m P =
     (case smap_get (p_data P) u of
        None \<Rightarrow> Some []
      | Some b \<Rightarrow> if smap_get (p_heap P) b = None then None else Some [ToBackend b t m])"

text \<open>The same without the test for a null pointer.\<close>

definition to_backend_unchecked :: "nat \<Rightarrow> wtype \<Rightarrow> pb \<Rightarrow> pool \<Rightarrow> pout list option" where
  "to_backend_unchecked u t m P = (if smap_get (p_data P) u = None then None else to_backend u t m P)"

definition STATUS_NONE :: int where "STATUS_NONE = 5"
definition STATUS_INVISIBLE :: int where "STATUS_INVISIBLE = 6"

definition pb_of_buddy :: "penv \<Rightarrow> nat \<Rightarrow> string \<Rightarrow> string \<Rightarrow> string list \<Rightarrow> pb_buddy" where
  "pb_of_buddy e u name alias groups =
     \<lparr>pbb_userName = pu_bare (pe_user e u), pbb_buddyName = name, pbb_alias = alias, pbb_group = groups,
      pbb_status = STATUS_NONE, pbb_statusMessage = [], pbb_iconHash = [], pbb_blocked = None\<rparr>"

definition login_message :: "penv \<Rightarrow> nat \<Rightarrow> pb_login" where
  "login_message e u =
     \<lparr>pbl_user = pu_bare (pe_user e u), pbl_legacyName = pu_uin (pe_user e u),
      pbl_password = pu_password (pe_user e u), pbl_settings = pu_settings (pe_user e u)\<rparr>"

definition login_buddies :: "penv \<Rightarrow> nat \<Rightarrow> pb_buddy list" where
  "login_buddies e u =
     List.map_filter (\<lambda>(k, ob). map_option (\<lambda>b.
         (pb_of_buddy e u (b_name b) (b_alias b) (b_groups b))\<lparr>pbb_iconHash := b_iconHash b\<rparr>) ob)
       (pu_buddies (pe_user e u))"

definition handleUserReadyToConnect :: "penv \<Rightarrow> nat \<Rightarrow> pool \<Rightarrow> pout list option" where
  "handleUserReadyToConnect e u P =
     (case to_backend u TYPE_LOGIN (PB_Login (login_message e u)) P of
        None \<Rightarrow> None
      | Some [] \<Rightarrow> Some []
      | Some out \<Rightarrow>
          if dflt (cf_send_buddies_on_login (pe_cf e)) False
          then map_option (\<lambda>o2. out @ o2) (to_backend u TYPE_BUDDIES (PB_Buddies (login_buddies e u)) P)
          else Some out)"

text \<open>
  \<open>Swift::JID(legacyname.getNode(), legacyname.getDomain(), resource)\<close> for the recipient of a
  stanza that is passed to the backend as XML.
\<close>

definition raw_to :: "penv \<Rightarrow> jid \<Rightarrow> jid" where
  "raw_to e to =
     (let ln = sw_parse (pe_sw e) (JIDToLegacyName (pe_sw e) (\<lambda>_. None) to)
      in if jid_resource to \<noteq> []
         then sw_jid (pe_sw e) (jid_node ln) (jid_domain ln) (Some (jid_resource to))
         else sw_jid (pe_sw e) (jid_node ln) (jid_domain ln) None)"

definition handleRawPresenceReceived :: "penv \<Rightarrow> presence \<Rightarrow> pool \<Rightarrow> pout list option" where
  "handleRawPresenceReceived e p P =
     (if \<not> dflt (cf_rawxml (pe_cf e)) False then Some []
      else case pe_lookup e (sw_str (pe_sw e) (jid_bare (pr_from p))) of
             None \<Rightarrow> Some []
           | Some u \<Rightarrow> to_backend u TYPE_RAW_XML
               (PB_Raw (pe_xml_presence e (p\<lparr>pr_to := raw_to e (pr_to p)\<rparr>))) P)"

definition is_invisible :: "presence \<Rightarrow> bool" where
  "is_invisible p = (InvisibleP \<in> set (pr_payloads p))"

definition handleUserPresenceChanged :: "penv \<Rightarrow> nat \<Rightarrow> presence \<Rightarrow> pool \<Rightarrow> pout list option" where
  "handleUserPresenceChanged e u p P =
     (if pr_show p = Show_None then Some []
      else case handleRawPresenceReceived e p P of
             None \<Rightarrow> None
           | Some o1 \<Rightarrow>
               map_option (\<lambda>o2. o1 @ o2)
                 (to_backend u TYPE_STATUS_CHANGED
                    (PB_Status (pu_bare (pe_user e u))
                       (if is_invisible p then STATUS_INVISIBLE else pr_show p) (pr_status p)) P))"

definition handleRoomJoined :: "penv \<Rightarrow> nat \<Rightarrow> string \<Rightarrow> string \<Rightarrow> string \<Rightarrow> pool \<Rightarrow> pout list option" where
  "handleRoomJoined e u r nickname password P =
     to_backend u TYPE_JOIN_ROOM
       (PB_Room \<lparr>pbr_userName = pu_bare (pe_user e u), pbr_nickname = nickname, pbr_room = r,
          pbr_password = password\<rparr>) P"

definition handleRoomLeft :: "penv \<Rightarrow> nat \<Rightarrow> string \<Rightarrow> pool \<Rightarrow> pout list option" where
  "handleRoomLeft e u r P =
     to_backend u TYPE_LEAVE_ROOM
       (PB_Room \<lparr>pbr_userName = pu_bare (pe_user e u), pbr_nickname = [], pbr_room = r, pbr_password = []\<rparr>) P"

definition nps_handleBuddyRemoved :: "penv \<Rightarrow> nat \<Rightarrow> string \<Rightarrow> string \<Rightarrow> string list \<Rightarrow> pool \<Rightarrow> pout list option" where
  "nps_handleBuddyRemoved e u name alias groups P =
     to_backend u TYPE_BUDDY_REMOVED (PB_Buddy (pb_of_buddy e u name alias groups)) P"

definition handleUserBuddyAdded :: "penv \<Rightarrow> nat \<Rightarrow> string \<Rightarrow> string \<Rightarrow> string list \<Rightarrow> pool \<Rightarrow> pout list option" where
  "handleUserBuddyAdded e u name alias groups P =
     to_backend u TYPE_BUDDY_CHANGED (PB_Buddy (pb_of_buddy e u name alias groups)) P"

definition handleBlockToggled :: "penv \<Rightarrow> nat \<Rightarrow> buddy \<Rightarrow> pool \<Rightarrow> pout list option" where
  "handleBlockToggled e u b P =
     to_backend u TYPE_BUDDY_CHANGED
       (PB_Buddy ((pb_of_buddy e u (b_name b) (b_alias b) (b_groups b))\<lparr>pbb_blocked := Some (\<not> isBlocked b)\<rparr>)) P"

definition handleVCardUpdated :: "penv \<Rightarrow> nat \<Rightarrow> (string \<times> string) option \<Rightarrow> pool \<Rightarrow> pout list option" where
  "handleVCardUpdated e u v P =
     (case v of
        None \<Rightarrow> Some []
      | Some (photo, nickname) \<Rightarrow>
          to_backend u TYPE_VCARD
            (PB_VCard \<lparr>pbv_userName = pu_bare (pe_user e u), pbv_buddyName = [], pbv_id = 0,
               pbv_fullname = [], pbv_nickname = nickname, pbv_photo = Some photo\<rparr>) P)"

definition handleVCardRequired :: "penv \<Rightarrow> nat \<Rightarrow> string \<Rightarrow> int \<Rightarrow> pool \<Rightarrow> pout list option" where
  "handleVCardRequired e u name i P =
     to_backend u TYPE_VCARD
       (PB_VCard \<lparr>pbv_userName = pu_bare (pe_user e u), pbv_buddyName = name, pbv_id = i,
          pbv_fullname = [], pbv_nickname = [], pbv_photo = None\<rparr>) P"

text \<open>
  \<open>NetworkPluginServer::handleMessageReceived\<close>: a message the user wrote, in a conversation with
  the name \<open>ln\<close>. The null test is missing for attentions and subjects.
\<close>

definition state_wtype :: "chatstate \<Rightarrow> wtype option" where
  "state_wtype s = (case s of
       Active \<Rightarrow> Some TYPE_BUDDY_STOPPED_TYPING
     | Composing \<Rightarrow> Some TYPE_BUDDY_TYPING
     | Paused \<Rightarrow> Some TYPE_BUDDY_TYPED
     | _ \<Rightarrow> None)"

definition conv_message :: "penv \<Rightarrow> nat \<Rightarrow> string \<Rightarrow> string \<Rightarrow> pb_convmsg" where
  "conv_message e u ln body =
     \<lparr>pbc_userName = pu_bare (pe_user e u), pbc_buddyName = ln, pbc_message = body, pbc_nickname = [],
      pbc_xhtml = [], pbc_timestamp = [], pbc_headline = False, pbc_id = [], pbc_pm = False,
      pbc_carbon = False, pbc_attachment = []\<rparr>"

definition or_empty :: "string option \<Rightarrow> string" where
  "or_empty s = (case s of None \<Rightarrow> [] | Some x \<Rightarrow> x)"

definition outgoing_message :: "penv \<Rightarrow> nat \<Rightarrow> string \<Rightarrow> message \<Rightarrow> pool \<Rightarrow> pout list option" where
  "outgoing_message e u ln m P =
     (if AttentionP \<in> set (m_payloads m)
      then to_backend_unchecked u TYPE_ATTENTION (PB_ConvMsg (conv_message e u ln (or_empty (m_body m)))) P
      else if m_subject m \<noteq> []
      then to_backend_unchecked u TYPE_ROOM_SUBJECT_CHANGED (PB_ConvMsg (conv_message e u ln (m_subject m))) P
      else
       let xhtml = or_empty (xhtml_payload (m_payloads m)); body = or_empty (m_body m)
       in if body \<noteq> [] \<or> xhtml \<noteq> []
          then to_backend u TYPE_CONV_MESSAGE
                 (PB_ConvMsg ((conv_message e u ln body)
                    \<lparr>pbc_xhtml := xhtml,
                     pbc_id := (if ReceiptRequestP \<in> set (m_payloads m) then m_id m else [])\<rparr>)) P
          else Some [])"

definition nps_handleMessageReceived :: "penv \<Rightarrow> nat \<Rightarrow> string \<Rightarrow> message \<Rightarrow> pool \<Rightarrow> pout list option" where
  "nps_handleMessageReceived e u ln m P =
     (if dflt (cf_rawxml (pe_cf e)) False
      then to_backend u TYPE_RAW_XML (PB_Raw (pe_xml_message e (m\<lparr>m_to := raw_to e (m_to m)\<rparr>))) P
      else case chatstate_payload (m_payloads m) of
             None \<Rightarrow> outgoing_message e u ln m P
           | Some s \<Rightarrow>
               (case state_wtype s of
                  None \<Rightarrow> outgoing_message e u ln m P
                | Some t \<Rightarrow>
                    (case to_backend u t
                            (PB_Buddy ((pb_of_buddy e u ln [] [])\<lparr>pbb_status := 0\<rparr>)) P of
                       None \<Rightarrow> None
                     | Some [] \<Rightarrow> Some []
                     | Some o1 \<Rightarrow> map_option (\<lambda>o2. o1 @ o2) (outgoing_message e u ln m P))))"

section \<open>Users come and go\<close>

definition handleUserCreated :: "penv \<Rightarrow> nat \<Rightarrow> pool \<Rightarrow> pool \<times> pout list" where
  "handleUserCreated e u P =
     (case getFreeClient e True False False P of
        (None, P, out) \<Rightarrow> (P\<lparr>p_waiting := p_waiting P @ [u]\<rparr>, out)
      | (Some b, P, out) \<Rightarrow>
          (case smap_get (p_heap P) b of
             None \<Rightarrow> (P, out)
           | Some bk \<Rightarrow>
               ((put_backend b (bk\<lparr>be_users := be_users bk @ [u]\<rparr>) P)
                  \<lparr>p_data := smap_put u b (p_data P), p_slots := p_slots P @ [u]\<rparr>, out)))"

definition handleUserDestroyed :: "penv \<Rightarrow> nat \<Rightarrow> pool \<Rightarrow> (pool \<times> pout list) option" where
  "handleUserDestroyed e u P =
     (let P = P\<lparr>p_waiting := removeAll u (p_waiting P), p_slots := removeAll u (p_slots P)\<rparr>
      in case smap_get (p_data P) u of
           None \<Rightarrow> Some (P, [])
         | Some b \<Rightarrow>
             (case smap_get (p_heap P) b of
                None \<Rightarrow> None
              | Some bk \<Rightarrow>
                  (let users = removeAll u (be_users bk);
                       die = (users = [] \<and> cf_users_per_backend (pe_cf e) = 1)
                   in Some (put_backend b (bk\<lparr>be_users := users, be_willDie := (die \<or> be_willDie bk)\<rparr>) P,
                            [ToBackend b TYPE_LOGOUT
                               (PB_Logout (pu_bare (pe_user e u)) (pu_uin (pe_user e u)))]))))"

text \<open>\<open>setData(NULL)\<close>, and the end of a \<open>User\<close> object.\<close>

definition forget_data :: "nat \<Rightarrow> pool \<Rightarrow> pool" where
  "forget_data u P = P\<lparr>p_data := smap_del u (p_data P)\<rparr>"

section \<open>Users that wait\<close>

lemma find_free_Some:
  "find_free f h bs = Some (b, bk) \<Longrightarrow> b \<in> set bs \<and> smap_get h b = Some bk \<and> f bk"
  by (induction f h bs rule: find_free.induct) (auto split: option.splits if_splits)

lemma find_free_None:
  "find_free f h bs = None \<longleftrightarrow> (\<forall>b bk. b \<in> set bs \<longrightarrow> smap_get h b = Some bk \<longrightarrow> \<not> f bk)"
  by (induction f h bs rule: find_free.induct) (auto split: option.splits)

lemma getFreeClient_check:
  "getFreeClient e a l True P = (Some b, P', out) \<longleftrightarrow>
     \<not> login_delayed e P \<and> P' = P \<and> out = []
     \<and> (\<exists>bk. find_free (is_free e a l) (p_heap P) (p_clients P) = Some (b, bk))"
  by (auto simp: getFreeClient_def Let_def split: option.splits prod.splits)

text \<open>A backend found free is found again when the user is associated with it.\<close>

lemma getFreeClient_again:
  assumes "getFreeClient e a l True P = (Some b, P', out)"
  shows "\<exists>P''. getFreeClient e a l False (P\<lparr>p_waiting := us\<rparr>) = (Some b, P'', []) \<and> p_waiting P'' = us"
  using assms unfolding getFreeClient_check
  by (auto simp: getFreeClient_def login_delayed_def put_backend_def Let_def)

lemma handleUserCreated_waiting:
  assumes "getFreeClient e True False True P = (Some b, P', out)"
  shows "p_waiting (fst (handleUserCreated e u (P'\<lparr>p_waiting := us\<rparr>))) = us"
proof -
  have "P' = P" using assms unfolding getFreeClient_check by blast
  with getFreeClient_again [OF assms, of us] show ?thesis
    by (auto simp: handleUserCreated_def put_backend_def split: option.splits)
qed

lemma handleUserCreated_pops:
  "(Some b, P', out) = getFreeClient e True False True P \<Longrightarrow>
   (P2, o2) = handleUserCreated e u (P'\<lparr>p_waiting := us\<rparr>) \<Longrightarrow> p_waiting P2 = us"
  using handleUserCreated_waiting [of e P b P' out u us] by (metis fst_conv)

function connectWaitingUsers :: "penv \<Rightarrow> pool \<Rightarrow> (pool \<times> pout list) option" where
  "connectWaitingUsers e P =
     (case p_waiting P of
        [] \<Rightarrow> Some (P, [])
      | u # us \<Rightarrow>
          (case getFreeClient e True False True P of
             (None, P1, o1) \<Rightarrow> Some (P1, o1)
           | (Some b, P1, o1) \<Rightarrow>
               (case handleUserCreated e u (P1\<lparr>p_waiting := us\<rparr>) of
                  (P2, o2) \<Rightarrow>
                    (case (if pu_ready (pe_user e u) then handleUserReadyToConnect e u P2 else Some []) of
                       None \<Rightarrow> None
                     | Some o3 \<Rightarrow>
                         map_option (\<lambda>(P3, o4). (P3, o1 @ o2 @ o3 @ o4)) (connectWaitingUsers e P2)))))"
  by pat_completeness auto
termination
  by (relation "measure (\<lambda>(e, P). length (p_waiting P))") (auto dest: handleUserCreated_pops)

declare connectWaitingUsers.simps [simp del]

definition loginDelayFinished :: "penv \<Rightarrow> pool \<Rightarrow> (pool \<times> pout list) option" where
  "loginDelayFinished e P = connectWaitingUsers e (P\<lparr>p_loginTimer := None\<rparr>)"

section \<open>Life of a backend\<close>

definition sendPing :: "nat \<Rightarrow> pool \<Rightarrow> (pool \<times> pout list) option" where
  "sendPing b P =
     map_option (\<lambda>bk. (put_backend b (bk\<lparr>be_pong := 0\<rparr>) P, [ToBackend b TYPE_PING PB_None]))
       (smap_get (p_heap P) b)"

definition NETWORK_PLUGIN_API_VERSION :: int where "NETWORK_PLUGIN_API_VERSION = 1"

definition sendAPIVersion :: "nat \<Rightarrow> pout list" where
  "sendAPIVersion b = [ToBackend b TYPE_API_VERSION (PB_APIVersion NETWORK_PLUGIN_API_VERSION)]"

definition handleNewClientConnection :: "pool \<Rightarrow> pool \<times> pout list" where
  "handleNewClientConnection P =
     (let b = p_next P;
          bk = \<lparr>be_pong = -1, be_users = [], be_data = [], be_res = 0, be_init_res = 0, be_shared = 0,
                be_acceptUsers = (\<not> p_isNextLongRun P), be_longRun = p_isNextLongRun P,
                be_willDie = True, be_id = []\<rparr>
      in ((put_backend b bk P)\<lparr>p_next := b + 1, p_startingBackend := False, p_clients := b # p_clients P\<rparr>,
          [ToBackend b TYPE_PING PB_None]))"

definition handlePongReceived :: "penv \<Rightarrow> nat \<Rightarrow> pool \<Rightarrow> (pool \<times> pout list) option" where
  "handlePongReceived e b P =
     (case smap_get (p_heap P) b of
        None \<Rightarrow> None
      | Some bk \<Rightarrow>
          (case (if be_pong bk = -1
                 then let P = put_backend b (bk\<lparr>be_willDie := False\<rparr>) P;
                          o1 = (if p_firstPong P then [StartComponent] else []);
                          P = P\<lparr>p_firstPong := False\<rparr>
                      in map_option (\<lambda>(P, o2). (P, o1 @ o2)) (connectWaitingUsers e P)
                 else Some (P, [])) of
             None \<Rightarrow> None
           | Some (P, out) \<Rightarrow>
               map_option (\<lambda>bk. (put_backend b (bk\<lparr>be_pong := 1\<rparr>) P, out)) (smap_get (p_heap P) b)))"

definition handleStatsPayload :: "nat \<Rightarrow> int \<Rightarrow> int \<Rightarrow> int \<Rightarrow> string \<Rightarrow> pool \<Rightarrow> pool option" where
  "handleStatsPayload b res init_res shared i P =
     map_option (\<lambda>bk. put_backend b
         (bk\<lparr>be_res := res, be_init_res := init_res, be_shared := shared, be_id := i\<rparr>) P)
       (smap_get (p_heap P) b)"

text \<open>The backend with the biggest memory usage, and no further users for it.\<close>

fun biggest :: "(nat, backend) smap \<Rightarrow> nat list \<Rightarrow> int \<times> nat option \<Rightarrow> int \<times> nat option" where
  "biggest h [] acc = acc"
| "biggest h (b # bs) acc =
     biggest h bs
       (case smap_get h b of
          Some bk \<Rightarrow> if be_res bk > fst acc then (be_res bk, Some b) else acc
        | None \<Rightarrow> acc)"

definition collectBackend :: "pool \<Rightarrow> pool" where
  "collectBackend P =
     (case snd (biggest (p_heap P) (p_clients P) (0, None)) of
        None \<Rightarrow> P
      | Some b \<Rightarrow>
          (case smap_get (p_heap P) b of
             None \<Rightarrow> P
           | Some bk \<Rightarrow> put_backend b (bk\<lparr>be_acceptUsers := False\<rparr>) P))"

text \<open>
  \<open>moveToLongRunBackend\<close>: the result, the new pool, the output and whether
  \<open>setIgnoreDisconnect(true)\<close> was called on the user.
\<close>

definition moveToLongRunBackend :: "penv \<Rightarrow> nat \<Rightarrow> pool \<Rightarrow> (bool \<times> pool \<times> pout list \<times> bool) option" where
  "moveToLongRunBackend e u P =
     (case smap_get (p_data P) u of
        None \<Rightarrow> Some (True, P, [], False)
      | Some old \<Rightarrow>
          (case smap_get (p_heap P) old of
             None \<Rightarrow> None
           | Some obk \<Rightarrow>
               if be_longRun obk then Some (True, P, [], False)
               else
                (case getFreeClient e False True False P of
                   (None, P, o1) \<Rightarrow> Some (False, P, o1, False)
                 | (Some b, P, o1) \<Rightarrow>
                     (case (smap_get (p_heap P) old, smap_get (p_heap P) b) of
                        (Some obk, Some bk) \<Rightarrow>
                          (let P = put_backend old (obk\<lparr>be_users := removeAll u (be_users obk)\<rparr>) P;
                               P = put_backend b (bk\<lparr>be_users := be_users bk @ [u]\<rparr>) P;
                               P = P\<lparr>p_data := smap_put u b (p_data P)\<rparr>
                           in map_option (\<lambda>o2. (True, P, o1 @ o2, True)) (handleUserReadyToConnect e u P))
                      | _ \<Rightarrow> None))))"

definition handlePIDTerminated :: "nat \<Rightarrow> pool \<Rightarrow> pool" where
  "handlePIDTerminated pid P = P\<lparr>p_pids := (if pid \<in> set (p_pids P)
     then (p_pids P)[length (takeWhile (\<lambda>x. x \<noteq> pid) (p_pids P)) := 0] else p_pids P)\<rparr>"

text \<open>
  The two loops of \<open>pingTimeout\<close> before the backends to remove are finished: idle users are moved,
  and every backend is pinged or put on the list \<open>toRemove\<close>.
\<close>

fun idle_users :: "penv \<Rightarrow> (nat, backend) smap \<Rightarrow> nat list \<Rightarrow> nat list" where
  "idle_users e h [] = []"
| "idle_users e h (b # bs) =
     (case smap_get h b of
        Some bk \<Rightarrow> if be_longRun bk then []
                    else filter (\<lambda>u. pe_now e - pu_lastActivity (pe_user e u) > cf_idle_reconnect_time (pe_cf e))
                           (be_users bk)
      | None \<Rightarrow> []) @ idle_users e h bs"

fun move_users :: "penv \<Rightarrow> nat list \<Rightarrow> pool \<Rightarrow> (pool \<times> pout list \<times> nat list) option" where
  "move_users e [] P = Some (P, [], [])"
| "move_users e (u # us) P =
     (case moveToLongRunBackend e u P of
        None \<Rightarrow> None
      | Some (False, P, o1, ig) \<Rightarrow> Some (P, o1, [])
      | Some (True, P, o1, ig) \<Rightarrow>
          map_option (\<lambda>(P, o2, igs). (P, o1 @ o2, if ig then u # igs else igs)) (move_users e us P))"

fun ping_loop :: "nat list \<Rightarrow> pool \<Rightarrow> (pool \<times> pout list \<times> nat list) option" where
  "ping_loop [] P = Some (P, [], [])"
| "ping_loop (b # bs) P =
     (case smap_get (p_heap P) b of
        None \<Rightarrow> None
      | Some bk \<Rightarrow>
          (let (P, o1, r1) =
                 (if be_pong bk \<noteq> 0
                  then (put_backend b (bk\<lparr>be_pong := 0\<rparr>) P, [ToBackend b TYPE_PING PB_None], [])
                  else (P, if be_id bk \<noteq> [] then [KillBackend (be_id bk)] else [], [b]));
               r2 = (if be_users bk = [] then [b] else [])
           in map_option (\<lambda>(P, o2, r3). (P, o1 @ o2, r1 @ r2 @ r3)) (ping_loop bs P)))"

definition ping_check :: "penv \<Rightarrow> pool \<Rightarrow> (pool \<times> pout list \<times> nat list \<times> nat list) option" where
  "ping_check e P =
     (case (if cf_idle_reconnect_time (pe_cf e) \<noteq> 0
            then move_users e (idle_users e (p_heap P) (p_clients P)) P else Some (P, [], [])) of
        None \<Rightarrow> None
      | Some (P, o1, ignore) \<Rightarrow>
          map_option (\<lambda>(P, o2, remove). (P, o1 @ o2, ignore, remove))
            (ping_loop (p_clients P) (P\<lparr>p_startingBackend := False\<rparr>)))"

text \<open>
  The parts of \<open>handleSessionFinished\<close> before and after the users of the backend are
  disconnected.
\<close>

definition session_finish_begin :: "nat \<Rightarrow> pool \<Rightarrow> (pool \<times> nat list) option" where
  "session_finish_begin b P =
     map_option (\<lambda>bk. ((put_backend b (bk\<lparr>be_willDie := True\<rparr>) P)
         \<lparr>p_crashed := (if be_users bk \<noteq> [] then p_crashed P @ [be_id bk] else p_crashed P)\<rparr>, be_users bk))
       (smap_get (p_heap P) b)"

definition session_finish_end :: "nat \<Rightarrow> pool \<Rightarrow> (pool \<times> pout list) option" where
  "session_finish_end b P =
     map_option (\<lambda>bk. (P\<lparr>p_heap := smap_del b (p_heap P), p_clients := removeAll b (p_clients P)\<rparr>,
         [ToBackend b TYPE_EXIT PB_None, CloseBackend b]))
       (smap_get (p_heap P) b)"

section \<open>Invariant\<close>

definition on_backend :: "pool \<Rightarrow> nat \<Rightarrow> nat \<Rightarrow> bool" where
  "on_backend P u b \<longleftrightarrow> (\<exists>bk. smap_get (p_heap P) b = Some bk \<and> u \<in> set (be_users bk))"

text \<open>
  The users of a backend are distinct, point to it, and are no more than the configured number.
\<close>

definition backend_ok :: "penv \<Rightarrow> pool \<Rightarrow> nat \<Rightarrow> backend \<Rightarrow> bool" where
  "backend_ok e P b bk \<longleftrightarrow> distinct (be_users bk)
     \<and> (\<forall>u \<in> set (be_users bk). smap_get (p_data P) u = Some b)
     \<and> (be_users bk = [] \<or> int (length (be_users bk)) \<le> cf_users_per_backend (pe_cf e))"

definition pool_ok :: "penv \<Rightarrow> pool \<Rightarrow> bool" where
  "pool_ok e P \<longleftrightarrow> smap_ok (p_heap P) \<and> smap_ok (p_data P)
     \<and> distinct (p_clients P) \<and> set (p_clients P) = dom (smap_get (p_heap P))
     \<and> (\<forall>b \<in> set (p_clients P). b < p_next P)
     \<and> (\<forall>b bk. smap_get (p_heap P) b = Some bk \<longrightarrow> backend_ok e P b bk)
     \<and> distinct (p_waiting P) \<and> (\<forall>u \<in> set (p_waiting P). \<forall>b. \<not> on_backend P u b)
     \<and> distinct (p_slots P) \<and> (\<forall>u \<in> set (p_slots P). \<exists>b. on_backend P u b)"

text \<open>Where a user is.\<close>

datatype place = Nowhere | Waiting | On nat

definition place :: "pool \<Rightarrow> nat \<Rightarrow> place" where
  "place P u =
     (if u \<in> set (p_waiting P) then Waiting
      else case smap_get (p_data P) u of
             None \<Rightarrow> Nowhere
           | Some b \<Rightarrow> if on_backend P u b then On b else Nowhere)"

section \<open>Facts\<close>

lemma put_backend_sel [simp]:
  "p_heap (put_backend b bk P) = smap_put b bk (p_heap P)" "p_next (put_backend b bk P) = p_next P"
  "p_clients (put_backend b bk P) = p_clients P" "p_pids (put_backend b bk P) = p_pids P"
  "p_waiting (put_backend b bk P) = p_waiting P" "p_data (put_backend b bk P) = p_data P"
  "p_slots (put_backend b bk P) = p_slots P" "p_lastLogin (put_backend b bk P) = p_lastLogin P"
  "p_startingBackend (put_backend b bk P) = p_startingBackend P"
  by (simp_all add: put_backend_def)

text \<open>The fields of the pool the invariant is about.\<close>

definition core :: "pool \<Rightarrow> _" where
  "core P = (p_heap P, p_data P, p_clients P, p_next P, p_waiting P, p_slots P)"

lemma pool_ok_core: "core P' = core P \<Longrightarrow> pool_ok e P' = pool_ok e P"
  by (auto simp: core_def pool_ok_def backend_ok_def on_backend_def)

lemma place_core: "core P' = core P \<Longrightarrow> place P' = place P"
  by (auto simp: core_def place_def on_backend_def fun_eq_iff split: option.splits)

lemma on_backend_put:
  "on_backend (put_backend b bk P) u b' \<longleftrightarrow> (if b' = b then u \<in> set (be_users bk) else on_backend P u b')"
  by (auto simp: on_backend_def smap_get_put)

text \<open>A change of a backend that is not about its users.\<close>

lemma on_backend_same:
  "smap_get (p_heap P) b = Some bk \<Longrightarrow> be_users bk' = be_users bk \<Longrightarrow>
   on_backend (put_backend b bk' P) = on_backend P"
  by (auto simp: fun_eq_iff on_backend_put) (auto simp: on_backend_def)

lemma pool_ok_same:
  assumes "pool_ok e P" and "smap_get (p_heap P) b = Some bk" and "be_users bk' = be_users bk"
  shows "pool_ok e (put_backend b bk' P)"
  using assms on_backend_same [OF assms(2,3)]
  by (auto simp: pool_ok_def smap_get_put backend_ok_def intro: smap_ok_put)

lemma place_same:
  "smap_get (p_heap P) b = Some bk \<Longrightarrow> be_users bk' = be_users bk \<Longrightarrow> place (put_backend b bk' P) = place P"
  by (simp add: place_def fun_eq_iff on_backend_same split: option.splits)

lemma on_backend_data: "pool_ok e P \<Longrightarrow> on_backend P u b \<Longrightarrow> smap_get (p_data P) u = Some b"
  by (auto simp: pool_ok_def backend_ok_def on_backend_def)

lemma place_On:
  assumes "pool_ok e P"
  shows "place P u = On b \<longleftrightarrow> on_backend P u b"
proof -
  have "on_backend P u b \<Longrightarrow> u \<notin> set (p_waiting P)"
    using assms by (auto simp: pool_ok_def)
  with on_backend_data [OF assms] show ?thesis
    by (auto simp: place_def split: option.splits if_splits) (metis option.inject)
qed

lemma place_Nowhere:
  "pool_ok e P \<Longrightarrow> place P u = Nowhere \<longleftrightarrow> u \<notin> set (p_waiting P) \<and> (\<forall>b. \<not> on_backend P u b)"
  using on_backend_data [of e P u] by (auto simp: place_def split: option.splits if_splits)

lemma place_Waiting [simp]: "place P u = Waiting \<longleftrightarrow> u \<in> set (p_waiting P)"
  by (auto simp: place_def split: option.splits)

text \<open>What choosing a backend does.\<close>

lemma getFreeClient_Some:
  assumes "getFreeClient e a l c P = (Some b, P', out)"
  obtains bk where "smap_get (p_heap P) b = Some bk" and "is_free e a l bk" and "b \<in> set (p_clients P)"
    and "out = []" and "core P' = core P \<or> core P' = core (put_backend b (bk\<lparr>be_acceptUsers := False\<rparr>) P)"
  using assms
  by (auto simp: getFreeClient_def Let_def core_def split: if_splits option.splits prod.splits dest!: find_free_Some)

lemma getFreeClient_None: "getFreeClient e a l c P = (None, P', out) \<Longrightarrow> core P' = core P"
  by (auto simp: getFreeClient_def Let_def core_def spawn_def split: if_splits option.splits prod.splits)

lemma getFreeClient_keeps:
  assumes "getFreeClient e a l c P = (r, P', out)"
  shows "(pool_ok e P \<longrightarrow> pool_ok e P') \<and> place P' = place P \<and> p_waiting P' = p_waiting P
    \<and> p_data P' = p_data P \<and> p_slots P' = p_slots P"
proof -
  have same: ?thesis if "core P' = core P"
    using that pool_ok_core [OF that] place_core [OF that] by (simp add: core_def)
  show ?thesis
  proof (cases r)
    case None
    with assms getFreeClient_None same show ?thesis by blast
  next
    case (Some b)
    show ?thesis
    proof (rule getFreeClient_Some [OF assms [unfolded Some]])
      fix bk
      assume bk: "smap_get (p_heap P) b = Some bk"
        and cr: "core P' = core P \<or> core P' = core (put_backend b (bk\<lparr>be_acceptUsers := False\<rparr>) P)"
      from cr show ?thesis
      proof
        assume c: "core P' = core (put_backend b (bk\<lparr>be_acceptUsers := False\<rparr>) P)"
        have u: "be_users (bk\<lparr>be_acceptUsers := False\<rparr>) = be_users bk" by simp
        show ?thesis
          using pool_ok_core [OF c, of e] place_core [OF c] pool_ok_same [OF _ bk u, of e] place_same [OF bk u] c
          by (simp add: core_def)
      qed (rule same)
    qed
  qed
qed

lemma getFreeClient_room:
  assumes "getFreeClient e a l c P = (Some b, P', out)"
  shows "\<exists>bk. smap_get (p_heap P') b = Some bk \<and> int (length (be_users bk)) < cf_users_per_backend (pe_cf e)
    \<and> be_longRun bk = l \<and> \<not> be_willDie bk"
  using assms by (rule getFreeClient_Some) (auto simp: core_def smap_get_put is_free_def)

text \<open>Putting a user on a backend, and taking him off.\<close>

definition add_user :: "nat \<Rightarrow> nat \<Rightarrow> backend \<Rightarrow> pool \<Rightarrow> pool" where
  "add_user u b bk P = (put_backend b (bk\<lparr>be_users := be_users bk @ [u]\<rparr>) P)
     \<lparr>p_data := smap_put u b (p_data P), p_slots := p_slots P @ [u]\<rparr>"

lemma on_backend_add_user:
  "smap_get (p_heap P) b = Some bk \<Longrightarrow>
   on_backend (add_user u b bk P) v b' \<longleftrightarrow> (b' = b \<and> v = u) \<or> on_backend P v b'"
  by (auto simp: on_backend_def add_user_def smap_get_put)

lemma add_user_ok:
  assumes "pool_ok e P" and "smap_get (p_heap P) b = Some bk" and "place P u = Nowhere"
    and "int (length (be_users bk)) < cf_users_per_backend (pe_cf e)"
  shows "pool_ok e (add_user u b bk P) \<and> place (add_user u b bk P) = (place P)(u := On b)"
proof -
  have nw: "u \<notin> set (p_waiting P)" "\<And>b. \<not> on_backend P u b"
    using assms(1,3) by (auto simp: place_Nowhere)
  then have users: "u \<notin> set (be_users bk')" if "smap_get (p_heap P) b' = Some bk'" for b' bk'
    using that by (auto simp: on_backend_def)
  have slot: "u \<notin> set (p_slots P)" using assms(1) nw by (auto simp: pool_ok_def)
  note on = on_backend_add_user [OF assms(2)]
  have bks: "backend_ok e (add_user u b bk P) b' bk'" if "smap_get (p_heap (add_user u b bk P)) b' = Some bk'" for b' bk'
    using that assms(1,2,4) users
    by (auto simp: add_user_def smap_get_put backend_ok_def pool_ok_def split: if_splits)
  have ok: "pool_ok e (add_user u b bk P)"
    unfolding pool_ok_def
  proof (intro conjI)
    show "\<forall>b' bk'. smap_get (p_heap (add_user u b bk P)) b' = Some bk' \<longrightarrow> backend_ok e (add_user u b bk P) b' bk'"
      using bks by blast
    show "\<forall>v \<in> set (p_waiting (add_user u b bk P)). \<forall>b'. \<not> on_backend (add_user u b bk P) v b'"
      using assms(1) nw unfolding on by (auto simp: pool_ok_def add_user_def)
    show "\<forall>v \<in> set (p_slots (add_user u b bk P)). \<exists>b'. on_backend (add_user u b bk P) v b'"
      using assms(1) unfolding on by (auto simp: pool_ok_def add_user_def)
  qed (use assms(1,2) slot in \<open>auto simp: pool_ok_def add_user_def smap_get_put intro: smap_ok_put\<close>)
  have "place (add_user u b bk P) v = (if v = u then On b else place P v)" for v
  proof (cases "v = u")
    case True
    then show ?thesis using ok on by (simp add: place_On)
  next
    case False
    then show ?thesis unfolding place_def on by (auto simp: add_user_def smap_get_put split: option.splits)
  qed
  with ok show ?thesis by auto
qed

lemma wait_ok:
  assumes "pool_ok e P" and "place P u = Nowhere"
  shows "pool_ok e (P\<lparr>p_waiting := p_waiting P @ [u]\<rparr>) \<and> place (P\<lparr>p_waiting := p_waiting P @ [u]\<rparr>) = (place P)(u := Waiting)"
proof -
  have "on_backend (P\<lparr>p_waiting := p_waiting P @ [u]\<rparr>) = on_backend P"
    by (simp add: on_backend_def fun_eq_iff)
  moreover have "u \<notin> set (p_waiting P)" "\<And>b. \<not> on_backend P u b"
    using assms by (auto simp: place_Nowhere)
  ultimately show ?thesis
    using assms(1) by (auto simp: pool_ok_def backend_ok_def place_def fun_eq_iff split: option.splits)
qed

lemma handleUserCreated_cases:
  assumes "pool_ok e P" and "place P u = Nowhere"
  shows "\<exists>q. q \<noteq> Nowhere \<and> pool_ok e (fst (handleUserCreated e u P))
    \<and> place (fst (handleUserCreated e u P)) = (place P)(u := q)"
proof -
  obtain r P1 o1 where g: "getFreeClient e True False False P = (r, P1, o1)" by (metis prod_cases3)
  have k: "pool_ok e P1" "place P1 = place P"
    using getFreeClient_keeps [OF g] assms(1) by auto
  show ?thesis
  proof (cases r)
    case None
    with g wait_ok [OF k(1), of u] k(2) assms(2) show ?thesis
      by (intro exI [of _ Waiting]) (simp add: handleUserCreated_def)
  next
    case (Some b)
    then obtain bk where bk: "smap_get (p_heap P1) b = Some bk" "int (length (be_users bk)) < cf_users_per_backend (pe_cf e)"
      using getFreeClient_room g by blast
    have "fst (handleUserCreated e u P) = add_user u b bk P1"
      using g Some bk by (simp add: handleUserCreated_def add_user_def)
    with add_user_ok [OF k(1) bk(1) _ bk(2), of u] k(2) assms(2) show ?thesis
      by (intro exI [of _ "On b"]) simp
  qed
qed

text \<open>Any pool with the users of \<open>P\<close> except \<open>u\<close>.\<close>

lemma without_user_ok:
  assumes "pool_ok e P" and "\<And>v b. on_backend P' v b \<longleftrightarrow> on_backend P v b \<and> v \<noteq> u"
    and "p_waiting P' = removeAll u (p_waiting P)" and "p_slots P' = removeAll u (p_slots P)"
    and "p_data P' = p_data P" and "p_clients P' = p_clients P" and "p_next P' = p_next P"
    and "smap_ok (p_heap P')" and "dom (smap_get (p_heap P')) = dom (smap_get (p_heap P))"
    and "\<And>b bk. smap_get (p_heap P') b = Some bk \<Longrightarrow> backend_ok e P b bk"
  shows "pool_ok e P' \<and> place P' = (place P)(u := Nowhere)"
proof -
  have ok: "pool_ok e P'"
    using assms(1) unfolding pool_ok_def assms(2-7) using assms(8-10)
    by (auto simp: backend_ok_def assms(5) distinct_removeAll)
  have "place P' v = (if v = u then Nowhere else place P v)" for v
    unfolding place_def assms(2,3,5) by (auto split: option.splits)
  with ok show ?thesis by auto
qed

lemma take_off_ok:
  assumes "pool_ok e P" and "smap_get (p_data P) u = Some b" and "smap_get (p_heap P) b = Some bk"
    and "be_users bk1 = removeAll u (be_users bk)"
  defines "P' \<equiv> put_backend b bk1 (P\<lparr>p_waiting := removeAll u (p_waiting P), p_slots := removeAll u (p_slots P)\<rparr>)"
  shows "pool_ok e P' \<and> place P' = (place P)(u := Nowhere)"
proof (rule without_user_ok [OF assms(1)])
  have only: "on_backend P u b' \<Longrightarrow> b' = b" for b'
    using on_backend_data [OF assms(1)] assms(2) by fastforce
  show "on_backend P' v b' \<longleftrightarrow> on_backend P v b' \<and> v \<noteq> u" for v b'
    using only [of b'] assms(3,4) by (auto simp: P'_def on_backend_def smap_get_put)
  have bok: "backend_ok e P b bk" using assms(1,3) by (simp add: pool_ok_def)
  have le: "int (length (removeAll u (be_users bk))) \<le> int (length (be_users bk))"
    using length_filter_le [of "\<lambda>x. u \<noteq> x" "be_users bk"] by (simp add: removeAll_filter_not_eq)
  show "backend_ok e P b' bk'" if "smap_get (p_heap P') b' = Some bk'" for b' bk'
  proof (cases "b' = b")
    case True
    then have users: "be_users bk' = removeAll u (be_users bk)" using that assms(4) by (auto simp: P'_def smap_get_put)
    show ?thesis
      using bok unfolding True backend_ok_def users
      by (auto simp: distinct_removeAll intro: order_trans [OF le])
  next
    case False
    then show ?thesis using that assms(1) by (auto simp: P'_def smap_get_put pool_ok_def)
  qed
qed (use assms(1,3) in \<open>auto simp: P'_def pool_ok_def smap_get_put intro: smap_ok_put\<close>)

lemma handleUserDestroyed_cases:
  assumes "pool_ok e P" and "handleUserDestroyed e u P = Some (P', out)"
  shows "pool_ok e P' \<and> place P' = (place P)(u := Nowhere)"
proof (cases "smap_get (p_data P) u")
  case None
  then have "\<And>b. \<not> on_backend P u b" using on_backend_data [OF assms(1)] by fastforce
  moreover have "P' = P\<lparr>p_waiting := removeAll u (p_waiting P), p_slots := removeAll u (p_slots P)\<rparr>"
    using assms(2) None by (simp add: handleUserDestroyed_def)
  ultimately show ?thesis
    using assms(1) by (intro without_user_ok) (auto simp: pool_ok_def on_backend_def)
next
  case (Some b)
  then obtain bk where bk: "smap_get (p_heap P) b = Some bk"
    using assms(2) by (auto simp: handleUserDestroyed_def Let_def split: option.splits)
  define w where "w = (removeAll u (be_users bk) = [] \<and> cf_users_per_backend (pe_cf e) = 1 \<or> be_willDie bk)"
  have "P' = put_backend b (bk\<lparr>be_users := removeAll u (be_users bk), be_willDie := w\<rparr>)
      (P\<lparr>p_waiting := removeAll u (p_waiting P), p_slots := removeAll u (p_slots P)\<rparr>)"
    using assms(2) Some bk by (simp add: handleUserDestroyed_def Let_def w_def)
  with take_off_ok [OF assms(1) Some bk] show ?thesis by simp
qed

section \<open>Users join and leave\<close>

text \<open>
  The interface the rest of the server relies on: a user who joins is somewhere, one who leaves is
  nowhere, and nobody else moves.
\<close>

locale user_placement =
  fixes ok :: "'p \<Rightarrow> bool" and at :: "'p \<Rightarrow> nat \<Rightarrow> place"
    and join :: "nat \<Rightarrow> 'p \<Rightarrow> 'p" and leave :: "nat \<Rightarrow> 'p \<Rightarrow> 'p option"
  assumes join: "ok P \<Longrightarrow> at P u = Nowhere \<Longrightarrow> \<exists>q. q \<noteq> Nowhere \<and> ok (join u P) \<and> at (join u P) = (at P)(u := q)"
    and leave: "ok P \<Longrightarrow> leave u P = Some P' \<Longrightarrow> ok P' \<and> at P' = (at P)(u := Nowhere)"
begin

text \<open>The reconnection of \<open>User::handleDisconnected\<close>: leave and join again.\<close>

lemma rejoin:
  assumes "ok P" and "leave u P = Some P'"
  shows "ok (join u P') \<and> at (join u P') u \<noteq> Nowhere \<and> (\<forall>v. v \<noteq> u \<longrightarrow> at (join u P') v = at P v)"
proof -
  have P': "ok P'" "at P' = (at P)(u := Nowhere)" using leave [OF assms] by auto
  then obtain q where "q \<noteq> Nowhere" "ok (join u P')" "at (join u P') = (at P')(u := q)"
    using join [OF P'(1), of u] by auto
  with P' show ?thesis by auto
qed

lemma join_all:
  assumes "ok P" and "distinct us" and "\<And>u. u \<in> set us \<Longrightarrow> at P u = Nowhere"
  shows "ok (fold join us P) \<and> (\<forall>u \<in> set us. at (fold join us P) u \<noteq> Nowhere)
    \<and> (\<forall>v. v \<notin> set us \<longrightarrow> at (fold join us P) v = at P v)"
  using assms
proof (induction us arbitrary: P)
  case (Cons u us)
  then obtain q where q: "q \<noteq> Nowhere" "ok (join u P)" "at (join u P) = (at P)(u := q)"
    using join [of P u] by auto
  have "\<And>v. v \<in> set us \<Longrightarrow> at (join u P) v = Nowhere" using Cons.prems q by auto
  with Cons.IH [OF q(2)] Cons.prems q show ?case by auto
qed simp

end

interpretation up: user_placement "pool_ok e" place "\<lambda>u P. fst (handleUserCreated e u P)"
  "\<lambda>u P. map_option fst (handleUserDestroyed e u P)" for e
  by unfold_locales (use handleUserCreated_cases handleUserDestroyed_cases in \<open>auto split: prod.splits\<close>)

text \<open>
  C22: When \<open>User::handleDisconnected\<close> reconnects a user, he ends up on a backend or in the queue, no
  other user is moved, and the pool stays well-formed.
\<close>

theorem reconnect_placement:
  assumes "pool_ok e P" and "handleUserDestroyed e u P = Some (P', out)"
  shows "pool_ok e (fst (handleUserCreated e u P')) \<and> place (fst (handleUserCreated e u P')) u \<noteq> Nowhere
    \<and> (\<forall>v. v \<noteq> u \<longrightarrow> place (fst (handleUserCreated e u P')) v = place P v)"
  by (rule up.rejoin [OF assms(1)]) (simp add: assms(2))

definition empty_pool :: pool where
  "empty_pool = \<lparr>p_heap = [], p_next = 0, p_clients = [], p_pids = [], p_waiting = [], p_isNextLongRun = False,
     p_crashed = [], p_startingBackend = False, p_lastLogin = 0, p_loginTimer = None, p_firstPong = True,
     p_data = [], p_slots = []\<rparr>"

definition witness_penv :: "int \<Rightarrow> penv" where
  "witness_penv now = \<lparr>pe_sw = witness_sw,
     pe_cf = (ce_cf witness_cenv)\<lparr>cf_login_delay := 5, cf_users_per_backend := 2\<rparr>,
     pe_user = (\<lambda>u. \<lparr>pu_bare = ''u@x'', pu_uin = ''u'', pu_password = [], pu_settings = [], pu_buddies = [],
       pu_ready = True, pu_lastActivity = 0\<rparr>),
     pe_lookup = (\<lambda>_. None), pe_xml_presence = (\<lambda>_. []), pe_xml_message = (\<lambda>_. []),
     pe_exec = (\<lambda>i. 1000 + i), pe_now = now\<rparr>"

lemma pool_ok_empty: "pool_ok e empty_pool"
  by (simp add: pool_ok_def empty_pool_def smap_ok_def dom_def)

theorem reconnect_placement_witness:
  "pool_ok (witness_penv 10) (fst (handleUserCreated (witness_penv 10) 7 empty_pool))
   \<and> place (fst (handleUserCreated (witness_penv 10) 7 empty_pool)) 7 \<noteq> Nowhere"
  using reconnect_placement [OF pool_ok_empty, of "witness_penv 10" 7 empty_pool "[]"]
  by (simp add: handleUserDestroyed_def empty_pool_def)

section \<open>The queue\<close>

lemma pop_waiting_ok:
  assumes "pool_ok e P" and "p_waiting P = u # us"
  shows "pool_ok e (P\<lparr>p_waiting := us\<rparr>) \<and> place (P\<lparr>p_waiting := us\<rparr>) = (place P)(u := Nowhere)"
proof -
  have on: "on_backend (P\<lparr>p_waiting := us\<rparr>) = on_backend P" by (simp add: on_backend_def fun_eq_iff)
  have "u \<notin> set us" "\<And>b. \<not> on_backend P u b" using assms by (auto simp: pool_ok_def)
  with assms show ?thesis
    by (auto simp: pool_ok_def backend_ok_def place_def on fun_eq_iff split: option.splits)
qed

lemma ready_Some:
  assumes "pool_ok e P" and "place P u = On b"
  shows "\<exists>out. handleUserReadyToConnect e u P = Some out"
proof -
  have "on_backend P u b" using assms by (simp add: place_On)
  with on_backend_data [OF assms(1) this] show ?thesis
    by (auto simp: handleUserReadyToConnect_def to_backend_def on_backend_def)
qed

lemma getFreeClient_still_None:
  "getFreeClient e a l True P = (None, P', out) \<Longrightarrow> fst (getFreeClient e a l True P') = None"
  by (auto simp: getFreeClient_def Let_def login_delayed_def spawn_def split: if_splits option.splits prod.splits)

lemma getFreeClient_dom:
  assumes "getFreeClient e a l c P = (r, P', out)"
  shows "dom (smap_get (p_heap P')) = dom (smap_get (p_heap P))"
  using assms by (auto simp: getFreeClient_def Let_def spawn_def smap_get_put
      split: if_splits option.splits prod.splits dest!: find_free_Some)

lemma handleUserCreated_dom:
  "dom (smap_get (p_heap (fst (handleUserCreated e u P)))) = dom (smap_get (p_heap P))"
proof -
  obtain r P1 o1 where g: "getFreeClient e True False False P = (r, P1, o1)" by (metis prod_cases3)
  with getFreeClient_dom [OF g] show ?thesis
    by (auto simp: handleUserCreated_def smap_get_put split: option.splits)
qed

lemma connectWaitingUsers_serves:
  assumes "pool_ok e P"
  shows "\<exists>P' out served. connectWaitingUsers e P = Some (P', out) \<and> pool_ok e P'
    \<and> p_waiting P = served @ p_waiting P' \<and> (\<forall>u \<in> set served. \<exists>b. place P' u = On b)
    \<and> (p_waiting P' = [] \<or> fst (getFreeClient e True False True P') = None)
    \<and> (\<forall>u. u \<notin> set served \<longrightarrow> place P' u = place P u)
    \<and> (served = [] \<longrightarrow> p_waiting P = [] \<or> fst (getFreeClient e True False True P) = None)
    \<and> dom (smap_get (p_heap P')) = dom (smap_get (p_heap P))"
  using assms
proof (induction e P rule: connectWaitingUsers.induct)
  case (1 e P)
  show ?case
  proof (cases "p_waiting P")
    case Nil
    with 1(2) show ?thesis
      by (intro exI [of _ P] exI [of _ "[]"]) (simp add: connectWaitingUsers.simps [of e P])
  next
    case (Cons u us)
    obtain r P1 o1 where g: "getFreeClient e True False True P = (r, P1, o1)" by (metis prod_cases3)
    note k = getFreeClient_keeps [OF g]
    show ?thesis
    proof (cases r)
      case None
      then show ?thesis
        using g k Cons 1(2) getFreeClient_still_None [of e True False P P1 o1] getFreeClient_dom [OF g]
        by (intro exI [of _ P1] exI [of _ o1] exI [of _ "[]"]) (simp add: connectWaitingUsers.simps [of e P])
    next
      case (Some b)
      then have P1: "P1 = P" "o1 = []" using g unfolding getFreeClient_check Some by (auto simp: getFreeClient_check)
      obtain P2 o2 where c: "handleUserCreated e u (P1\<lparr>p_waiting := us\<rparr>) = (P2, o2)" by fastforce
      have pop: "pool_ok e (P1\<lparr>p_waiting := us\<rparr>)" "place (P1\<lparr>p_waiting := us\<rparr>) = (place P)(u := Nowhere)"
        using pop_waiting_ok [OF 1(2) Cons] P1 by auto
      have w2: "p_waiting P2 = us"
        using handleUserCreated_pops [of b P1 o1 e P P2 o2 u us] g Some c by auto
      obtain q where q: "q \<noteq> Nowhere" "pool_ok e P2" "place P2 = (place P)(u := q)"
        using handleUserCreated_cases [OF pop(1), of u] pop(2) c by auto
      have "u \<notin> set us" using 1(2) Cons by (simp add: pool_ok_def)
      then obtain b' where b': "q = On b'" using q w2 place_Waiting [of P2 u] by (cases q) auto
      obtain o3 where o3: "(if pu_ready (pe_user e u) then handleUserReadyToConnect e u P2 else Some []) = Some o3"
        using ready_Some [OF q(2), of u b'] q(3) b' by (cases "pu_ready (pe_user e u)") auto
      obtain P' out served where IH: "connectWaitingUsers e P2 = Some (P', out)" "pool_ok e P'"
        "p_waiting P2 = served @ p_waiting P'" "\<forall>u \<in> set served. \<exists>b. place P' u = On b"
        "p_waiting P' = [] \<or> fst (getFreeClient e True False True P') = None"
        "\<forall>v. v \<notin> set served \<longrightarrow> place P' v = place P2 v"
        "dom (smap_get (p_heap P')) = dom (smap_get (p_heap P2))"
        using 1(1) [OF Cons g [symmetric] Some refl c [symmetric] o3 q(2)] by blast
      have "connectWaitingUsers e P = Some (P', o1 @ o2 @ o3 @ out)"
        using Cons g Some c o3 IH(1) by (simp add: connectWaitingUsers.simps [of e P])
      moreover have "dom (smap_get (p_heap P2)) = dom (smap_get (p_heap P))"
        using handleUserCreated_dom [of e u "P1\<lparr>p_waiting := us\<rparr>"] c P1 by simp
      moreover have "u \<notin> set served" using IH(3) w2 \<open>u \<notin> set us\<close> by auto
      ultimately show ?thesis
        using IH w2 Cons q(3) b'
        by (intro exI [of _ P'] exI [of _ "o1 @ o2 @ o3 @ out"] exI [of _ "u # served"]) auto
    qed
  qed
qed

text \<open>
  C23: The loop that serves the queue ends without touching a deleted backend. It serves the queue
  from the front and in order: everybody it takes off is on a backend afterwards, and it stops
  only when the queue is empty or no backend can be had.
\<close>

theorem queue_served_in_order:
  assumes "pool_ok e P"
  shows "\<exists>P' out served. connectWaitingUsers e P = Some (P', out) \<and> pool_ok e P'
    \<and> p_waiting P = served @ p_waiting P' \<and> (\<forall>u \<in> set served. \<exists>b. place P' u = On b)
    \<and> (p_waiting P' = [] \<or> fst (getFreeClient e True False True P') = None)
    \<and> (\<forall>u. u \<notin> set served \<longrightarrow> place P' u = place P u)"
  using connectWaitingUsers_serves [OF assms] by blast

lemma new_connection_ok:
  assumes "pool_ok e P"
  shows "pool_ok e (fst (handleNewClientConnection P)) \<and> place (fst (handleNewClientConnection P)) = place P"
proof -
  define P' where "P' = fst (handleNewClientConnection P)"
  have fresh: "p_next P \<notin> set (p_clients P)" "smap_get (p_heap P) (p_next P) = None"
    using assms by (auto simp: pool_ok_def)
  have on: "on_backend P' v b = on_backend P v b" for v b
    using fresh by (auto simp: P'_def handleNewClientConnection_def Let_def on_backend_def smap_get_put)
  have sel: "p_waiting P' = p_waiting P" "p_data P' = p_data P" "p_slots P' = p_slots P"
    by (simp_all add: P'_def handleNewClientConnection_def Let_def)
  have "pool_ok e P'"
    using assms fresh unfolding pool_ok_def on sel
    by (auto simp: P'_def handleNewClientConnection_def Let_def smap_get_put backend_ok_def
        intro: smap_ok_put less_SucI)
  moreover have "place P' = place P" by (simp add: place_def fun_eq_iff on sel split: option.splits)
  ultimately show ?thesis by (simp add: P'_def)
qed

theorem queue_served_in_order_witness:
  "\<exists>P' out. connectWaitingUsers (witness_penv 10) empty_pool = Some (P', out) \<and> pool_ok (witness_penv 10) P'"
  using queue_served_in_order [OF pool_ok_empty, of "witness_penv 10"] by blast

section \<open>A new backend\<close>

lemma pong_first:
  assumes "pool_ok e P" and "smap_get (p_heap P) b = Some bk" and "be_pong bk = -1"
  shows "\<exists>P' out served. handlePongReceived e b P = Some (P', out) \<and> pool_ok e P'
    \<and> (\<forall>u \<in> set served. \<exists>b. place P' u = On b) \<and> p_waiting P = served @ p_waiting P'
    \<and> (served = [] \<longrightarrow> p_waiting P = []
         \<or> fst (getFreeClient e True False True (put_backend b (bk\<lparr>be_willDie := False\<rparr>) P)) = None)"
proof -
  define P1 where "P1 = (put_backend b (bk\<lparr>be_willDie := False\<rparr>) P)\<lparr>p_firstPong := False\<rparr>"
  define P0 where "P0 = put_backend b (bk\<lparr>be_willDie := False\<rparr>) P"
  have core: "core P1 = core P0" by (simp add: P1_def P0_def core_def)
  have "pool_ok e P0" unfolding P0_def by (rule pool_ok_same [OF assms(1,2)]) simp
  then have ok1: "pool_ok e P1" using pool_ok_core [OF core] by simp
  have free: "fst (getFreeClient e True False True P1) = None \<longleftrightarrow> fst (getFreeClient e True False True P0) = None"
    by (auto simp: getFreeClient_def login_delayed_def P1_def P0_def spawn_def Let_def split: option.splits)
  obtain P2 out served where c: "connectWaitingUsers e P1 = Some (P2, out)" "pool_ok e P2"
    "p_waiting P1 = served @ p_waiting P2" "\<forall>u \<in> set served. \<exists>b. place P2 u = On b"
    "served = [] \<longrightarrow> p_waiting P1 = [] \<or> fst (getFreeClient e True False True P1) = None"
    "dom (smap_get (p_heap P2)) = dom (smap_get (p_heap P1))"
    using connectWaitingUsers_serves [OF ok1] by blast
  have "b \<in> dom (smap_get (p_heap P1))" by (simp add: P1_def smap_get_put)
  then obtain bk2 where bk2: "smap_get (p_heap P2) b = Some bk2" using c(6) by blast
  define P' where "P' = put_backend b (bk2\<lparr>be_pong := 1\<rparr>) P2"
  have P': "pool_ok e P'" "place P' = place P2" "p_waiting P' = p_waiting P2"
    using pool_ok_same [OF c(2) bk2] place_same [OF bk2] by (simp_all add: P'_def)
  have w: "p_waiting P1 = p_waiting P" by (simp add: P1_def)
  have "\<exists>o1. handlePongReceived e b P = Some (P', o1)"
    using assms c(1) bk2 by (simp add: handlePongReceived_def Let_def P1_def P'_def)
  then show ?thesis
    using P' c(3-5) free w unfolding P0_def by (metis (no_types, lifting))
qed

text \<open>
  C24: A backend that connects and answers its first PING serves the queue: unless logins are being
  delayed or the backend was started for idle users, the first user who waits is on a backend
  afterwards, and nothing that was deleted is touched.
\<close>

theorem backend_serves_queue:
  assumes "pool_ok e P" and "p_waiting P = u # us" and "\<not> login_delayed e P"
    and "1 \<le> cf_users_per_backend (pe_cf e)" and "\<not> p_isNextLongRun P"
  shows "\<exists>P' out b. handlePongReceived e (p_next P) (fst (handleNewClientConnection P)) = Some (P', out)
    \<and> pool_ok e P' \<and> place P' u = On b"
proof -
  define b where "b = p_next P"
  define P1 where "P1 = fst (handleNewClientConnection P)"
  have ok1: "pool_ok e P1" using new_connection_ok [OF assms(1)] by (simp add: P1_def)
  define bk where "bk = \<lparr>be_pong = -1, be_users = [], be_data = [], be_res = 0, be_init_res = 0, be_shared = 0,
    be_acceptUsers = True, be_longRun = False, be_willDie = True, be_id = []\<rparr>"
  have get1: "smap_get (p_heap P1) b = Some bk" and cl: "p_clients P1 = b # p_clients P"
    and sel: "p_waiting P1 = p_waiting P" "p_lastLogin P1 = p_lastLogin P"
    using assms(5) by (simp_all add: P1_def handleNewClientConnection_def Let_def b_def bk_def smap_get_put)
  have free: "fst (getFreeClient e True False True (put_backend b (bk\<lparr>be_willDie := False\<rparr>) P1)) \<noteq> None"
    using assms(3,4) by (simp add: getFreeClient_def login_delayed_def cl sel smap_get_put is_free_def bk_def)
  obtain P' out served where "handlePongReceived e b P1 = Some (P', out)" "pool_ok e P'"
    "\<forall>u \<in> set served. \<exists>b. place P' u = On b" "p_waiting P1 = served @ p_waiting P'" "served \<noteq> []"
    using pong_first [OF ok1 get1] free sel assms(2) by (auto simp: bk_def)
  moreover have "u \<in> set served" using calculation(4,5) sel assms(2) by (cases served) auto
  ultimately show ?thesis unfolding b_def P1_def by blast
qed

theorem backend_serves_queue_witness:
  "\<exists>P' out b. handlePongReceived (witness_penv 10) 0
      (fst (handleNewClientConnection (empty_pool\<lparr>p_waiting := [7]\<rparr>))) = Some (P', out)
    \<and> place P' 7 = On b"
proof -
  have ok: "pool_ok (witness_penv 10) (empty_pool\<lparr>p_waiting := [7]\<rparr>)"
    using wait_ok [OF pool_ok_empty, of 7 "witness_penv 10"] by (simp add: empty_pool_def place_def)
  have "p_next (empty_pool\<lparr>p_waiting := [7]\<rparr>) = 0" "\<not> p_isNextLongRun (empty_pool\<lparr>p_waiting := [7]\<rparr>)"
    "\<not> login_delayed (witness_penv 10) (empty_pool\<lparr>p_waiting := [7]\<rparr>)"
    "1 \<le> cf_users_per_backend (pe_cf (witness_penv 10))"
    by (simp_all add: empty_pool_def login_delayed_def witness_penv_def)
  with backend_serves_queue [OF ok, of 7 "[]"] show ?thesis by auto
qed

section \<open>Spawning\<close>

lemma first_zero_spec:
  "first_zero ps \<le> length ps \<and> (first_zero ps < length ps \<longrightarrow> ps ! first_zero ps = 0)
   \<and> (\<forall>i < first_zero ps. ps ! i \<noteq> 0)"
proof (induction ps)
  case (Cons p ps)
  then show ?case by (auto simp: nth_Cons split: nat.splits)
qed simp

text \<open>
  A backend is spawned only when no backend is being started, and it takes the log identifier of
  a terminated process or a new one: no identifier of a running process is reused, and the process
  ids of the others are kept.
\<close>

theorem spawn_takes_free_slot:
  assumes "getFreeClient e a l c P = (r, P', out)" and "SpawnBackend n \<in> set out"
  shows "\<not> p_startingBackend P \<and> p_startingBackend P' \<and> p_isNextLongRun P' = l \<and> r = None \<and> out = [SpawnBackend n]
    \<and> 1 \<le> n \<and> n \<le> length (p_pids P) + 1 \<and> (n \<le> length (p_pids P) \<longrightarrow> p_pids P ! (n - 1) = 0)
    \<and> n - 1 < length (p_pids P') \<and> p_pids P' ! (n - 1) = pe_exec e n
    \<and> (\<forall>i < length (p_pids P). i \<noteq> n - 1 \<longrightarrow> p_pids P' ! i = p_pids P ! i)"
  using assms first_zero_spec [of "p_pids P"]
  by (auto simp: getFreeClient_def Let_def spawn_def nth_append split: if_splits option.splits prod.splits)

theorem spawn_takes_free_slot_witness:
  "p_pids (fst (snd (getFreeClient (witness_penv 10) True False False (empty_pool\<lparr>p_pids := [12, 0]\<rparr>)))) ! 1 = 1002"
proof -
  have "getFreeClient (witness_penv 10) True False False (empty_pool\<lparr>p_pids := [12, 0]\<rparr>)
      = (None, fst (snd (getFreeClient (witness_penv 10) True False False (empty_pool\<lparr>p_pids := [12, 0]\<rparr>))), [SpawnBackend 2])"
    by code_simp
  from spawn_takes_free_slot [OF this, of 2] show ?thesis by (simp add: witness_penv_def)
qed

section \<open>A pointer that outlives its backend\<close>

text \<open>
  C26: A user who is reconnected while no backend is free keeps the pointer to the backend he was on,
  although that backend no longer knows him. Once the backend has gone (\<open>pingTimeout\<close> removes it as
  soon as it has no users) every later message for the user, and his logout, dereferences it.
\<close>

theorem stale_backend_pointer:
  assumes "smap_get (p_data P) u = Some b" and "handleUserDestroyed e u P = Some (P1, o1)"
    and "u \<in> set (p_waiting (fst (handleUserCreated e u P1)))"
    and "session_finish_end b (fst (handleUserCreated e u P1)) = Some (P2, o2)"
  shows "handleUserDestroyed e u P2 = None \<and> to_backend u t m P2 = None"
proof -
  have d1: "p_data P1 = p_data P" and w1: "u \<notin> set (p_waiting P1)"
    using assms(2) by (auto simp: handleUserDestroyed_def Let_def split: option.splits)
  obtain r P0 o0 where g: "getFreeClient e True False False P1 = (r, P0, o0)" by (metis prod_cases3)
  note k = getFreeClient_keeps [OF g]
  have "r = None"
  proof (rule ccontr)
    assume "r \<noteq> None"
    then obtain c where r: "r = Some c" by blast
    obtain bk where "smap_get (p_heap P0) c = Some bk" using getFreeClient_room g r by blast
    with g r have "p_waiting (fst (handleUserCreated e u P1)) = p_waiting P0" by (simp add: handleUserCreated_def)
    with assms(3) k w1 show False by simp
  qed
  then have "p_data (fst (handleUserCreated e u P1)) = p_data P" using g k d1 by (simp add: handleUserCreated_def)
  then have "smap_get (p_data P2) u = Some b" "smap_get (p_heap P2) b = None"
    using assms(1,4) by (auto simp: session_finish_end_def smap_get_del)
  then show ?thesis by (simp add: handleUserDestroyed_def to_backend_def)
qed

definition one_user_pool :: pool where
  "one_user_pool = empty_pool\<lparr>p_heap := [(0, \<lparr>be_pong = 1, be_users = [7], be_data = [], be_res = 0,
      be_init_res = 0, be_shared = 0, be_acceptUsers = True, be_longRun = False, be_willDie = False, be_id = []\<rparr>)],
     p_next := 1, p_clients := [0], p_data := [(7, 0)], p_slots := [7], p_lastLogin := 10\<rparr>"

theorem stale_backend_pointer_witness:
  "\<exists>P2 o2. session_finish_end 0 (fst (handleUserCreated (witness_penv 10) 7
      (fst (the (handleUserDestroyed (witness_penv 10) 7 one_user_pool))))) = Some (P2, o2)
    \<and> handleUserDestroyed (witness_penv 10) 7 P2 = None"
proof -
  define P1 where "P1 = fst (the (handleUserDestroyed (witness_penv 10) 7 one_user_pool))"
  define P2 where "P2 = fst (the (session_finish_end 0 (fst (handleUserCreated (witness_penv 10) 7 P1))))"
  have d: "handleUserDestroyed (witness_penv 10) 7 one_user_pool
      = Some (P1, snd (the (handleUserDestroyed (witness_penv 10) 7 one_user_pool)))"
    unfolding P1_def by code_simp
  have w: "7 \<in> set (p_waiting (fst (handleUserCreated (witness_penv 10) 7 P1)))"
    unfolding P1_def by code_simp
  have s: "session_finish_end 0 (fst (handleUserCreated (witness_penv 10) 7 P1))
      = Some (P2, snd (the (session_finish_end 0 (fst (handleUserCreated (witness_penv 10) 7 P1)))))"
    unfolding P2_def P1_def by code_simp
  have "smap_get (p_data one_user_pool) 7 = Some 0" by code_simp
  from stale_backend_pointer [OF this d w s] s show ?thesis unfolding P1_def by blast
qed

section \<open>Supervision\<close>

lemma ping_loop_remove:
  assumes "distinct bs" and "\<And>b. b \<in> set bs \<Longrightarrow> smap_get (p_heap P) b \<noteq> None"
  shows "\<exists>P' out rm. ping_loop bs P = Some (P', out, rm)
    \<and> (\<forall>b bk. smap_get (p_heap P) b = Some bk \<longrightarrow> b \<in> set bs \<longrightarrow>
         count_list rm b = (if be_pong bk = 0 then 1 else 0) + (if be_users bk = [] then 1 else 0)
         \<and> smap_get (p_heap P') b = Some (bk\<lparr>be_pong := 0\<rparr>)
         \<and> (ToBackend b TYPE_PING PB_None \<in> set out \<longleftrightarrow> be_pong bk \<noteq> 0))
    \<and> (\<forall>b. b \<notin> set bs \<longrightarrow> count_list rm b = 0 \<and> smap_get (p_heap P') b = smap_get (p_heap P) b
         \<and> ToBackend b TYPE_PING PB_None \<notin> set out)"
  using assms
proof (induction bs arbitrary: P)
  case Nil
  then show ?case by simp
next
  case (Cons x bs)
  then obtain xk where xk: "smap_get (p_heap P) x = Some xk" by fastforce
  define P1 where "P1 = (if be_pong xk \<noteq> 0 then put_backend x (xk\<lparr>be_pong := 0\<rparr>) P else P)"
  have get: "smap_get (p_heap P1) b = (if b = x then Some (xk\<lparr>be_pong := 0\<rparr>) else smap_get (p_heap P) b)" for b
    using xk by (auto simp: P1_def smap_get_put)
  have live: "\<And>b. b \<in> set bs \<Longrightarrow> smap_get (p_heap P1) b \<noteq> None"
    using Cons.prems(2) by (auto simp: get)
  obtain P' out rm where IH: "ping_loop bs P1 = Some (P', out, rm)"
    "\<forall>b bk. smap_get (p_heap P1) b = Some bk \<longrightarrow> b \<in> set bs \<longrightarrow>
       count_list rm b = (if be_pong bk = 0 then 1 else 0) + (if be_users bk = [] then 1 else 0)
       \<and> smap_get (p_heap P') b = Some (bk\<lparr>be_pong := 0\<rparr>)
       \<and> (ToBackend b TYPE_PING PB_None \<in> set out \<longleftrightarrow> be_pong bk \<noteq> 0)"
    "\<forall>b. b \<notin> set bs \<longrightarrow> count_list rm b = 0 \<and> smap_get (p_heap P') b = smap_get (p_heap P1) b
       \<and> ToBackend b TYPE_PING PB_None \<notin> set out"
    using Cons.IH [OF _ live] Cons.prems(1) by auto
  define o1 where "o1 = (if be_pong xk \<noteq> 0 then [ToBackend x TYPE_PING PB_None]
    else if be_id xk \<noteq> [] then [KillBackend (be_id xk)] else [])"
  define r1 where "r1 = (if be_pong xk = 0 then [x] else []) @ (if be_users xk = [] then [x] else [])"
  have step: "ping_loop (x # bs) P = Some (P', o1 @ out, r1 @ rm)"
    unfolding o1_def r1_def using xk IH(1) by (cases "be_pong xk = 0") (simp_all add: P1_def)
  have o1: "ToBackend b TYPE_PING PB_None \<in> set o1 \<longleftrightarrow> b = x \<and> be_pong xk \<noteq> 0" for b
    by (auto simp: o1_def)
  have r1: "count_list r1 b = (if b = x then (if be_pong xk = 0 then 1 else 0) + (if be_users xk = [] then 1 else 0) else 0)" for b
    by (auto simp: r1_def)
  show ?case
    unfolding step using IH(2,3) Cons.prems(1) xk
    by (intro exI [of _ P'] exI [of _ "o1 @ out"] exI [of _ "r1 @ rm"]) (auto simp: get o1 r1)
qed

text \<open>
  \<open>pingTimeout\<close> looks at every connected backend once. A backend that answered the last PING is
  pinged again, also one that has not answered its first yet, although the comment says no second
  PING is sent then. A backend without an answer and a backend without users go on the list of
  backends to remove; one that has neither is on it twice, and the second
  \<open>handleSessionFinished\<close> works on a deleted object.
\<close>

theorem ping_check_removes:
  assumes "pool_ok e P" and "cf_idle_reconnect_time (pe_cf e) = 0" and "smap_get (p_heap P) b = Some bk"
  shows "\<exists>P' out rm. ping_check e P = Some (P', out, [], rm)
    \<and> count_list rm b = (if be_pong bk = 0 then 1 else 0) + (if be_users bk = [] then 1 else 0)
    \<and> (ToBackend b TYPE_PING PB_None \<in> set out \<longleftrightarrow> be_pong bk \<noteq> 0)
    \<and> (\<forall>P2 o2. session_finish_end b P' = Some (P2, o2) \<longrightarrow> session_finish_begin b P2 = None)"
proof -
  have cl: "distinct (p_clients P)" "b \<in> set (p_clients P)"
    "\<And>c. c \<in> set (p_clients P) \<Longrightarrow> smap_get (p_heap (P\<lparr>p_startingBackend := False\<rparr>)) c \<noteq> None"
    using assms(1,3) by (auto simp: pool_ok_def)
  from ping_loop_remove [OF cl(1,3)] obtain P' out rm where "ping_loop (p_clients P) (P\<lparr>p_startingBackend := False\<rparr>)
      = Some (P', out, rm)"
    "count_list rm b = (if be_pong bk = 0 then 1 else 0) + (if be_users bk = [] then 1 else 0)"
    "ToBackend b TYPE_PING PB_None \<in> set out \<longleftrightarrow> be_pong bk \<noteq> 0"
    using cl(2) assms(3) by auto
  then show ?thesis
    using assms(2)
    by (intro exI [of _ P'] exI [of _ out] exI [of _ rm])
      (auto simp: ping_check_def session_finish_end_def session_finish_begin_def smap_get_del)
qed

lemma one_user_pool_ok: "pool_ok (witness_penv 10) one_user_pool"
  by (auto simp: pool_ok_def one_user_pool_def empty_pool_def smap_ok_def smap_get_Cons on_backend_def backend_ok_def
      witness_penv_def dom_def split: if_splits)

theorem ping_check_removes_witness:
  "\<exists>P' out rm. ping_check (witness_penv 10) one_user_pool = Some (P', out, [], rm) \<and> count_list rm 0 = 0"
proof -
  have "smap_get (p_heap one_user_pool) 0 = Some (the (smap_get (p_heap one_user_pool) 0))"
    "be_pong (the (smap_get (p_heap one_user_pool) 0)) = 1" "be_users (the (smap_get (p_heap one_user_pool) 0)) = [7]"
    "cf_idle_reconnect_time (pe_cf (witness_penv 10)) = 0"
    by code_simp+
  with ping_check_removes [OF one_user_pool_ok, of 0] show ?thesis by fastforce
qed

section \<open>Moving idle users\<close>

lemma getFreeClient_other:
  assumes "getFreeClient e a l c P = (Some b, P', out)" and "smap_get (p_heap P) d = Some dk"
  shows "\<exists>dk'. smap_get (p_heap P') d = Some dk' \<and> be_users dk' = be_users dk \<and> be_longRun dk' = be_longRun dk"
  using assms(1) by (rule getFreeClient_Some) (use assms(2) in \<open>auto simp: core_def smap_get_put\<close>)

lemma pool_ok_slots:
  assumes "pool_ok e P" and "distinct ss" and "set ss \<subseteq> set (p_slots P)"
  shows "pool_ok e (P\<lparr>p_slots := ss\<rparr>) \<and> place (P\<lparr>p_slots := ss\<rparr>) = place P"
proof -
  have "on_backend (P\<lparr>p_slots := ss\<rparr>) = on_backend P" by (simp add: on_backend_def fun_eq_iff)
  with assms show ?thesis
    by (auto simp: pool_ok_def backend_ok_def place_def fun_eq_iff split: option.splits)
qed

text \<open>
  C28: A user who is moved to a backend for idle users leaves his old backend and is on the new one,
  the new one is not filled beyond the limit, nobody else moves, and the pool stays well-formed;
  when no such backend is free nothing changes for anybody.
\<close>

theorem move_to_long_run:
  assumes "pool_ok e P" and "place P u = On old" and "smap_get (p_heap P) old = Some obk" and "\<not> be_longRun obk"
  shows "\<exists>moved P' out. moveToLongRunBackend e u P = Some (moved, P', out, moved) \<and> pool_ok e P'
    \<and> (\<forall>v. v \<noteq> u \<longrightarrow> place P' v = place P v)
    \<and> (if moved then (\<exists>b bk. place P' u = On b \<and> smap_get (p_heap P') b = Some bk \<and> be_longRun bk \<and> b \<noteq> old)
       else place P' u = On old)"
proof -
  have on: "on_backend P u old" and data: "smap_get (p_data P) u = Some old"
    using assms(1,2) on_backend_data by (auto simp: place_On)
  obtain r P1 o1 where g: "getFreeClient e False True False P = (r, P1, o1)" by (metis prod_cases3)
  note k = getFreeClient_keeps [OF g]
  show ?thesis
  proof (cases r)
    case None
    then have "moveToLongRunBackend e u P = Some (False, P1, o1, False)"
      using data assms(3,4) g by (simp add: moveToLongRunBackend_def)
    with k assms(1,2) show ?thesis by (intro exI [of _ False] exI [of _ P1] exI [of _ o1]) simp
  next
    case (Some b)
    obtain bk where bk: "smap_get (p_heap P1) b = Some bk" "int (length (be_users bk)) < cf_users_per_backend (pe_cf e)"
      "be_longRun bk" using getFreeClient_room g Some by blast
    obtain obk1 where obk1: "smap_get (p_heap P1) old = Some obk1" "be_users obk1 = be_users obk" "be_longRun obk1 = be_longRun obk"
      using getFreeClient_other [OF g [unfolded Some] assms(3)] by blast
    have ne: "b \<noteq> old" using bk obk1 assms(4) by auto
    have ok1: "pool_ok e P1" using k assms(1) by blast
    define P2 where "P2 = put_backend old (obk1\<lparr>be_users := removeAll u (be_users obk1)\<rparr>)
      (P1\<lparr>p_waiting := removeAll u (p_waiting P1), p_slots := removeAll u (p_slots P1)\<rparr>)"
    have data1: "smap_get (p_data P1) u = Some old" using k data by simp
    have P2: "pool_ok e P2" "place P2 = (place P)(u := Nowhere)"
      using take_off_ok [OF ok1 data1 obk1(1), of "obk1\<lparr>be_users := removeAll u (be_users obk1)\<rparr>"] k
      by (auto simp: P2_def)
    have bk2: "smap_get (p_heap P2) b = Some bk" using bk(1) ne by (simp add: P2_def smap_get_put)
    have P3: "pool_ok e (add_user u b bk P2)" "place (add_user u b bk P2) = (place P)(u := On b)"
      using add_user_ok [OF P2(1) bk2 _ bk(2), of u] P2(2) by auto
    define P' where "P' = (add_user u b bk P2)\<lparr>p_slots := p_slots P1\<rparr>"
    have sl: "distinct (p_slots P1)" "set (p_slots P1) \<subseteq> set (p_slots (add_user u b bk P2))"
      using ok1 by (auto simp: pool_ok_def add_user_def P2_def)
    have ok': "pool_ok e P'" "place P' = (place P)(u := On b)"
      using pool_ok_slots [OF P3(1) sl] P3(2) by (auto simp: P'_def)
    have wait: "removeAll u (p_waiting P1) = p_waiting P1"
      using k assms(1,2) on by (intro removeAll_id) (auto simp: pool_ok_def)
    have eq: "P' = (put_backend b (bk\<lparr>be_users := be_users bk @ [u]\<rparr>)
        (put_backend old (obk1\<lparr>be_users := removeAll u (be_users obk1)\<rparr>) P1))\<lparr>p_data := smap_put u b (p_data P1)\<rparr>"
      by (simp add: P'_def add_user_def P2_def wait put_backend_def)
    obtain o2 where "handleUserReadyToConnect e u P' = Some o2"
      using ready_Some [OF ok'(1), of u b] ok'(2) by auto
    then have "moveToLongRunBackend e u P = Some (True, P', o1 @ o2, True)"
      using data assms(3,4) g Some obk1(1) bk(1) ne
      by (simp add: moveToLongRunBackend_def Let_def eq)
    moreover have "smap_get (p_heap P') b = Some (bk\<lparr>be_users := be_users bk @ [u]\<rparr>)" by (simp add: eq smap_get_put)
    ultimately show ?thesis
      using ok' bk(3) ne by (intro exI [of _ True] exI [of _ P'] exI [of _ "o1 @ o2"]) auto
  qed
qed

theorem move_to_long_run_witness:
  "\<exists>moved P' out. moveToLongRunBackend (witness_penv 10) 7 one_user_pool = Some (moved, P', out, moved)
     \<and> pool_ok (witness_penv 10) P'"
proof -
  have "smap_get (p_heap one_user_pool) 0 = Some (the (smap_get (p_heap one_user_pool) 0))"
    "\<not> be_longRun (the (smap_get (p_heap one_user_pool) 0))" by code_simp+
  moreover have "place one_user_pool 7 = On 0"
    by (simp add: place_def one_user_pool_def empty_pool_def on_backend_def smap_get_Cons)
  ultimately show ?thesis using move_to_long_run [OF one_user_pool_ok] by blast
qed

section \<open>Messages of a user who has no backend\<close>

text \<open>
  A message of a user who still waits for a backend is dropped, except that an attention request
  or a new room subject dereferences the missing backend.
\<close>

theorem message_without_backend:
  assumes "smap_get (p_data P) u = None" and "\<not> dflt (cf_rawxml (pe_cf e)) False"
    and "chatstate_payload (m_payloads m) = None"
  shows "nps_handleMessageReceived e u ln m P =
    (if AttentionP \<in> set (m_payloads m) \<or> m_subject m \<noteq> [] then None else Some [])"
  using assms
  by (simp add: nps_handleMessageReceived_def outgoing_message_def to_backend_unchecked_def to_backend_def Let_def)

theorem message_without_backend_witness:
  "nps_handleMessageReceived (witness_penv 10) 7 ''#room'' (empty_message\<lparr>m_subject := ''s''\<rparr>) empty_pool = None"
  using message_without_backend [of empty_pool 7 "witness_penv 10" "empty_message\<lparr>m_subject := ''s''\<rparr>" "''#room''"]
  by (simp add: empty_pool_def witness_penv_def witness_cenv_def dflt_def empty_message_def)

end
