(* ===== verification/Users.thy ===== *)
theory Users
  imports Roster Conv
begin

text \<open>
  One logged-in user: \<open>libtransport/User.cpp\<close>, with his contact list and his conversations, and
  \<open>XMPPUser.cpp\<close> and the capabilities request of \<open>XMPPFrontend.cpp\<close> where \<open>User\<close> calls them.

  Signals to the backend pool are effects. Their handlers only read the user, so delivering them
  when the operation has ended is the same as delivering them in the middle. Reading a setting
  with \<open>operator[]\<close> leaves an empty string for a missing one; missing and empty settings are not
  distinguished here. \<open>None\<close> is an operation that goes on with a deleted conversation.
\<close>

section \<open>State\<close>

record user =
  u_jid :: jid
  u_info :: userinfo
  u_connected :: bool
  u_readyForConnect :: bool
  u_ignoreDisconnect :: bool
  u_reconnectTimer :: bool
  u_lastActivity :: int
  u_legacyCaps :: "(jid, string list) smap"
  u_resources :: int
  u_reconnectCounter :: int
  u_reconnectLimit :: int
  u_joinedRooms :: "presence list"
  u_cacheMessages :: bool
  u_storage :: bool
  u_roster :: roster
  u_convs :: convs

text \<open>
  What the user reads: the presences, the capabilities Swiften has cached for an address (as the
  list of features), the photo hash stored for the user, lower-casing and the clock.
\<close>

record uenv =
  ue_sw :: swiften
  ue_cf :: settings
  ue_orc :: poracle
  ue_caps :: "jid \<Rightarrow> string list option"
  ue_photohash :: string
  ue_low :: "string \<Rightarrow> string"
  ue_now :: int

definition ue_server :: "uenv \<Rightarrow> bool" where
  "ue_server e = inServerMode (ue_cf e)"

definition getUserSetting :: "user \<Rightarrow> string \<Rightarrow> string" where
  "getUserSetting u key = smap_get_or [] (ui_settings (u_info u)) key"

definition renv_of :: "uenv \<Rightarrow> user \<Rightarrow> renv" where
  "renv_of e u = \<lparr>re_sw = ue_sw e, re_cf = ue_cf e, re_userJID = u_jid u, re_connected = u_connected u,
     re_cacheMessages = u_cacheMessages u, re_presences = getAllPresence (ue_orc e) (u_jid u),
     re_rawxml = dflt (cf_rawxml (ue_cf e)) False, re_low = ue_low e\<rparr>"

definition cenv_of :: "uenv \<Rightarrow> user \<Rightarrow> cenv" where
  "cenv_of e u = \<lparr>ce_sw = ue_sw e, ce_cf = ue_cf e, ce_userJID = u_jid u, ce_setting = getUserSetting u,
     ce_cacheMessages = u_cacheMessages u,
     ce_buddyJID = (\<lambda>n. map_option (\<lambda>b. b_jid (getJID (renv_of e u) b)) (getBuddy (renv_of e u) n (u_roster u))),
     ce_names = roster_name (renv_of e u) (u_roster u), ce_orc = ue_orc e, ce_now = ue_now e\<rparr>"

text \<open>The contact list after the lookups a conversation has made.\<close>

fun touch_all :: "renv \<Rightarrow> effect list \<Rightarrow> roster \<Rightarrow> roster" where
  "touch_all re [] r = r"
| "touch_all re (GetBuddy n # out) r = touch_all re out (touchBuddy re n r)"
| "touch_all re (_ # out) r = touch_all re out r"

definition settle :: "uenv \<Rightarrow> effect list \<Rightarrow> user \<Rightarrow> user" where
  "settle e out u = u\<lparr>u_roster := touch_all (renv_of e u) out (u_roster u)\<rparr>"

definition empty_roster_of :: roster where
  "empty_roster_of = \<lparr>r_buddies = [], r_storage = False, r_queue = [], r_storageTimer = False,
     r_supportRemoteRoster = False, r_RIETimer = False\<rparr>"

section \<open>Operations\<close>

definition new_User :: "uenv \<Rightarrow> jid \<Rightarrow> userinfo \<Rightarrow> user" where
  "new_User e j info = \<lparr>u_jid = jid_bare j, u_info = info, u_connected = False, u_readyForConnect = False,
     u_ignoreDisconnect = False, u_reconnectTimer = False, u_lastActivity = ue_now e, u_legacyCaps = [],
     u_resources = 0, u_reconnectCounter = 0, u_reconnectLimit = 3, u_joinedRooms = [], u_cacheMessages = False,
     u_storage = False, u_roster = empty_roster_of, u_convs = []\<rparr>"

definition user_sendCurrentPresence :: "uenv \<Rightarrow> user \<Rightarrow> effect list" where
  "user_sendCurrentPresence e u =
     (if ue_server e then []
      else
       map (\<lambda>p.
         let offline = mk_presence (pr_from p) (cf_jid (ue_cf e)) Unavailable
         in SendPresence
              (if u_connected u
               then (case getHighestPriorityPresence (ue_sw e) (ue_orc e) (jid_bare (u_jid u)) of
                       Some h \<Rightarrow> h\<lparr>pr_to := pr_from p, pr_from := cf_jid (ue_cf e)\<rparr>
                     | None \<Rightarrow> offline)
               else offline\<lparr>pr_status := ''Connecting''\<rparr>))
         (filter (\<lambda>p. pr_type p \<noteq> Unavailable) (getAllPresence (ue_orc e) (u_jid u))))"

definition setCacheMessages :: "uenv \<Rightarrow> bool \<Rightarrow> user \<Rightarrow> user \<times> effect list" where
  "setCacheMessages e cacheMessages u =
     (if ue_server e \<and> \<not> u_cacheMessages u \<and> cacheMessages
      then let (cs, out) = sendCachedChatMessages (cenv_of e u) (u_convs u)
           in (u\<lparr>u_convs := cs, u_cacheMessages := cacheMessages\<rparr>, out)
      else (u\<lparr>u_cacheMessages := cacheMessages\<rparr>, []))"

definition leaveRoom :: "uenv \<Rightarrow> string \<Rightarrow> user \<Rightarrow> (user \<times> effect list) option" where
  "leaveRoom e room u =
     (let joined = (case find (\<lambda>p. JIDToLegacyName (ue_sw e) (\<lambda>_. None) (pr_to p) = room) (u_joinedRooms u) of
                      None \<Rightarrow> u_joinedRooms u
                    | Some p \<Rightarrow> removeAll p (u_joinedRooms u));
          u = u\<lparr>u_joinedRooms := joined\<rparr>
      in case getConversation (u_convs u) room of
           None \<Rightarrow> Some (u, [OnRoomLeft room])
         | Some key \<Rightarrow> map_option (\<lambda>cs. (u\<lparr>u_convs := cs\<rparr>, [OnRoomLeft room])) (removeConversation key (u_convs u)))"

fun leave_rooms :: "uenv \<Rightarrow> string list \<Rightarrow> user \<Rightarrow> (user \<times> effect list) option" where
  "leave_rooms e [] u = Some (u, [])"
| "leave_rooms e (r # rs) u =
     (case leaveRoom e r u of
        None \<Rightarrow> None
      | Some (u, o1) \<Rightarrow> map_option (\<lambda>(u, o2). (u, o1 @ o2)) (leave_rooms e rs u))"

definition setIgnoreDisconnect :: "bool \<Rightarrow> user \<Rightarrow> user" where
  "setIgnoreDisconnect b u = u\<lparr>u_ignoreDisconnect := b\<rparr>"

definition onConnectingTimeout :: "uenv \<Rightarrow> user \<Rightarrow> user \<times> effect list" where
  "onConnectingTimeout e u =
     (if u_connected u \<or> u_readyForConnect u then (u, [])
      else (u\<lparr>u_reconnectTimer := False, u_readyForConnect := True\<rparr>,
            OnReadyToConnect #
            (case getHighestPriorityPresence (ue_sw e) (ue_orc e) (jid_bare (u_jid u)) of
               Some h \<Rightarrow> [OnPresenceChanged h]
             | None \<Rightarrow> [])))"

definition handleDiscoInfo :: "uenv \<Rightarrow> jid \<Rightarrow> string list \<Rightarrow> user \<Rightarrow> user \<times> effect list" where
  "handleDiscoInfo e j features u =
     onConnectingTimeout e (u\<lparr>u_legacyCaps := smap_put j features (u_legacyCaps u)\<rparr>)"

text \<open>
  \<open>XMPPFrontend::sendCapabilitiesRequest\<close>: cached capabilities are announced at once through
  \<open>onCapabilitiesReceived\<close>, which calls \<open>handleDiscoInfo\<close> of the same user, before they are
  returned. Otherwise they are asked for.
\<close>

definition sendCapabilitiesRequest :: "uenv \<Rightarrow> jid \<Rightarrow> user \<Rightarrow> user \<times> effect list \<times> string list option" where
  "sendCapabilitiesRequest e j u =
     (case ue_caps e j of
        None \<Rightarrow> (u, [SendCapabilitiesRequest j], None)
      | Some fs \<Rightarrow>
          if jid_bare j = u_jid u then let (u, out) = handleDiscoInfo e j fs u in (u, out, Some fs)
          else (u, [], Some fs))"

definition getJIDWithFeature_step :: "uenv \<Rightarrow> string \<Rightarrow> presence \<Rightarrow> user \<Rightarrow> user \<times> effect list \<times> jid list" where
  "getJIDWithFeature_step e feature p u =
     (if pr_type p = Unavailable then (u, [], [])
      else let (u, out, caps) = sendCapabilitiesRequest e (pr_from p) u;
               info = (case caps of Some fs \<Rightarrow> Some fs | None \<Rightarrow> smap_get (u_legacyCaps u) (pr_from p))
           in (u, out, case info of Some fs \<Rightarrow> if feature \<in> set fs then [pr_from p] else [] | None \<Rightarrow> []))"

fun getJIDWithFeature :: "uenv \<Rightarrow> string \<Rightarrow> presence list \<Rightarrow> user \<Rightarrow> user \<times> effect list \<times> jid list" where
  "getJIDWithFeature e feature [] u = (u, [], [])"
| "getJIDWithFeature e feature (p # ps) u =
     (let (u, o1, j1) = getJIDWithFeature_step e feature p u;
          (u, o2, j2) = getJIDWithFeature e feature ps u
      in (u, o1 @ o2, j1 @ j2))"

section \<open>A presence of the user\<close>

definition is_MUC :: "presence \<Rightarrow> bool" where
  "is_MUC p \<longleftrightarrow> muc_payload (pr_payloads p) \<noteq> None \<or> take 1 (jid_node (pr_to p)) = ''#''"

definition vcard_step :: "uenv \<Rightarrow> presence \<Rightarrow> user \<Rightarrow> effect list" where
  "vcard_step e p u =
     (case vcard_payload (pr_payloads p) of
        None \<Rightarrow> []
      | Some h \<Rightarrow>
          if (if u_storage u then ue_photohash e else []) \<noteq> h
          then (if u_storage u then [DbUpdateUserSetting ''photohash'' h] else []) @ [RequestVCard]
          else [])"

definition connect_step :: "uenv \<Rightarrow> presence \<Rightarrow> user \<Rightarrow> user \<times> effect list" where
  "connect_step e p u =
     (if u_connected u \<or> u_readyForConnect u then (u, [])
      else case caps_payload (pr_payloads p) of
             Some h \<Rightarrow>
               if h = ''sha-1''
               then (case sendCapabilitiesRequest e (pr_from p) u of
                       (u, out, Some fs) \<Rightarrow> (u\<lparr>u_readyForConnect := True\<rparr>, out @ [OnReadyToConnect])
                     | (u, out, None) \<Rightarrow> (u\<lparr>u_reconnectTimer := True\<rparr>, out))
               else if ue_server e then (u\<lparr>u_readyForConnect := True\<rparr>, [OnReadyToConnect])
               else (u\<lparr>u_reconnectTimer := True\<rparr>, [])
           | None \<Rightarrow>
               if ue_server e then (u\<lparr>u_readyForConnect := True\<rparr>, [OnReadyToConnect])
               else (u\<lparr>u_reconnectTimer := True\<rparr>, []))"

text \<open>A presence to leave a room.\<close>

definition leave_step :: "uenv \<Rightarrow> presence \<Rightarrow> user \<Rightarrow> (user \<times> effect list) option" where
  "leave_step e p u =
     (let room = JIDToLegacyName (ue_sw e) (\<lambda>_. None) (pr_to p)
      in case getConversation (u_convs u) room of
           None \<Rightarrow> Some (u, [])
         | Some key \<Rightarrow>
             (case smap_get (u_convs u) key of
                None \<Rightarrow> Some (u, [])
              | Some c \<Rightarrow>
                  (let (c, o1) = removeJID (cenv_of e u) (pr_from p) c;
                       u = u\<lparr>u_convs := smap_put key c (u_convs u)\<rparr>
                   in if c_jids c \<noteq> [] \<or> getUserSetting u ''stay_connected'' = ''1'' then Some (u, o1)
                      else map_option (\<lambda>(u, o2). (u, o1 @ [OnRawPresenceReceived p] @ o2)) (leaveRoom e room u))))"

text \<open>A presence to join a room.\<close>

definition join_step :: "uenv \<Rightarrow> presence \<Rightarrow> bool \<Rightarrow> user \<Rightarrow> user \<times> effect list" where
  "join_step e p forceJoin u =
     (let o0 = (if u_readyForConnect u then [] else [OnReadyToConnect]);
          u = u\<lparr>u_readyForConnect := True\<rparr>;
          room = JIDToLegacyName (ue_sw e) (\<lambda>_. None) (pr_to p);
          nick = jid_resource (pr_to p);
          password = (case muc_payload (pr_payloads p) of Some (Some pw) \<Rightarrow> pw | _ \<Rightarrow> []);
          join = [OnRawPresenceReceived p, OnRoomJoined (pr_from p) room nick password]
      in case getConversation (u_convs u) room of
           Some key \<Rightarrow>
             (case smap_get (u_convs u) key of
                None \<Rightarrow> (u, o0)
              | Some c \<Rightarrow>
                  (let (c, o1) =
                         (if pr_from p \<in> set (c_jids c) then (c, [])
                          else let c = c\<lparr>c_jids := c_jids c @ [pr_from p]\<rparr>;
                                   (c, oa) = sendParticipants (cenv_of e u) (pr_from p) nick c;
                                   (c, ob) = sendCachedMessages (cenv_of e u) (pr_from p) c
                               in (c, oa @ ob))
                   in (u\<lparr>u_convs := smap_put key c (u_convs u)\<rparr>, o0 @ o1 @ (if forceJoin then join else []))))
         | None \<Rightarrow>
             (let u = (if pr_to p \<in> pr_to ` set (u_joinedRooms u) then u
                       else u\<lparr>u_joinedRooms := u_joinedRooms u @ [p]\<rparr>)
              in if \<not> u_connected u then (u, o0)
                 else let c = setNickname nick (new_Conversation (cenv_of e u) room True);
                          c = c\<lparr>c_jids := [pr_from p]\<rparr>;
                          c = (if has_infix [CHR 0x5C, CHR ''4'', CHR ''0''] (sw_str (ue_sw e) (pr_to p)) then setMUCEscaping True c else c)
                      in (u\<lparr>u_convs := smap_put room c (u_convs u)\<rparr>, o0 @ join)))"

text \<open>The change of the presence on the legacy network at the end of \<open>handlePresence\<close>.\<close>

definition idle_step :: "uenv \<Rightarrow> user \<Rightarrow> user \<times> effect list" where
  "idle_step e u = setCacheMessages e True (u\<lparr>u_resources := 0, u_convs := clearJIDs (u_convs u)\<rparr>)"

definition network_step :: "uenv \<Rightarrow> user \<Rightarrow> user \<times> effect list" where
  "network_step e u =
     (if \<not> u_readyForConnect u then (u, [])
      else case getHighestPriorityPresence (ue_sw e) (ue_orc e) (jid_bare (u_jid u)) of
             Some h \<Rightarrow>
               if pr_type h = Unavailable \<and> getUserSetting u ''stay_connected'' = ''1'' then idle_step e u
               else let (u, out) = setCacheMessages e False u in (u, OnPresenceChanged h # out)
           | None \<Rightarrow>
               if getUserSetting u ''stay_connected'' = ''1'' then idle_step e u
               else (u, [OnPresenceChanged (mk_presence (jid_bare (u_jid u)) (cf_jid (ue_cf e)) Unavailable)]))"

definition resource_step :: "uenv \<Rightarrow> presence \<Rightarrow> user \<Rightarrow> (user \<times> effect list) option" where
  "resource_step e p u =
     (let count = int (length (getAllPresence (ue_orc e) (u_jid u)));
          u = u\<lparr>u_convs := resetResources (cenv_of e u) (u_convs u)\<rparr>
      in case (if pr_type p = Unavailable
               then let (cs, oa, rooms) = convs_removeJID (cenv_of e u) (pr_from p) (u_convs u)
                    in map_option (\<lambda>(u, ob). (u, oa @ ob)) (leave_rooms e rooms (u\<lparr>u_convs := cs\<rparr>))
               else Some (u, [])) of
           None \<Rightarrow> None
         | Some (u, o1) \<Rightarrow>
             (let (u, o2) =
                    (if ue_server e then (u, [])
                     else if pr_type p = Unavailable
                     then let (r, oa) = sendUnavailablePresences (renv_of e u) (pr_from p) (u_roster u)
                          in (u\<lparr>u_roster := r\<rparr>,
                              oa @ [SendPresence (mk_presence (pr_from p) (cf_jid (ue_cf e)) Unavailable)])
                     else (u, user_sendCurrentPresence e u));
                  (u, o3) =
                    (if pr_type p \<noteq> Unavailable \<and> count \<noteq> u_resources u
                     then let (r, oa) = sendCurrentPresences (renv_of e u) (pr_from p) (u_roster u)
                          in (u\<lparr>u_roster := r\<rparr>, oa)
                     else (u, []));
                  (u, o4) = network_step e (u\<lparr>u_resources := count\<rparr>)
              in Some (u, o1 @ o2 @ o3 @ o4)))"

definition handlePresence :: "uenv \<Rightarrow> presence \<Rightarrow> bool \<Rightarrow> user \<Rightarrow> (user \<times> effect list) option" where
  "handlePresence e p forceJoin u =
     (let o1 = vcard_step e p u;
          (u, o2) = connect_step e p u
      in if jid_node (pr_to p) = []
         then map_option (\<lambda>(u, o3). (u, o1 @ o2 @ o3)) (resource_step e p u)
         else if pr_type p = Unavailable
         then map_option (\<lambda>(u, o3). (u, o1 @ o2 @ o3)) (leave_step e p u)
         else if is_MUC p
         then let (u, o3) = join_step e p forceJoin u in Some (u, o1 @ o2 @ o3)
         else map_option (\<lambda>(u, o3). (u, o1 @ o2 @ OnRawPresenceReceived p # o3)) (resource_step e p u))"

fun rejoin_rooms :: "uenv \<Rightarrow> presence list \<Rightarrow> user \<Rightarrow> (user \<times> effect list) option" where
  "rejoin_rooms e [] u = Some (u, [])"
| "rejoin_rooms e (p # ps) u =
     (case handlePresence e p True u of
        None \<Rightarrow> None
      | Some (u, o1) \<Rightarrow> map_option (\<lambda>(u, o2). (u, o1 @ o2)) (rejoin_rooms e ps u))"

definition setConnected :: "uenv \<Rightarrow> bool \<Rightarrow> user \<Rightarrow> (user \<times> effect list) option" where
  "setConnected e connected u =
     (let u = u\<lparr>u_connected := connected, u_reconnectCounter := 0, u_ignoreDisconnect := False,
                u_lastActivity := ue_now e\<rparr>;
          o1 = user_sendCurrentPresence e u
      in if connected then map_option (\<lambda>(u, o2). (u, o1 @ o2)) (rejoin_rooms e (u_joinedRooms u) u)
         else Some (u, o1))"

section \<open>Disconnection\<close>

definition ERROR_NETWORK :: int where "ERROR_NETWORK = 0"
definition ERROR_OTHER :: int where "ERROR_OTHER = 16"

text \<open>
  \<open>handleDisconnected\<close>: the new user, the effects, and whether the user is then removed from the
  user manager.
\<close>

definition handleDisconnected :: "uenv \<Rightarrow> string \<Rightarrow> int \<Rightarrow> user \<Rightarrow> user \<times> effect list \<times> bool" where
  "handleDisconnected e error err u =
     (if u_ignoreDisconnect u then (u, [], False)
      else if (err = ERROR_OTHER \<or> err = ERROR_NETWORK)
              \<and> (u_reconnectLimit u < 0 \<or> u_reconnectCounter u < u_reconnectLimit u)
      then (u\<lparr>u_reconnectCounter := u_reconnectCounter u + 1\<rparr>,
            [OnUserDestroyed, OnUserCreated, OnReadyToConnect], False)
      else (u, [OnDisconnected,
                SendMessage (add_payload (SpectrumErrorP err)
                  (empty_message\<lparr>m_body := Some error, m_to := jid_bare (u_jid u), m_from := cf_jid (ue_cf e)\<rparr>)),
                DisconnectUser error err], True))"

section \<open>Reconnection\<close>

text \<open>The user after \<open>n\<close> disconnections in a row, with no successful login between them.\<close>

fun disconnections :: "uenv \<Rightarrow> string \<Rightarrow> int \<Rightarrow> nat \<Rightarrow> user \<Rightarrow> user" where
  "disconnections e error err 0 u = u"
| "disconnections e error err (Suc n) u = disconnections e error err n (fst (handleDisconnected e error err u))"

lemma disconnections_sel [simp]:
  "u_ignoreDisconnect (disconnections e error err n u) = u_ignoreDisconnect u"
  "u_reconnectLimit (disconnections e error err n u) = u_reconnectLimit u"
  by (induction n arbitrary: u) (auto simp: handleDisconnected_def)

lemma disconnections_counter:
  assumes "err = ERROR_OTHER \<or> err = ERROR_NETWORK" and "\<not> u_ignoreDisconnect u"
    and "0 \<le> u_reconnectLimit u" and "u_reconnectCounter u \<le> u_reconnectLimit u"
  shows "u_reconnectCounter (disconnections e error err n u)
    = min (u_reconnectLimit u) (u_reconnectCounter u + int n)"
  using assms
proof (induction n arbitrary: u)
  case (Suc n)
  define v where "v = fst (handleDisconnected e error err u)"
  have v: "\<not> u_ignoreDisconnect v" "u_reconnectLimit v = u_reconnectLimit u"
    "u_reconnectCounter v = min (u_reconnectLimit u) (u_reconnectCounter u + 1)"
    using Suc.prems by (auto simp: v_def handleDisconnected_def)
  with Suc.IH [OF Suc.prems(1) v(1)] Suc.prems(3) show ?case by (simp add: v_def [symmetric])
qed simp


definition witness_uenv :: uenv where
  "witness_uenv = \<lparr>ue_sw = witness_sw, ue_cf = ce_cf witness_cenv, ue_orc = ce_orc witness_cenv,
     ue_caps = (\<lambda>j. Some []), ue_photohash = [], ue_low = id, ue_now = 0\<rparr>"

definition witness_user :: user where
  "witness_user = new_User witness_uenv (JID ''u'' ''x'' (Some ''a''))
     \<lparr>ui_id = 1, ui_jid = ''u@x'', ui_uin = ''u'', ui_password = [], ui_language = [], ui_encoding = [], ui_settings = [(''stay_connected'', ''1'')],
      ui_vip = False\<rparr>"


section \<open>Logging in\<close>

text \<open>Effects that are stanzas to the user.\<close>

fun is_stanza :: "effect \<Rightarrow> bool" where
  "is_stanza (SendPresence p) = True"
| "is_stanza (SendMessage m) = True"
| "is_stanza _ = False"

fun is_presence :: "effect \<Rightarrow> bool" where
  "is_presence (SendPresence p) = True"
| "is_presence _ = False"

lemma is_presence_stanza: "is_presence x \<Longrightarrow> is_stanza x"
  by (cases x) auto

lemma presences_loop_effects:
  assumes "\<And>b x. x \<in> set (snd (f b)) \<Longrightarrow> is_presence x"
  shows "x \<in> set (snd (presences_loop f bs)) \<Longrightarrow> is_presence x"
proof (induction bs)
  case (Cons kb bs)
  obtain k ob where "kb = (k, ob)" by fastforce
  with Cons assms show ?case
    by (cases ob) (auto simp: Let_def prod.case_eq_if split: if_splits)
qed simp

lemma sendCurrentPresences_effects: "x \<in> set (snd (sendCurrentPresences re to r)) \<Longrightarrow> is_presence x"
  by (auto simp: sendCurrentPresences_def prod.case_eq_if sendBuddyPresences_def Let_def
      dest!: presences_loop_effects [rotated])

lemma sendUnavailablePresences_effects: "x \<in> set (snd (sendUnavailablePresences re to r)) \<Longrightarrow> is_presence x"
  by (auto simp: sendUnavailablePresences_def prod.case_eq_if unavailable_presences_def Let_def
      dest!: presences_loop_effects [rotated])

lemma removeJID_effects: "x \<in> set (snd (removeJID ce j c)) \<Longrightarrow> is_presence x"
  by (auto simp: removeJID_def Let_def prod.case_eq_if split: if_splits)

lemma convs_removeJID_effects: "x \<in> set (fst (snd (convs_removeJID ce j cs))) \<Longrightarrow> is_presence x"
  by (auto simp: convs_removeJID_def Let_def split_def split: if_splits dest!: removeJID_effects)

lemma sendCachedMessages_effects: "x \<in> set (snd (sendCachedMessages ce j c)) \<Longrightarrow> is_stanza x"
  by (auto simp: sendCachedMessages_def Let_def split: option.splits)

lemma setCacheMessages_effects: "x \<in> set (snd (setCacheMessages e b u)) \<Longrightarrow> is_stanza x"
  by (auto simp: setCacheMessages_def sendCachedChatMessages_def Let_def split_def split: if_splits
      dest!: sendCachedMessages_effects)

lemma leave_rooms_effects:
  "leave_rooms e rs u = Some (u', out) \<Longrightarrow> x \<in> set out \<Longrightarrow> \<exists>r. x = OnRoomLeft r"
proof (induction rs arbitrary: u out)
  case (Cons r rs)
  then obtain u1 o1 o2 where "leaveRoom e r u = Some (u1, o1)" "leave_rooms e rs u1 = Some (u', o2)" "out = o1 @ o2"
    by (auto split: option.splits)
  moreover have "\<exists>r. x = OnRoomLeft r" if "x \<in> set o1" for x
    using that calculation(1) by (auto simp: leaveRoom_def Let_def split: option.splits)
  ultimately show ?case using Cons.IH Cons.prems(2) by auto
qed simp

lemma network_step_effects:
  "x \<in> set (snd (network_step e u)) \<Longrightarrow> is_stanza x \<or> (\<exists>p. x = OnPresenceChanged p)"
  by (auto simp: network_step_def idle_step_def prod.case_eq_if split: if_splits option.splits
      dest!: setCacheMessages_effects)

lemma user_sendCurrentPresence_effects: "x \<in> set (user_sendCurrentPresence e u) \<Longrightarrow> is_presence x"
  by (auto simp: user_sendCurrentPresence_def Let_def split: if_splits)

lemma resource_step_effects:
  assumes "resource_step e p u = Some (u', out)" and "x \<in> set out"
  shows "is_stanza x \<or> (\<exists>q. x = OnPresenceChanged q) \<or> (\<exists>r. x = OnRoomLeft r)"
  using assms unfolding resource_step_def Let_def prod.case_eq_if
  by (auto split: if_splits option.splits simp: prod.case_eq_if
      dest!: network_step_effects convs_removeJID_effects leave_rooms_effects sendCurrentPresences_effects
        sendUnavailablePresences_effects user_sendCurrentPresence_effects dest: is_presence_stanza)

text \<open>
  The login is requested at most once for a presence, except when the client's capabilities are
  already cached: the capabilities request then announces them through the user himself, who asks
  for the login, and \<open>handlePresence\<close> asks a second time, so that the backend gets two logins.
\<close>

theorem login_requests:
  assumes "handlePresence e p forceJoin u = Some (u', out)" and "jid_node (pr_to p) = []"
    and "jid_bare (pr_from p) = u_jid u"
  shows "count_list out OnReadyToConnect =
    (if u_connected u \<or> u_readyForConnect u then 0
     else if caps_payload (pr_payloads p) = Some ''sha-1'' then (if ue_caps e (pr_from p) = None then 0 else 2)
     else if ue_server e then 1 else 0)"
proof -
  obtain o3 where out: "out = vcard_step e p u @ snd (connect_step e p u) @ o3"
    and res: "resource_step e p (fst (connect_step e p u)) = Some (u', o3)"
    using assms(1,2) by (auto simp: handlePresence_def Let_def prod.case_eq_if)
  have "count_list o3 OnReadyToConnect = 0"
    using resource_step_effects [OF res] by (fastforce simp: count_list_0_iff)
  moreover have "count_list (vcard_step e p u) OnReadyToConnect = 0"
    by (simp add: vcard_step_def split: option.splits)
  moreover have "count_list (snd (connect_step e p u)) OnReadyToConnect =
    (if u_connected u \<or> u_readyForConnect u then 0
     else if caps_payload (pr_payloads p) = Some ''sha-1'' then (if ue_caps e (pr_from p) = None then 0 else 2)
     else if ue_server e then 1 else 0)"
    using assms(3)
    by (simp add: connect_step_def sendCapabilitiesRequest_def handleDiscoInfo_def onConnectingTimeout_def Let_def
        prod.case_eq_if split: option.splits)
  ultimately show ?thesis by (simp add: out)
qed

definition available_from :: "string \<Rightarrow> presence" where
  "available_from r = mk_presence (JID [] ''gw'' None) (JID ''u'' ''x'' (Some r)) Available"

theorem login_requests_witness:
  "count_list (snd (the (handlePresence witness_uenv ((available_from ''a'')\<lparr>pr_payloads := [CapsInfoP ''sha-1'']\<rparr>)
      False witness_user))) OnReadyToConnect = 2"
proof -
  define p where "p = (available_from ''a'')\<lparr>pr_payloads := [CapsInfoP ''sha-1'']\<rparr>"
  have "handlePresence witness_uenv p False witness_user \<noteq> None"
    by (simp add: handlePresence_def resource_step_def Let_def p_def available_from_def prod.case_eq_if)
  then obtain u' out where "handlePresence witness_uenv p False witness_user = Some (u', out)" by auto
  moreover from login_requests [OF this] have "count_list out OnReadyToConnect = 2"
    by (simp add: p_def available_from_def witness_user_def new_User_def witness_uenv_def jid_bare_def)
  ultimately show ?thesis by (simp add: p_def)
qed

section \<open>Messages kept for a user who is away\<close>

lemma resetResources_get:
  "smap_get (resetResources ce cs) k = map_option (\<lambda>c. if c_muc c then c else c\<lparr>c_jid := jid_bare (ce_userJID ce)\<rparr>)
     (smap_get cs k)"
  by (induction cs) (auto simp: resetResources_def smap_get_Cons)

text \<open>
  Server mode keeps the chat messages of a user who stays connected while all his clients are
  away, but they are not delivered when he comes back: the available presence that ends the caching
  sends no message and leaves every cached message where it is. (They are sent the next time he
  goes away.)
\<close>

theorem cached_messages_not_delivered:
  assumes "ue_server e" and "u_cacheMessages u" and "u_connected u" and "u_readyForConnect u"
    and "pr_type p = Available" and "jid_node (pr_to p) = []"
    and "getHighestPriorityPresence (ue_sw e) (ue_orc e) (jid_bare (u_jid u)) = Some h" and "pr_type h \<noteq> Unavailable"
  shows "\<exists>u' out. handlePresence e p False u = Some (u', out) \<and> \<not> u_cacheMessages u'
    \<and> (\<forall>m. SendMessage m \<notin> set out)
    \<and> (\<forall>k. map_option c_cachedMessages (smap_get (u_convs u') k) = map_option c_cachedMessages (smap_get (u_convs u) k))"
proof -
  define u1 where "u1 = u\<lparr>u_convs := resetResources (cenv_of e u) (u_convs u)\<rparr>"
  define n where "n = int (length (getAllPresence (ue_orc e) (u_jid u)))"
  define rp where "rp = (if n \<noteq> u_resources u then sendCurrentPresences (renv_of e u1) (pr_from p) (u_roster u1) else (u_roster u1, []))"
  define u2 where "u2 = u1\<lparr>u_roster := fst rp, u_resources := n, u_cacheMessages := False\<rparr>"
  have conn: "connect_step e p u = (u, [])" using assms(3) by (simp add: connect_step_def)
  have net: "network_step e (v\<lparr>u_resources := n\<rparr>)
      = (v\<lparr>u_resources := n, u_cacheMessages := False\<rparr>, [OnPresenceChanged h])"
    if "u_readyForConnect v" "u_jid v = u_jid u" for v :: user
    using that assms(7,8) by (simp add: network_step_def setCacheMessages_def)
  have sel: "u_resources u1 = u_resources u" "u_readyForConnect u1" "u_jid u1 = u_jid u"
    using assms(4) by (simp_all add: u1_def)
  have "resource_step e p u = Some (u2, snd rp @ [OnPresenceChanged h])"
  proof (cases "n = u_resources u")
    case True
    then show ?thesis
      unfolding resource_step_def Let_def n_def [symmetric] u1_def [symmetric]
      using assms(1,5) net [OF sel(2,3)] sel by (simp add: rp_def u2_def)
  next
    case False
    define r where "r = sendCurrentPresences (renv_of e u1) (pr_from p) (u_roster u1)"
    have "network_step e (u1\<lparr>u_roster := fst r, u_resources := n\<rparr>)
        = (u1\<lparr>u_roster := fst r, u_resources := n, u_cacheMessages := False\<rparr>, [OnPresenceChanged h])"
      using net [of "u1\<lparr>u_roster := fst r\<rparr>"] sel by simp
    with False show ?thesis
      unfolding resource_step_def Let_def n_def [symmetric] u1_def [symmetric]
      using assms(1,5) sel by (simp add: rp_def u2_def r_def [symmetric] prod.case_eq_if)
  qed
  then have res: "handlePresence e p False u = Some (u2, vcard_step e p u @ snd rp @ [OnPresenceChanged h])"
    using assms(5,6) conn by (simp add: handlePresence_def Let_def)
  have "SendMessage m \<notin> set (snd rp)" for m
    using sendCurrentPresences_effects [of "SendMessage m" "renv_of e u1" "pr_from p" "u_roster u1"]
    by (auto simp: rp_def)
  moreover have "SendMessage m \<notin> set (vcard_step e p u)" for m
    by (auto simp: vcard_step_def split: option.splits)
  moreover have "map_option c_cachedMessages (smap_get (u_convs u2) k) = map_option c_cachedMessages (smap_get (u_convs u) k)" for k
    by (auto simp: u2_def u1_def resetResources_get option.map_comp comp_def intro!: option.map_cong)
  ultimately show ?thesis using res by (auto simp: u2_def)
qed

theorem cached_messages_not_delivered_witness:
  "\<exists>u' out. handlePresence witness_uenv (available_from ''a'') False
      (witness_user\<lparr>u_cacheMessages := True, u_connected := True, u_readyForConnect := True,
        u_convs := [(''bob'', cacheMessage witness_cenv empty_message (new_Conversation witness_cenv ''bob'' False))]\<rparr>)
        = Some (u', out)
    \<and> (\<forall>m. SendMessage m \<notin> set out)
    \<and> map_option (\<lambda>c. length (c_cachedMessages c)) (smap_get (u_convs u') ''bob'') = Some 1"
proof -
  define u where "u = witness_user\<lparr>u_cacheMessages := True, u_connected := True, u_readyForConnect := True,
    u_convs := [(''bob'', cacheMessage witness_cenv empty_message (new_Conversation witness_cenv ''bob'' False))]\<rparr>"
  have hi: "getHighestPriorityPresence (ue_sw witness_uenv) (ue_orc witness_uenv) (jid_bare (u_jid u)) = Some (available_from ''a'')"
    unfolding u_def by code_simp
  have len: "map_option c_cachedMessages (smap_get (u_convs u) ''bob'') = Some [add_payload (DelayP 0) empty_message]"
    by (simp add: u_def smap_get_Cons cacheMessage_def new_Conversation_def witness_cenv_def)
  have "ue_server witness_uenv" by code_simp
  then obtain u' out where r: "handlePresence witness_uenv (available_from ''a'') False u = Some (u', out)"
    "\<forall>m. SendMessage m \<notin> set out"
    "\<forall>k. map_option c_cachedMessages (smap_get (u_convs u') k) = map_option c_cachedMessages (smap_get (u_convs u) k)"
    using cached_messages_not_delivered [OF _ _ _ _ _ _ hi, of "available_from ''a''"]
    by (auto simp: u_def available_from_def)
  from r(3) len have "map_option c_cachedMessages (smap_get (u_convs u') ''bob'') = Some [add_payload (DelayP 0) empty_message]"
    by metis
  then have "map_option (\<lambda>c. length (c_cachedMessages c)) (smap_get (u_convs u') ''bob'') = Some 1" by auto
  with r show ?thesis unfolding u_def by blast
qed

section \<open>Rooms joined before the network is\<close>



end
