(* ===== verification/Sessions.thy ===== *)
theory Sessions
  imports Stanza
begin

text \<open>
  Server mode: the sessions of the XMPP clients
  (\<open>include/Swiften/Server/ServerFromClientSession.cpp\<close> and \<open>Server.cpp\<close>), the registry that has
  their passwords checked by the legacy network (\<open>libtransport/UserRegistry.cpp\<close>) and the channel
  that routes stanzas to them (\<open>include/Swiften/Server/ServerStanzaChannel.cpp\<close>).

  Sessions are numbered objects in a heap. The registry keeps raw pointers to them, so a pointer
  to a session that is gone is possible; following it, or a null pointer, is \<open>None\<close>. The signals
  to the user manager are outputs. Three things are not in the repository and are parameters: the
  parser of a PLAIN message, the random numbers of the resource, and whether Swiften reports the
  end of a session while \<open>finishSession\<close> is still running (\<open>sv_sync\<close>) or later. \<open>sv_swiften5\<close> is the
  build switch \<open>HAVE_SWIFTEN_5\<close>.
\<close>

section \<open>State\<close>

datatype iqtype = Get | Set | Result | IQError

datatype iqpayload = ResourceBindP | StartSessionP | OtherIQP string

record iq =
  iq_type :: iqtype
  iq_id :: string
  iq_to :: jid
  iq_from :: jid
  iq_payload :: iqpayload

datatype stanza = StMessage message | StPresence presence | StIQ iq

datatype element =
    AuthRequest string string
  | StartTLSRequest
  | Stanza stanza
  | StreamErrorE string
  | OtherElement

record session =
  se_id :: string
  se_user :: string
  se_local :: jid
  se_remote :: jid
  se_authenticated :: bool
  se_initialized :: bool
  se_external :: bool
  se_tls :: bool
  se_tlsConnected :: bool

record server =
  sv_heap :: "(nat, session) smap"
  sv_next :: nat
  sv_users :: "(string, string \<times> nat) smap"
  sv_slots :: "jid list"
  sv_inRemoveLater :: bool
  sv_channel :: "(string, nat list) smap"

datatype sout =
    WriteHeader nat jid string
  | WriteFeatures nat bool "string list" bool
  | WriteAuthSuccess nat
  | WriteAuthFailure nat
  | WriteStreamError nat string
  | WriteProceed nat
  | WriteBind nat string jid
  | WriteResult nat jid string
  | ResetParser nat
  | FinishSession nat
  | SendTo nat element
  | SigConnect jid
  | SigDisconnect jid
  | SigPresence presence
  | SigMessage message
  | SigIQ iq

record senv =
  se_sw :: swiften
  se_cf :: settings
  sv_sync :: bool
  sv_swiften5 :: bool
  sv_tlsFactory :: bool
  sv_plain :: "string \<Rightarrow> string \<times> string"
  sv_rand :: "nat \<Rightarrow> nat"

type_synonym sres = "(server \<times> sout list) option"

definition get_session :: "server \<Rightarrow> nat \<Rightarrow> session option" where
  "get_session R s = smap_get (sv_heap R) s"

definition put_session :: "nat \<Rightarrow> session \<Rightarrow> server \<Rightarrow> server" where
  "put_session s se R = R\<lparr>sv_heap := smap_put s se (sv_heap R)\<rparr>"

text \<open>Two calls one after the other.\<close>

definition and_then :: "sres \<Rightarrow> (server \<Rightarrow> sres) \<Rightarrow> sres" where
  "and_then r f = (case r of None \<Rightarrow> None
     | Some (R, o1) \<Rightarrow> (case f R of None \<Rightarrow> None | Some (R, o2) \<Rightarrow> Some (R, o1 @ o2)))"

text \<open>\<open>user.toBare().toString()\<close>, the key of the registry, and \<open>getBareJID\<close> of a session.\<close>

definition user_key :: "senv \<Rightarrow> jid \<Rightarrow> string" where
  "user_key e j = sw_str (se_sw e) (jid_bare j)"

definition getBareJID :: "senv \<Rightarrow> session \<Rightarrow> jid" where
  "getBareJID e se = sw_jid (se_sw e) (se_user se) (jid_domain (se_local se)) None"

section \<open>The stanza channel\<close>

definition channel_of :: "senv \<Rightarrow> jid \<Rightarrow> server \<Rightarrow> nat list" where
  "channel_of e j R = smap_get_or [] (sv_channel R) (user_key e j)"

definition addSession :: "senv \<Rightarrow> nat \<Rightarrow> session \<Rightarrow> server \<Rightarrow> server" where
  "addSession e s se R = R\<lparr>sv_channel :=
     smap_put (user_key e (se_remote se)) (channel_of e (se_remote se) R @ [s]) (sv_channel R)\<rparr>"

definition removeSession :: "senv \<Rightarrow> nat \<Rightarrow> session \<Rightarrow> server \<Rightarrow> server" where
  "removeSession e s se R = R\<lparr>sv_channel :=
     smap_put (user_key e (se_remote se)) (removeAll s (channel_of e (se_remote se) R)) (sv_channel R)\<rparr>"

definition unavailable_from :: "session \<Rightarrow> presence" where
  "unavailable_from se = mk_presence jid_none (se_remote se) Unavailable"

definition channel_handleSessionFinished :: "senv \<Rightarrow> nat \<Rightarrow> session \<Rightarrow> server \<Rightarrow> server \<times> sout list" where
  "channel_handleSessionFinished e s se R = (removeSession e s se R, [SigPresence (unavailable_from se)])"

definition channel_handleDataRead :: "string \<Rightarrow> session \<Rightarrow> sout list" where
  "channel_handleDataRead data se =
     (if has_infix ''</stream:stream>'' data then [SigPresence (unavailable_from se)] else [])"

definition channel_handleElement :: "senv \<Rightarrow> element \<Rightarrow> session \<Rightarrow> sout list" where
  "channel_handleElement e el se =
     (if \<not> sw_valid (se_sw e) (se_remote se) then []
      else case el of
             Stanza (StMessage m) \<Rightarrow> [SigMessage (m\<lparr>m_from := se_remote se\<rparr>)]
           | Stanza (StPresence p) \<Rightarrow> [SigPresence (p\<lparr>pr_from := se_remote se\<rparr>)]
           | Stanza (StIQ q) \<Rightarrow> [SigIQ (q\<lparr>iq_from := se_remote se\<rparr>)]
           | _ \<Rightarrow> [])"

fun stanza_to :: "stanza \<Rightarrow> jid" where
  "stanza_to (StMessage m) = m_to m"
| "stanza_to (StPresence p) = pr_to p"
| "stanza_to (StIQ q) = iq_to q"

text \<open>A sender is filled in, except for the answers to requests.\<close>

fun fill_from :: "senv \<Rightarrow> stanza \<Rightarrow> stanza" where
  "fill_from e (StMessage m) =
     StMessage (if sw_valid (se_sw e) (m_from m) then m else m\<lparr>m_from := cf_jid (se_cf e)\<rparr>)"
| "fill_from e (StPresence p) =
     StPresence (if sw_valid (se_sw e) (pr_from p) then p else p\<lparr>pr_from := cf_jid (se_cf e)\<rparr>)"
| "fill_from e (StIQ q) =
     StIQ (if sw_valid (se_sw e) (iq_from q) \<or> iq_type q = Result \<or> iq_type q = IQError then q
           else q\<lparr>iq_from := cf_jid (se_cf e)\<rparr>)"

definition has_jid :: "server \<Rightarrow> jid \<Rightarrow> nat \<Rightarrow> bool" where
  "has_jid R j s = (case get_session R s of None \<Rightarrow> False | Some se \<Rightarrow> se_remote se = j)"

definition has_bare :: "server \<Rightarrow> jid \<Rightarrow> nat \<Rightarrow> bool" where
  "has_bare R j s = (case get_session R s of None \<Rightarrow> False | Some se \<Rightarrow> jid_bare (se_remote se) = jid_bare j)"

definition channel_send :: "senv \<Rightarrow> stanza \<Rightarrow> server \<Rightarrow> sout list option" where
  "channel_send e st R =
     (let to = stanza_to st; st = fill_from e st; ss = channel_of e to R
      in if \<not> sw_valid (se_sw e) to then None
         else case (if jid_isBare to then None else find (has_jid R to) ss) of
                Some s \<Rightarrow> Some [SendTo s (Stanza st)]
              | None \<Rightarrow> Some (map (\<lambda>s. SendTo s (Stanza st)) (filter (has_bare R to) ss)))"

section \<open>The end of a session\<close>

definition stopLogin :: "senv \<Rightarrow> jid \<Rightarrow> nat \<Rightarrow> server \<Rightarrow> server \<times> sout list" where
  "stopLogin e j s R =
     (let key = user_key e j;
          R = (case smap_get (sv_users R) key of
                 None \<Rightarrow> R
               | Some (_, s') \<Rightarrow> if s' = s then R\<lparr>sv_users := smap_del key (sv_users R)\<rparr> else R)
      in (R, if sv_inRemoveLater R then [] else [SigDisconnect j]))"

text \<open>
  Swiften tells the session that its connection has gone (\<open>handleSessionFinished\<close>) and then emits
  \<open>onSessionFinished\<close>: the server drops its reference, the channel announces the user unavailable
  if it knows the session, and the object is deleted.
\<close>

definition session_finished :: "senv \<Rightarrow> nat \<Rightarrow> server \<Rightarrow> sres" where
  "session_finished e s R =
     (case get_session R s of
        None \<Rightarrow> None
      | Some se \<Rightarrow>
          (let (R, o1) = stopLogin e (getBareJID e se) s R;
               (R, o2) = (if s \<in> set (channel_of e (se_remote se) R)
                          then channel_handleSessionFinished e s se R else (R, []))
           in Some (R\<lparr>sv_heap := smap_del s (sv_heap R)\<rparr>, o1 @ o2)))"

definition finishSession :: "senv \<Rightarrow> nat \<Rightarrow> server \<Rightarrow> sres" where
  "finishSession e s R =
     (if sv_sync e then and_then (Some (R, [FinishSession s])) (session_finished e s)
      else Some (R, [FinishSession s]))"

text \<open>\<open>ServerStanzaChannel::finishSession\<close>: the sessions of a user are closed, or only the first.\<close>

fun finish_all :: "senv \<Rightarrow> element option \<Rightarrow> bool \<Rightarrow> nat list \<Rightarrow> server \<Rightarrow> sres" where
  "finish_all e el lst [] R = Some (R, [])"
| "finish_all e el lst (s # ss) R =
     (case get_session R s of
        None \<Rightarrow> None
      | Some se \<Rightarrow>
          (let R = removeSession e s se R;
               o1 = (case el of None \<Rightarrow> [] | Some x \<Rightarrow> [SendTo s x]);
               o2 = (if lst \<and> sw_valid (se_sw e) (se_remote se) then [SigPresence (unavailable_from se)] else [])
           in and_then (and_then (Some (R, o1 @ o2)) (finishSession e s))
                (if lst then (\<lambda>R. Some (R, [])) else finish_all e el lst ss)))"

definition channel_finishSession :: "senv \<Rightarrow> jid \<Rightarrow> element option \<Rightarrow> bool \<Rightarrow> server \<Rightarrow> sres" where
  "channel_finishSession e to el lst R = finish_all e el lst (channel_of e to R) R"

section \<open>Passwords\<close>

definition handlePasswordValid :: "nat \<Rightarrow> server \<Rightarrow> sres" where
  "handlePasswordValid s R =
     (case get_session R s of
        None \<Rightarrow> None
      | Some se \<Rightarrow>
          if se_initialized se then Some (R, [])
          else Some (put_session s (se\<lparr>se_authenticated := True\<rparr>) R, [WriteAuthSuccess s, ResetParser s]))"

definition handlePasswordInvalid :: "senv \<Rightarrow> string \<Rightarrow> nat \<Rightarrow> server \<Rightarrow> sres" where
  "handlePasswordInvalid e error s R =
     (case get_session R s of
        None \<Rightarrow> None
      | Some se \<Rightarrow>
          if se_initialized se then Some (R, [])
          else and_then
                 (Some (R, WriteAuthFailure s # (if error = [] then [] else [WriteStreamError s error])))
                 (finishSession e s))"

definition isValidUserPassword :: "senv \<Rightarrow> jid \<Rightarrow> nat \<Rightarrow> string \<Rightarrow> server \<Rightarrow> sres" where
  "isValidUserPassword e j s password R =
     (let key = user_key e j
      in if key \<in> set (cf_admin_jid (se_cf e))
         then if password = cf_admin_password (se_cf e) then handlePasswordValid s R
              else handlePasswordInvalid e [] s R
         else and_then
                (case smap_get (sv_users R) key of
                   None \<Rightarrow> Some (R, [])
                 | Some (pw, tmp) \<Rightarrow>
                     handlePasswordInvalid e [] tmp (R\<lparr>sv_users := smap_put key (pw, s) (sv_users R)\<rparr>))
                (\<lambda>R. Some (R\<lparr>sv_users := smap_put key (password, s) (sv_users R)\<rparr>, [SigConnect j])))"

definition onPasswordValid :: "senv \<Rightarrow> jid \<Rightarrow> server \<Rightarrow> sres" where
  "onPasswordValid e j R =
     (let key = user_key e j
      in case smap_get (sv_users R) key of
           None \<Rightarrow> Some (R, [])
         | Some (_, s) \<Rightarrow>
             and_then (handlePasswordValid s R) (\<lambda>R. Some (R\<lparr>sv_users := smap_del key (sv_users R)\<rparr>, [])))"

definition onPasswordInvalid :: "senv \<Rightarrow> jid \<Rightarrow> string \<Rightarrow> server \<Rightarrow> sres" where
  "onPasswordInvalid e j error R =
     (let key = user_key e j
      in case smap_get (sv_users R) key of
           None \<Rightarrow> Some (R, [])
         | Some (_, s) \<Rightarrow>
             and_then (handlePasswordInvalid e error s R)
               (\<lambda>R. Some (R\<lparr>sv_users := smap_del key (sv_users R)\<rparr>, [])))"

definition handleRemoveTimeout :: "senv \<Rightarrow> jid \<Rightarrow> server \<Rightarrow> sres" where
  "handleRemoveTimeout e j R =
     and_then (onPasswordInvalid e j [] (R\<lparr>sv_inRemoveLater := True\<rparr>))
       (\<lambda>R. Some (R\<lparr>sv_inRemoveLater := False\<rparr>, []))"

text \<open>The timer calls every slot that was ever connected.\<close>

definition removeLater :: "jid \<Rightarrow> server \<Rightarrow> server" where
  "removeLater j R = R\<lparr>sv_slots := sv_slots R @ [j]\<rparr>"

fun tick_slots :: "senv \<Rightarrow> jid list \<Rightarrow> server \<Rightarrow> sres" where
  "tick_slots e [] R = Some (R, [])"
| "tick_slots e (j # js) R = and_then (handleRemoveTimeout e j R) (tick_slots e js)"

definition remove_tick :: "senv \<Rightarrow> server \<Rightarrow> sres" where
  "remove_tick e R = tick_slots e (sv_slots R) R"

definition getUserPassword :: "string \<Rightarrow> server \<Rightarrow> string" where
  "getUserPassword key R = (case smap_get (sv_users R) key of None \<Rightarrow> [] | Some (pw, _) \<Rightarrow> pw)"

section \<open>A client connects and talks\<close>

definition new_session :: "senv \<Rightarrow> string \<Rightarrow> session" where
  "new_session e i = \<lparr>se_id = i, se_user = [], se_local = jid_none, se_remote = jid_none,
     se_authenticated = False, se_initialized = False, se_external = False,
     se_tls = sv_tlsFactory e, se_tlsConnected = False\<rparr>"

definition server_handleNewClientConnection :: "senv \<Rightarrow> string \<Rightarrow> server \<Rightarrow> server" where
  "server_handleNewClientConnection e i R =
     (put_session (sv_next R) (new_session e i) R)\<lparr>sv_next := Suc (sv_next R)\<rparr>"

definition handleStreamStart :: "jid \<Rightarrow> nat \<Rightarrow> server \<Rightarrow> sres" where
  "handleStreamStart to s R =
     (case get_session R s of
        None \<Rightarrow> None
      | Some se \<Rightarrow>
          Some (put_session s (se\<lparr>se_local := to\<rparr>) R,
            [WriteHeader s to (se_id se),
             if se_authenticated se then WriteFeatures s False [] True
             else WriteFeatures s (se_tls se \<and> \<not> se_tlsConnected se)
                    (''PLAIN'' # (if se_external se then [''EXTERNAL''] else [])) False]))"

definition bind_resource :: "senv \<Rightarrow> string" where
  "bind_resource e = map (\<lambda>i. ''abcdefghijklmnopqrstuvwxyz'' ! (sv_rand e i mod 26)) [0..<10]"

definition setInitialized :: "senv \<Rightarrow> nat \<Rightarrow> session \<Rightarrow> server \<Rightarrow> server" where
  "setInitialized e s se R =
     addSession e s (se\<lparr>se_initialized := True\<rparr>) (put_session s (se\<lparr>se_initialized := True\<rparr>) R)"

definition handle_auth :: "senv \<Rightarrow> string \<Rightarrow> string \<Rightarrow> nat \<Rightarrow> session \<Rightarrow> server \<Rightarrow> sres" where
  "handle_auth e mechanism msg s se R =
     (if se_external se \<and> mechanism = ''EXTERNAL''
      then Some (put_session s (se\<lparr>se_authenticated := True\<rparr>) R, [WriteAuthSuccess s, ResetParser s])
      else if mechanism = ''PLAIN''
      then let (name, password) = sv_plain e msg;
               se = se\<lparr>se_user := name\<rparr>
           in isValidUserPassword e (getBareJID e se) s password (put_session s se R)
      else and_then (Some (R, [WriteAuthFailure s])) (finishSession e s))"

definition handleElement :: "senv \<Rightarrow> element \<Rightarrow> nat \<Rightarrow> server \<Rightarrow> sres" where
  "handleElement e el s R =
     (case get_session R s of
        None \<Rightarrow> None
      | Some se \<Rightarrow>
          if se_initialized se
          then Some (R, if s \<in> set (channel_of e (se_remote se) R) then channel_handleElement e el se else [])
          else case el of
                 AuthRequest mechanism msg \<Rightarrow> handle_auth e mechanism msg s se R
               | StartTLSRequest \<Rightarrow>
                   if se_tls se
                   then Some (put_session s (se\<lparr>se_tls := \<not> sv_swiften5 e\<rparr>) R, [WriteProceed s, ResetParser s])
                   else None
               | Stanza (StIQ q) \<Rightarrow>
                   (case iq_payload q of
                      ResourceBindP \<Rightarrow>
                        (let j = sw_jid (se_sw e) (se_user se) (jid_domain (se_local se)) (Some (bind_resource e))
                         in Some (put_session s (se\<lparr>se_remote := j\<rparr>) R, [WriteBind s (iq_id q) j]))
                    | StartSessionP \<Rightarrow> Some (setInitialized e s se R, [WriteResult s (se_remote se) (iq_id q)])
                    | OtherIQP _ \<Rightarrow> Some (R, []))
               | _ \<Rightarrow> Some (R, []))"

text \<open>\<open>TLSServerLayer\<close> reports that the encryption is set up.\<close>

definition handleTLSConnected :: "nat \<Rightarrow> server \<Rightarrow> sres" where
  "handleTLSConnected s R =
     (case get_session R s of
        None \<Rightarrow> None
      | Some se \<Rightarrow> Some (put_session s (se\<lparr>se_tlsConnected := True\<rparr>) R, []))"

section \<open>Runs\<close>

text \<open>
  Everything that can happen to the server. What concerns a session that has gone does not happen
  any more.
\<close>

datatype event =
    NewConnection string
  | StreamStart nat jid
  | Element nat element
  | TLSConnected nat
  | Disconnected nat
  | PasswordValid jid
  | PasswordInvalid jid string
  | RemoveLater jid
  | RemoveTick
  | FinishUser jid "element option" bool

definition if_alive :: "nat \<Rightarrow> (server \<Rightarrow> sres) \<Rightarrow> server \<Rightarrow> sres" where
  "if_alive s f R = (if get_session R s = None then Some (R, []) else f R)"

fun event_step :: "senv \<Rightarrow> event \<Rightarrow> server \<Rightarrow> sres" where
  "event_step e (NewConnection i) R = Some (server_handleNewClientConnection e i R, [])"
| "event_step e (StreamStart s to) R = if_alive s (handleStreamStart to s) R"
| "event_step e (Element s el) R = if_alive s (handleElement e el s) R"
| "event_step e (TLSConnected s) R = if_alive s (handleTLSConnected s) R"
| "event_step e (Disconnected s) R = if_alive s (session_finished e s) R"
| "event_step e (PasswordValid j) R = onPasswordValid e j R"
| "event_step e (PasswordInvalid j error) R = onPasswordInvalid e j error R"
| "event_step e (RemoveLater j) R = Some (removeLater j R, [])"
| "event_step e RemoveTick R = remove_tick e R"
| "event_step e (FinishUser j el lst) R = channel_finishSession e j el lst R"

fun run_events :: "senv \<Rightarrow> event list \<Rightarrow> server \<Rightarrow> sres" where
  "run_events e [] R = Some (R, [])"
| "run_events e (ev # evs) R = and_then (event_step e ev R) (run_events e evs)"

definition empty_server :: server where
  "empty_server = \<lparr>sv_heap = [], sv_next = 0, sv_users = [], sv_slots = [], sv_inRemoveLater = False,
     sv_channel = []\<rparr>"

section \<open>Invariant\<close>

text \<open>
  The sessions the registry and the channel know are alive, and filed under the name they log in
  with or are bound to; the channel knows a session once, and only an initialized one.
\<close>

definition pending :: "server \<Rightarrow> nat \<Rightarrow> bool" where
  "pending R s \<longleftrightarrow> s \<in> snd ` snd ` set (sv_users R)"

definition login_ok :: "senv \<Rightarrow> server \<Rightarrow> bool" where
  "login_ok e R \<longleftrightarrow> (\<forall>(k, pw, s) \<in> set (sv_users R).
     case get_session R s of None \<Rightarrow> False | Some se \<Rightarrow> user_key e (getBareJID e se) = k)"

definition channel_ok :: "senv \<Rightarrow> server \<Rightarrow> bool" where
  "channel_ok e R \<longleftrightarrow> (\<forall>(k, ss) \<in> set (sv_channel R). distinct ss \<and> (\<forall>s \<in> set ss.
     case get_session R s of None \<Rightarrow> False | Some se \<Rightarrow> se_initialized se \<and> user_key e (se_remote se) = k))"

definition server_ok :: "senv \<Rightarrow> server \<Rightarrow> bool" where
  "server_ok e R \<longleftrightarrow> smap_ok (sv_users R) \<and> smap_ok (sv_channel R) \<and> login_ok e R \<and> channel_ok e R
     \<and> (\<forall>(s, se) \<in> set (sv_heap R). s < sv_next R)"

lemma pending_iff: "smap_ok (sv_users R) \<Longrightarrow> pending R s \<longleftrightarrow> (\<exists>k pw. smap_get (sv_users R) k = Some (pw, s))"
  by (auto simp: pending_def smap_get_iff image_iff) force+

lemma login_ok_iff: "smap_ok (sv_users R) \<Longrightarrow> login_ok e R \<longleftrightarrow>
  (\<forall>k pw s. smap_get (sv_users R) k = Some (pw, s) \<longrightarrow>
     (\<exists>se. get_session R s = Some se \<and> user_key e (getBareJID e se) = k))"
  by (fastforce simp: login_ok_def smap_get_iff split: option.splits)

lemma channel_ok_iff: "smap_ok (sv_channel R) \<Longrightarrow> channel_ok e R \<longleftrightarrow>
  (\<forall>k. distinct (smap_get_or [] (sv_channel R) k) \<and> (\<forall>s \<in> set (smap_get_or [] (sv_channel R) k).
     \<exists>se. get_session R s = Some se \<and> se_initialized se \<and> user_key e (se_remote se) = k))"
  by (fastforce simp: channel_ok_def smap_get_or_def smap_get_iff [symmetric] split: option.splits)

lemma heap_bound_iff: "(\<forall>(s, se) \<in> set (sv_heap R). s < n) \<longleftrightarrow> (\<forall>s. get_session R s \<noteq> None \<longrightarrow> s < n)"
  by (force simp: get_session_def smap_get_None_iff)

text \<open>The same with lookups, for the proofs.\<close>

lemma server_ok_iff: "server_ok e R \<longleftrightarrow> smap_ok (sv_users R) \<and> smap_ok (sv_channel R)
  \<and> (\<forall>k pw s. smap_get (sv_users R) k = Some (pw, s) \<longrightarrow>
       (\<exists>se. get_session R s = Some se \<and> user_key e (getBareJID e se) = k))
  \<and> (\<forall>k. distinct (smap_get_or [] (sv_channel R) k) \<and> (\<forall>s \<in> set (smap_get_or [] (sv_channel R) k).
       \<exists>se. get_session R s = Some se \<and> se_initialized se \<and> user_key e (se_remote se) = k))
  \<and> (\<forall>s. get_session R s \<noteq> None \<longrightarrow> s < sv_next R)"
  by (auto simp: server_ok_def login_ok_iff channel_ok_iff heap_bound_iff)

subsection \<open>Single updates\<close>

lemma get_put_session [simp]: "get_session (put_session s se R) = (get_session R)(s \<mapsto> se)"
  by (simp add: get_session_def put_session_def smap_get_put fun_eq_iff)

lemma put_session_sel [simp]:
  "sv_users (put_session s se R) = sv_users R" "sv_channel (put_session s se R) = sv_channel R"
  "sv_next (put_session s se R) = sv_next R"
  by (simp_all add: put_session_def)

lemma get_session_upd [simp]:
  "get_session (R\<lparr>sv_users := us\<rparr>) = get_session R" "get_session (R\<lparr>sv_channel := cs\<rparr>) = get_session R"
  "get_session (R\<lparr>sv_inRemoveLater := b\<rparr>) = get_session R" "get_session (R\<lparr>sv_slots := js\<rparr>) = get_session R"
  "get_session (R\<lparr>sv_next := n\<rparr>) = get_session R"
  "get_session (R\<lparr>sv_heap := smap_del s (sv_heap R)\<rparr>) = (get_session R)(s := None)"
  by (simp_all add: get_session_def smap_get_del fun_eq_iff)

lemma server_ok_flags [simp]:
  "server_ok e (R\<lparr>sv_inRemoveLater := b\<rparr>) = server_ok e R" "server_ok e (R\<lparr>sv_slots := js\<rparr>) = server_ok e R"
  by (simp_all add: server_ok_iff)

lemma server_ok_put_session:
  assumes "server_ok e R" and "get_session R s = Some se"
    and "pending R s \<Longrightarrow> user_key e (getBareJID e se') = user_key e (getBareJID e se)"
    and "se_initialized se \<Longrightarrow> se_initialized se' \<and> se_remote se' = se_remote se"
  shows "server_ok e (put_session s se' R)"
  using assms unfolding server_ok_iff
  by (auto simp: pending_iff) (metis option.inject)+

lemma server_ok_users_del [inv_intros]:
  "server_ok e R \<Longrightarrow> server_ok e (R\<lparr>sv_users := smap_del k (sv_users R)\<rparr>)"
  by (auto simp: server_ok_iff smap_get_del smap_ok_del)

lemma server_ok_users_put [inv_intros]:
  "server_ok e R \<Longrightarrow> get_session R s = Some se \<Longrightarrow> user_key e (getBareJID e se) = k
   \<Longrightarrow> server_ok e (R\<lparr>sv_users := smap_put k (pw, s) (sv_users R)\<rparr>)"
  by (auto simp: server_ok_iff smap_get_put smap_ok_put)

lemma channel_put [simp]:
  "smap_get_or d (smap_put k v m) k' = (if k' = k then v else smap_get_or d m k')"
  by (simp add: smap_get_or_def smap_get_put)

lemma server_ok_removeSession [inv_intros]: "server_ok e R \<Longrightarrow> server_ok e (removeSession e s se R)"
  by (auto simp: server_ok_iff removeSession_def channel_of_def smap_ok_put distinct_removeAll)

lemma server_ok_delete:
  "server_ok e R \<Longrightarrow> \<not> pending R s \<Longrightarrow> (\<And>k. s \<notin> set (smap_get_or [] (sv_channel R) k))
   \<Longrightarrow> server_ok e (R\<lparr>sv_heap := smap_del s (sv_heap R)\<rparr>)"
  by (auto simp: server_ok_iff pending_iff)

lemma server_ok_addSession:
  "server_ok e R \<Longrightarrow> get_session R s = Some se \<Longrightarrow> se_initialized se
   \<Longrightarrow> (\<And>k. s \<notin> set (smap_get_or [] (sv_channel R) k)) \<Longrightarrow> server_ok e (addSession e s se R)"
  by (auto simp: server_ok_iff addSession_def channel_of_def smap_ok_put)

subsection \<open>Operations\<close>

text \<open>
  An operation is safe in a state when it does not follow a bad pointer and ends in a good state.
\<close>

definition safe :: "senv \<Rightarrow> sres \<Rightarrow> bool" where
  "safe e r \<longleftrightarrow> (case r of None \<Rightarrow> False | Some (R, out) \<Rightarrow> server_ok e R)"

lemma safe_Some [simp]: "safe e (Some (R, out)) = server_ok e R" and safe_None [simp]: "\<not> safe e None"
  by (simp_all add: safe_def)

lemma safe_and_then: "safe e r \<Longrightarrow> (\<And>R out. r = Some (R, out) \<Longrightarrow> server_ok e R \<Longrightarrow> safe e (f R)) \<Longrightarrow> safe e (and_then r f)"
  by (auto simp: safe_def and_then_def split: option.splits)

lemma login_alive:
  "server_ok e R \<Longrightarrow> smap_get (sv_users R) k = Some (pw, s)
   \<Longrightarrow> \<exists>se. get_session R s = Some se \<and> user_key e (getBareJID e se) = k"
  by (simp add: server_ok_iff)

lemma stopLogin_sel [simp]:
  "sv_channel (fst (stopLogin e j s R)) = sv_channel R" "get_session (fst (stopLogin e j s R)) = get_session R"
  by (auto simp: stopLogin_def Let_def split: option.splits prod.splits)

lemma stopLogin_ok: "server_ok e R \<Longrightarrow> server_ok e (fst (stopLogin e j s R))"
  by (auto simp: stopLogin_def Let_def server_ok_users_del split: option.splits prod.splits)

lemma stopLogin_not_pending:
  assumes "server_ok e R" and "get_session R s = Some se"
  shows "\<not> pending (fst (stopLogin e (getBareJID e se) s R)) s"
proof -
  let ?R = "fst (stopLogin e (getBareJID e se) s R)"
  have ok: "server_ok e ?R" by (rule stopLogin_ok [OF assms(1)])
  have "k = user_key e (getBareJID e se)" if "smap_get (sv_users R) k = Some (pw, s)" for k pw
    using login_alive [OF assms(1) that] assms(2) by simp
  then have "smap_get (sv_users ?R) k \<noteq> Some (pw, s)" for k pw
    by (fastforce simp: stopLogin_def Let_def smap_get_del split: option.splits if_splits)
  then show ?thesis using ok by (simp add: server_ok_iff pending_iff)
qed

lemma channel_not_elsewhere:
  "server_ok e R \<Longrightarrow> get_session R s = Some se \<Longrightarrow> s \<in> set (smap_get_or [] (sv_channel R) k)
   \<Longrightarrow> k = user_key e (se_remote se)"
  unfolding server_ok_iff by (metis option.inject)

text \<open>What the end of a session leaves alone: every other session, and logins of others.\<close>

lemma session_finished_ok:
  assumes "server_ok e R" and "get_session R s = Some se"
  obtains R' out where "session_finished e s R = Some (R', out)" "server_ok e R'"
    "get_session R' = (get_session R)(s := None)"
proof -
  define R1 where "R1 = fst (stopLogin e (getBareJID e se) s R)"
  define R2 where "R2 = (if s \<in> set (channel_of e (se_remote se) R1) then removeSession e s se R1 else R1)"
  have 1: "server_ok e R1" "\<not> pending R1 s" "get_session R1 = get_session R"
    using assms by (simp_all add: R1_def stopLogin_ok stopLogin_not_pending)
  have 2: "server_ok e R2" "\<not> pending R2 s" "get_session R2 = get_session R"
    using 1 server_ok_removeSession [OF 1(1)] by (simp_all add: R2_def) (simp_all add: pending_def removeSession_def)
  have "s \<notin> set (smap_get_or [] (sv_channel R2) k)" for k
  proof (cases "k = user_key e (se_remote se)")
    case True
    then show ?thesis by (simp add: R2_def removeSession_def channel_of_def)
  next
    case False
    then have "s \<notin> set (smap_get_or [] (sv_channel R1) k)"
      using channel_not_elsewhere [OF 1(1), of s se k] assms(2) 1(3) by auto
    with False show ?thesis by (simp add: R2_def removeSession_def)
  qed
  then have "server_ok e (R2\<lparr>sv_heap := smap_del s (sv_heap R2)\<rparr>)" by (intro server_ok_delete 2)
  moreover have "\<exists>out. session_finished e s R = Some (R2\<lparr>sv_heap := smap_del s (sv_heap R2)\<rparr>, out)"
    using assms(2) by (auto simp: session_finished_def Let_def split_def R1_def R2_def channel_handleSessionFinished_def)
  ultimately show thesis using that 2(3) by auto
qed

lemma finishSession_ok:
  assumes "server_ok e R" and "get_session R s = Some se"
  obtains R' out where "finishSession e s R = Some (R', out)" "server_ok e R'"
    "\<And>t. t \<noteq> s \<Longrightarrow> get_session R' t = get_session R t"
proof (cases "sv_sync e")
  case True
  obtain R' out where "session_finished e s R = Some (R', out)" "server_ok e R'"
    "get_session R' = (get_session R)(s := None)" by (rule session_finished_ok [OF assms])
  then show ?thesis using that True by (simp add: finishSession_def and_then_def)
next
  case False
  then show ?thesis using that assms by (simp add: finishSession_def)
qed

lemma handlePasswordInvalid_ok:
  assumes "server_ok e R" and "get_session R s = Some se"
  obtains R' out where "handlePasswordInvalid e error s R = Some (R', out)" "server_ok e R'"
    "\<And>t. t \<noteq> s \<Longrightarrow> get_session R' t = get_session R t"
proof (cases "se_initialized se")
  case True
  then show ?thesis using that assms by (simp add: handlePasswordInvalid_def)
next
  case False
  obtain R' out where "finishSession e s R = Some (R', out)" "server_ok e R'"
    "\<And>t. t \<noteq> s \<Longrightarrow> get_session R' t = get_session R t" by (rule finishSession_ok [OF assms]) blast
  then show ?thesis using that False assms by (simp add: handlePasswordInvalid_def and_then_def)
qed

lemma handlePasswordValid_safe:
  assumes "server_ok e R" and "get_session R s = Some se"
  shows "safe e (handlePasswordValid s R)"
  using assms server_ok_put_session [OF assms, of "se\<lparr>se_authenticated := True\<rparr>"]
  by (simp add: handlePasswordValid_def getBareJID_def)

lemma onPasswordValid_safe:
  assumes "server_ok e R"
  shows "safe e (onPasswordValid e j R)"
proof (cases "smap_get (sv_users R) (user_key e j)")
  case (Some v)
  obtain pw s where v: "v = (pw, s)" by (cases v)
  then obtain se where "get_session R s = Some se" using login_alive [OF assms] Some by blast
  from handlePasswordValid_safe [OF assms this] show ?thesis using Some v
    by (simp add: onPasswordValid_def) (rule safe_and_then, auto intro: server_ok_users_del)
qed (simp add: onPasswordValid_def assms)

lemma onPasswordInvalid_safe:
  assumes "server_ok e R"
  shows "safe e (onPasswordInvalid e j error R)"
proof (cases "smap_get (sv_users R) (user_key e j)")
  case (Some v)
  obtain pw s where v: "v = (pw, s)" by (cases v)
  then obtain se where "get_session R s = Some se" using login_alive [OF assms] Some by blast
  then obtain R' out where "handlePasswordInvalid e error s R = Some (R', out)" "server_ok e R'"
    using handlePasswordInvalid_ok [OF assms] by metis
  then show ?thesis using Some v by (simp add: onPasswordInvalid_def and_then_def server_ok_users_del)
qed (simp add: onPasswordInvalid_def assms)

lemma handleRemoveTimeout_safe: "server_ok e R \<Longrightarrow> safe e (handleRemoveTimeout e j R)"
  by (auto simp: handleRemoveTimeout_def intro!: safe_and_then onPasswordInvalid_safe)

lemma tick_slots_safe: "server_ok e R \<Longrightarrow> safe e (tick_slots e js R)"
  by (induction js arbitrary: R) (auto intro!: safe_and_then handleRemoveTimeout_safe)

lemma isValidUserPassword_safe:
  assumes "server_ok e R" and "get_session R s = Some se" and "j = getBareJID e se" and "\<not> pending R s"
  shows "safe e (isValidUserPassword e j s password R)"
proof (cases "user_key e j \<in> set (cf_admin_jid (se_cf e))")
  case True
  then show ?thesis using handlePasswordValid_safe [OF assms(1,2)]
    by (auto simp: isValidUserPassword_def intro: handlePasswordInvalid_ok [OF assms(1,2), of "[]"])
next
  case False
  let ?k = "user_key e j"
  show ?thesis
  proof (cases "smap_get (sv_users R) ?k")
    case None
    then show ?thesis using False assms
      by (simp add: isValidUserPassword_def and_then_def server_ok_users_put)
  next
    case (Some v)
    obtain pw tmp where v: "v = (pw, tmp)" by (cases v)
    define R1 where "R1 = R\<lparr>sv_users := smap_put ?k (pw, s) (sv_users R)\<rparr>"
    have ok: "server_ok e R1" using assms by (simp add: R1_def server_ok_users_put)
    obtain se' where tmp: "get_session R1 tmp = Some se'"
      using login_alive [OF assms(1) Some [unfolded v]] by (auto simp: R1_def)
    have ne: "tmp \<noteq> s" using assms(1,4) Some v by (auto simp: server_ok_iff pending_iff)
    obtain R' out where R': "handlePasswordInvalid e [] tmp R1 = Some (R', out)" "server_ok e R'"
      "\<And>t. t \<noteq> tmp \<Longrightarrow> get_session R' t = get_session R1 t"
      by (rule handlePasswordInvalid_ok [OF ok tmp]) blast
    have "get_session R' s = Some se" using R'(3) [of s] ne assms(2) by (simp add: R1_def)
    then show ?thesis using False Some v R' assms(3)
      by (simp add: isValidUserPassword_def and_then_def server_ok_users_put R1_def)
  qed
qed

lemma finish_all_safe:
  "server_ok e R \<Longrightarrow> distinct ss \<Longrightarrow> (\<And>s. s \<in> set ss \<Longrightarrow> get_session R s \<noteq> None) \<Longrightarrow> safe e (finish_all e el lst ss R)"
proof (induction ss arbitrary: R)
  case (Cons s ss)
  obtain se where se: "get_session R s = Some se" using Cons.prems(3) [of s] by auto
  define R1 where "R1 = removeSession e s se R"
  have R1: "server_ok e R1" "get_session R1 = get_session R"
    using Cons.prems(1) by (simp_all add: R1_def server_ok_removeSession) (simp add: removeSession_def)
  obtain R2 out where R2: "finishSession e s R1 = Some (R2, out)" "server_ok e R2"
    "\<And>t. t \<noteq> s \<Longrightarrow> get_session R2 t = get_session R1 t"
    by (rule finishSession_ok [OF R1(1), of s se]) (use se R1 in auto)
  have "safe e (finish_all e el lst ss R2)"
    using Cons.prems R1(2) R2(3) by (intro Cons.IH R2(2)) (auto, metis option.distinct(1))
  then show ?case using se R2 R1(1)
    by (auto simp: Let_def R1_def [symmetric] intro!: safe_and_then) (auto simp: and_then_def)
qed simp

lemma handle_auth_safe:
  assumes "server_ok e R" and "get_session R s = Some se" and "\<not> pending R s" and "\<not> se_initialized se"
  shows "safe e (handle_auth e mechanism msg s se R)"
proof -
  let ?name = "fst (sv_plain e msg)"
  have 1: "server_ok e (put_session s (se\<lparr>se_authenticated := True\<rparr>) R)"
    and 2: "server_ok e (put_session s (se\<lparr>se_user := ?name\<rparr>) R)"
    using assms by (auto intro!: server_ok_put_session)
  have 3: "safe e (isValidUserPassword e (getBareJID e (se\<lparr>se_user := ?name\<rparr>)) s pw
      (put_session s (se\<lparr>se_user := ?name\<rparr>) R))" for pw
    using assms(3) by (intro isValidUserPassword_safe [OF 2]) (simp_all add: pending_def)
  obtain R' out where 4: "finishSession e s R = Some (R', out)" "server_ok e R'"
    by (rule finishSession_ok [OF assms(1,2)]) blast
  show ?thesis using 1 3 4 by (simp add: handle_auth_def split_def Let_def and_then_def)
qed

lemma not_in_channel:
  "server_ok e R \<Longrightarrow> get_session R s = Some se \<Longrightarrow> \<not> se_initialized se
   \<Longrightarrow> s \<notin> set (smap_get_or [] (sv_channel R) k)"
  unfolding server_ok_iff by (metis option.inject)

lemma setInitialized_ok:
  assumes "server_ok e R" and "get_session R s = Some se" and "\<not> se_initialized se"
  shows "server_ok e (setInitialized e s se R)"
  unfolding setInitialized_def
proof (rule server_ok_addSession)
  show "server_ok e (put_session s (se\<lparr>se_initialized := True\<rparr>) R)"
    using assms by (auto intro!: server_ok_put_session simp: getBareJID_def)
  show "s \<notin> set (smap_get_or [] (sv_channel (put_session s (se\<lparr>se_initialized := True\<rparr>) R)) k)" for k
    using not_in_channel [OF assms] by simp
qed (simp_all add: get_session_def put_session_def smap_get_put)

subsection \<open>Runs of well-behaved clients\<close>

text \<open>
  What a client must not do: authenticate again while a check of its password is under way, name
  another domain in a restarted stream meanwhile, ask for encryption that the server does not offer.
\<close>

fun polite :: "event \<Rightarrow> server \<Rightarrow> bool" where
  "polite (Element s (AuthRequest mechanism msg)) R = (\<not> pending R s)"
| "polite (Element s StartTLSRequest) R =
     (case get_session R s of None \<Rightarrow> True | Some se \<Rightarrow> se_initialized se \<or> se_tls se)"
| "polite (StreamStart s to) R =
     (case get_session R s of None \<Rightarrow> True
      | Some se \<Rightarrow> \<not> pending R s \<or> jid_domain to = jid_domain (se_local se))"
| "polite _ R = True"

fun polite_run :: "senv \<Rightarrow> event list \<Rightarrow> server \<Rightarrow> bool" where
  "polite_run e [] R = True"
| "polite_run e (ev # evs) R =
     (polite ev R \<and> (case event_step e ev R of None \<Rightarrow> True | Some (R', _) \<Rightarrow> polite_run e evs R'))"

lemma handleElement_safe:
  assumes "server_ok e R" and "get_session R s = Some se" and "polite (Element s el) R"
  shows "safe e (handleElement e el s R)"
proof (cases "se_initialized se")
  case True
  then show ?thesis using assms by (simp add: handleElement_def)
next
  case False
  note put = server_ok_put_session [OF assms(1,2)]
  show ?thesis
  proof (cases el)
    case (AuthRequest mechanism msg)
    then show ?thesis using assms False handle_auth_safe [OF assms(1,2)] by (simp add: handleElement_def)
  next
    case StartTLSRequest
    then show ?thesis using assms False put by (simp add: handleElement_def getBareJID_def)
  next
    case (Stanza st)
    then show ?thesis using assms False put setInitialized_ok [OF assms(1,2) False]
      by (auto simp: handleElement_def getBareJID_def Let_def split: stanza.splits iqpayload.splits)
  qed (use assms False in \<open>simp_all add: handleElement_def\<close>)
qed

lemma new_session_ok: "server_ok e R \<Longrightarrow> server_ok e (server_handleNewClientConnection e i R)"
  unfolding server_ok_iff server_handleNewClientConnection_def
  by (auto simp: new_session_def) (metis less_irrefl option.distinct(1) less_Suc_eq)+

lemma event_step_safe:
  assumes "server_ok e R" and "polite ev R"
  shows "safe e (event_step e ev R)"
proof (cases ev)
  case (StreamStart s to)
  then show ?thesis using assms
    by (auto simp: if_alive_def handleStreamStart_def getBareJID_def split: option.splits
        intro!: server_ok_put_session [OF assms(1)])
next
  case (Element s el)
  then show ?thesis using assms handleElement_safe [OF assms(1)] by (auto simp: if_alive_def)
next
  case (TLSConnected s)
  then show ?thesis using assms
    by (auto simp: if_alive_def handleTLSConnected_def getBareJID_def intro!: server_ok_put_session [OF assms(1)])
next
  case (Disconnected s)
  then show ?thesis using assms
    by (auto simp: if_alive_def elim!: session_finished_ok [OF assms(1)])
next
  case (FinishUser j el lst)
  have "distinct (channel_of e j R)" "\<And>s. s \<in> set (channel_of e j R) \<Longrightarrow> get_session R s \<noteq> None"
    using assms(1) unfolding server_ok_iff channel_of_def by (blast, metis option.distinct(1))
  then show ?thesis using finish_all_safe [OF assms(1)] FinishUser by (simp add: channel_finishSession_def)
qed (use assms in \<open>simp_all add: new_session_ok onPasswordValid_safe onPasswordInvalid_safe removeLater_def
       remove_tick_def tick_slots_safe\<close>)

lemma run_events_safe: "server_ok e R \<Longrightarrow> polite_run e evs R \<Longrightarrow> safe e (run_events e evs R)"
proof (induction evs arbitrary: R)
  case (Cons ev evs)
  then have "safe e (event_step e ev R)" by (simp add: event_step_safe)
  then show ?case using Cons by (auto intro!: safe_and_then split: option.splits)
qed simp

lemma empty_server_ok [simp]: "server_ok e empty_server"
  by (simp add: server_ok_def empty_server_def login_ok_def channel_ok_def)

section \<open>Properties\<close>

definition witness_senv :: senv where
  "witness_senv = \<lparr>se_sw = \<lparr>sw_jid = JID, sw_parse = (\<lambda>s. JID s [] None), sw_str = (\<lambda>j. jid_node j @ ''@'' @ jid_domain j),
       sw_valid = (\<lambda>j. jid_domain j \<noteq> []), sw_escape = id, sw_unescape = id, sw_availability = id\<rparr>,
     se_cf = \<lparr>cf_jid = JID [] ''srv'' None, cf_server_mode = Some True, cf_jid_escaping = None, cf_rawxml = None,
       cf_send_buddies_on_login = None, cf_needRegistration = None, cf_needPassword = None, cf_auto_register = False,
       cf_vip_only = False, cf_vip_message = [], cf_enable_remove_buddy = False, cf_more_resources = False,
       cf_enable_xhtml = False, cf_reuse_old_backends = False, cf_users_per_backend = 1, cf_login_delay = 0,
       cf_idle_reconnect_time = 0, cf_admin_jid = [''admin@srv''], cf_admin_password = ''x''\<rparr>,
     sv_sync = False, sv_swiften5 = True, sv_tlsFactory = False,
     sv_plain = (\<lambda>m. (takeWhile (\<lambda>c. c \<noteq> CHR '':'') m, tl (dropWhile (\<lambda>c. c \<noteq> CHR '':'') m))),
     sv_rand = (\<lambda>i. i)\<rparr>"

text \<open>
  C34: As long as clients do not authenticate a second time while a check of their password is under
  way, do not restart the stream with another domain meanwhile and do not ask for encryption that is
  not offered, nothing that happens to the server follows a pointer to a session that is gone, and
  every session the registry or the channel knows is alive and filed under its own name.
\<close>

theorem sessions_safe:
  assumes "polite_run e evs empty_server"
  shows "\<exists>R out. run_events e evs empty_server = Some (R, out) \<and> server_ok e R"
  using run_events_safe [OF empty_server_ok assms] by (auto simp: safe_def split: option.splits)

theorem sessions_safe_witness:
  "(let evs = [NewConnection ''a'', NewConnection ''b'', StreamStart 0 (JID [] ''srv'' None), StreamStart (Suc 0) (JID [] ''srv'' None),
      Element 0 (AuthRequest ''PLAIN'' ''bob:x''), Element (Suc 0) (AuthRequest ''PLAIN'' ''bob:y''),
      Disconnected 0, PasswordValid (JID ''bob'' ''srv'' None)]
    in \<exists>R out. run_events witness_senv evs empty_server = Some (R, out) \<and> server_ok witness_senv R)"
  unfolding Let_def
  by (rule sessions_safe)
    (simp add: empty_server_def server_handleNewClientConnection_def put_session_def new_session_def get_session_def
       smap_get_def if_alive_def handleStreamStart_def handleElement_def handle_auth_def witness_senv_def
       isValidUserPassword_def user_key_def getBareJID_def and_then_def handlePasswordInvalid_def finishSession_def
       pending_def session_finished_def stopLogin_def channel_of_def smap_get_or_def smap_del_def onPasswordValid_def
       handlePasswordValid_def Let_def jid_bare_def)

definition bind_iq :: iq where
  "bind_iq = \<lparr>iq_type = Set, iq_id = ''1'', iq_to = jid_none, iq_from = jid_none, iq_payload = ResourceBindP\<rparr>"

definition session_iq :: iq where
  "session_iq = \<lparr>iq_type = Set, iq_id = ''2'', iq_to = jid_none, iq_from = jid_none, iq_payload = StartSessionP\<rparr>"

text \<open>A login that is started, bound and declared a session before the password is checked.\<close>

definition early_session :: "nat \<Rightarrow> string \<Rightarrow> event list" where
  "early_session s msg = [Element s (AuthRequest ''PLAIN'' msg), Element s (Stanza (StIQ bind_iq)),
     Element s (Stanza (StIQ session_iq))]"

lemma early_session_run:
  assumes "get_session R s = Some se" and "\<not> se_initialized se" and "\<not> se_external se"
    and "sv_plain e msg = (name, pw)"
  defines "j \<equiv> sw_jid (se_sw e) name (jid_domain (se_local se)) None"
  defines "full \<equiv> sw_jid (se_sw e) name (jid_domain (se_local se)) (Some (bind_resource e))"
  assumes "user_key e j \<notin> set (cf_admin_jid (se_cf e))" and "smap_get (sv_users R) (user_key e j) = None"
  defines "se' \<equiv> se\<lparr>se_user := name, se_remote := full, se_initialized := True\<rparr>"
  defines "R0 \<equiv> (put_session s (se\<lparr>se_user := name\<rparr>) R)\<lparr>sv_users := smap_put (user_key e j) (pw, s) (sv_users R)\<rparr>"
  shows "run_events e (early_session s msg) R =
    Some (addSession e s se' (put_session s se' (put_session s (se\<lparr>se_user := name, se_remote := full\<rparr>) R0)),
      [SigConnect j, WriteBind s ''1'' full, WriteResult s full ''2''])"
  using assms
  by (simp add: early_session_def if_alive_def handleElement_def handle_auth_def isValidUserPassword_def getBareJID_def
      and_then_def bind_iq_def session_iq_def Let_def setInitialized_def)

text \<open>
  C35: A client can act for any user without knowing his password. \<open>handleElement\<close> takes the name from
  the login request before the password is checked and accepts the resource binding and the session
  request at any time; once the session is initialized the verdict on the password is ignored. After
  the three requests the session is not authenticated, but it is bound to an address of the user, the
  channel delivers to it, its stanzas are handled as the user's, and the refusal of the password
  changes nothing.
\<close>

theorem session_without_password:
  assumes "get_session R s = Some se" and "\<not> se_initialized se" and "\<not> se_external se" and "\<not> se_authenticated se"
    and "sv_plain e msg = (name, pw)"
    and "user_key e (sw_jid (se_sw e) name (jid_domain (se_local se)) None) \<notin> set (cf_admin_jid (se_cf e))"
    and "smap_get (sv_users R) (user_key e (sw_jid (se_sw e) name (jid_domain (se_local se)) None)) = None"
    and "sw_valid (se_sw e) (sw_jid (se_sw e) name (jid_domain (se_local se)) (Some (bind_resource e)))"
  shows "\<exists>R1 out R2 se'. run_events e (early_session s msg) R = Some (R1, out)
    \<and> onPasswordInvalid e (sw_jid (se_sw e) name (jid_domain (se_local se)) None) error R1 = Some (R2, [])
    \<and> get_session R2 s = Some se' \<and> \<not> se_authenticated se'
    \<and> se_remote se' = sw_jid (se_sw e) name (jid_domain (se_local se)) (Some (bind_resource e))
    \<and> s \<in> set (channel_of e (se_remote se') R2)
    \<and> handleElement e (Stanza (StMessage m)) s R2 = Some (R2, [SigMessage (m\<lparr>m_from := se_remote se'\<rparr>)])"
proof -
  let ?j = "sw_jid (se_sw e) name (jid_domain (se_local se)) None"
  let ?full = "sw_jid (se_sw e) name (jid_domain (se_local se)) (Some (bind_resource e))"
  define se' where "se' = se\<lparr>se_user := name, se_remote := ?full, se_initialized := True\<rparr>"
  obtain R1 out where R1: "run_events e (early_session s msg) R = Some (R1, out)" "get_session R1 s = Some se'"
    "smap_get (sv_users R1) (user_key e ?j) = Some (pw, s)" "s \<in> set (channel_of e ?full R1)"
    by (auto simp: early_session_run [OF assms(1-3,5-7)] addSession_def smap_get_put channel_of_def se'_def)
  define R2 where "R2 = R1\<lparr>sv_users := smap_del (user_key e ?j) (sv_users R1)\<rparr>"
  have R2: "get_session R2 s = Some se'" "s \<in> set (channel_of e ?full R2)"
    using R1 by (simp_all add: R2_def channel_of_def)
  have "onPasswordInvalid e ?j error R1 = Some (R2, [])"
    using R1 by (simp add: onPasswordInvalid_def handlePasswordInvalid_def and_then_def se'_def R2_def)
  moreover have "handleElement e (Stanza (StMessage m)) s R2 = Some (R2, [SigMessage (m\<lparr>m_from := se_remote se'\<rparr>)])"
    using R2 assms(8) by (simp add: handleElement_def channel_handleElement_def se'_def)
  moreover have "\<not> se_authenticated se'" "se_remote se' = ?full" using assms(4) by (simp_all add: se'_def)
  ultimately show ?thesis using R1 R2 by metis
qed

lemma witness_senv_sel:
  "sw_jid (se_sw witness_senv) = JID" "sw_valid (se_sw witness_senv) j = (jid_domain j \<noteq> [])"
  "sv_plain witness_senv ''bob:guess'' = (''bob'', ''guess'')" "bind_resource witness_senv = ''abcdefghij''"
  "user_key witness_senv (JID ''bob'' ''srv'' r) = ''bob@srv''" "cf_admin_jid (se_cf witness_senv) = [''admin@srv'']"
  by (simp_all add: bind_resource_def witness_senv_def upt_conv_Cons user_key_def jid_bare_def)

definition one_session :: "bool \<Rightarrow> server" where
  "one_session tls = \<lparr>sv_heap = [(0, (new_session witness_senv ''a'')\<lparr>se_local := JID [] ''srv'' None, se_tls := tls\<rparr>)],
     sv_next = 1, sv_users = [], sv_slots = [], sv_inRemoveLater = False, sv_channel = []\<rparr>"

theorem session_without_password_witness:
  "\<exists>R1 out R2 se'. run_events witness_senv (early_session 0 ''bob:guess'') (one_session False) = Some (R1, out)
    \<and> onPasswordInvalid witness_senv (JID ''bob'' ''srv'' None) [] R1 = Some (R2, [])
    \<and> get_session R2 0 = Some se' \<and> \<not> se_authenticated se' \<and> se_remote se' = JID ''bob'' ''srv'' (Some ''abcdefghij'')
    \<and> handleElement witness_senv (Stanza (StMessage empty_message)) 0 R2
       = Some (R2, [SigMessage (empty_message\<lparr>m_from := se_remote se'\<rparr>)])"
proof -
  define se where "se = (new_session witness_senv ''a'')\<lparr>se_local := JID [] ''srv'' None, se_tls := False\<rparr>"
  have se: "get_session (one_session False) 0 = Some se" and users: "sv_users (one_session False) = []"
    by (simp_all add: one_session_def get_session_def smap_get_def se_def)
  have sel: "\<not> se_initialized se" "\<not> se_external se" "\<not> se_authenticated se" "se_local se = JID [] ''srv'' None"
    by (simp_all add: se_def new_session_def)
  show ?thesis
    using session_without_password [OF se sel(1-3) witness_senv_sel(3), of "[]" empty_message]
    by (simp add: sel witness_senv_sel users) metis
qed

lemma auth_step:
  assumes "get_session R s = Some se" and "\<not> se_initialized se" and "\<not> se_external se"
    and "sv_plain e msg = (name, pw)" and "j = sw_jid (se_sw e) name (jid_domain (se_local se)) None"
    and "user_key e j \<notin> set (cf_admin_jid (se_cf e))" and "smap_get (sv_users R) (user_key e j) = None"
  shows "event_step e (Element s (AuthRequest ''PLAIN'' msg)) R =
    Some ((put_session s (se\<lparr>se_user := name\<rparr>) R)\<lparr>sv_users := smap_put (user_key e j) (pw, s) (sv_users R)\<rparr>, [SigConnect j])"
  using assms by (simp add: if_alive_def handleElement_def handle_auth_def isValidUserPassword_def getBareJID_def and_then_def)

lemma session_finished_sel:
  assumes "get_session R s = Some se"
  shows "\<exists>R' out. session_finished e s R = Some (R', out) \<and> get_session R' s = None
    \<and> (\<forall>k. k \<noteq> user_key e (getBareJID e se) \<longrightarrow> smap_get (sv_users R') k = smap_get (sv_users R) k)"
  using assms
  by (auto simp: session_finished_def stopLogin_def Let_def smap_get_del channel_handleSessionFinished_def
      removeSession_def split_def get_session_def split: option.splits)

lemma verdict_follows_pointer:
  "smap_get (sv_users R) (user_key e j) = Some (pw, s) \<Longrightarrow> get_session R s = None \<Longrightarrow> onPasswordValid e j R = None"
  by (simp add: onPasswordValid_def handlePasswordValid_def and_then_def)

text \<open>
  The conditions on the clients are needed: a client that is not authenticated can stop the server.
  It dereferences a null pointer when encryption is requested that is not offered. A client that asks
  for a second login under another name while the first is checked, and disconnects, leaves the
  registry with a pointer to its deleted session, and the verdict on the first name follows it.
\<close>

theorem impolite_clients:
  assumes "get_session R s = Some se" and "\<not> se_initialized se" and "\<not> se_external se" and "\<not> se_tls se"
    and "sv_plain e msg1 = (name1, pw1)" and "sv_plain e msg2 = (name2, pw2)"
    and "j1 = sw_jid (se_sw e) name1 (jid_domain (se_local se)) None"
    and "j2 = sw_jid (se_sw e) name2 (jid_domain (se_local se)) None"
    and "user_key e j1 \<noteq> user_key e j2"
    and "user_key e j1 \<notin> set (cf_admin_jid (se_cf e))" and "user_key e j2 \<notin> set (cf_admin_jid (se_cf e))"
    and "smap_get (sv_users R) (user_key e j1) = None" and "smap_get (sv_users R) (user_key e j2) = None"
  shows "event_step e (Element s StartTLSRequest) R = None
    \<and> run_events e [Element s (AuthRequest ''PLAIN'' msg1), Element s (AuthRequest ''PLAIN'' msg2), Disconnected s,
        PasswordValid j1] R = None"
proof -
  let ?k1 = "user_key e j1" and ?k2 = "user_key e j2"
  let ?se1 = "se\<lparr>se_user := name1\<rparr>" and ?se2 = "se\<lparr>se_user := name2\<rparr>"
  define R1 where "R1 = (put_session s ?se1 R)\<lparr>sv_users := smap_put ?k1 (pw1, s) (sv_users R)\<rparr>"
  define R2 where "R2 = (put_session s (?se1\<lparr>se_user := name2\<rparr>) R1)\<lparr>sv_users := smap_put ?k2 (pw2, s) (sv_users R1)\<rparr>"
  have 1: "event_step e (Element s (AuthRequest ''PLAIN'' msg1)) R = Some (R1, [SigConnect j1])"
    unfolding R1_def by (rule auth_step [OF assms(1-3,5,7,10,12)])
  have 2: "event_step e (Element s (AuthRequest ''PLAIN'' msg2)) R1 = Some (R2, [SigConnect j2])"
    unfolding R2_def by (rule auth_step [OF _ _ _ assms(6)]) (use assms in \<open>simp_all add: R1_def smap_get_put\<close>)
  have R2: "get_session R2 s = Some ?se2" "smap_get (sv_users R2) ?k1 = Some (pw1, s)" "getBareJID e ?se2 = j2"
    using assms by (simp_all add: R2_def R1_def smap_get_put getBareJID_def)
  obtain R3 o3 where R3: "session_finished e s R2 = Some (R3, o3)" "get_session R3 s = None"
    "smap_get (sv_users R3) ?k1 = Some (pw1, s)"
    using session_finished_sel [OF R2(1), of e] R2 assms(9) by auto
  have 3: "event_step e (Disconnected s) R2 = Some (R3, o3)" using R2 R3 by (simp add: if_alive_def)
  have 4: "event_step e (PasswordValid j1) R3 = None" using R3 by (simp add: verdict_follows_pointer)
  have tls: "event_step e (Element s StartTLSRequest) R = None"
    using assms(1,2,4) by (simp add: if_alive_def handleElement_def)
  show ?thesis using 1 2 3 4 tls
    by (simp only: run_events.simps and_then_def option.case prod.case)
qed

theorem impolite_clients_witness:
  "event_step witness_senv (Element 0 StartTLSRequest) (one_session False) = None
    \<and> run_events witness_senv [Element 0 (AuthRequest ''PLAIN'' ''bob:guess''), Element 0 (AuthRequest ''PLAIN'' ''eve:guess''),
        Disconnected 0, PasswordValid (JID ''bob'' ''srv'' None)] (one_session False) = None"
proof (rule impolite_clients)
  show "get_session (one_session False) 0 = Some ((new_session witness_senv ''a'')\<lparr>se_local := JID [] ''srv'' None, se_tls := False\<rparr>)"
    by (simp add: one_session_def get_session_def smap_get_def)
  show "sv_plain witness_senv ''bob:guess'' = (''bob'', ''guess'')" by (simp add: witness_senv_sel)
  show "sv_plain witness_senv ''eve:guess'' = (''eve'', ''guess'')" by (simp add: witness_senv_def)
qed (simp_all add: new_session_def witness_senv_sel one_session_def, simp_all add: witness_senv_def user_key_def jid_bare_def)

subsection \<open>The timer of \<open>removeLater\<close>\<close>

lemma handlePasswordInvalid_outputs:
  "handlePasswordInvalid e error s R = Some (R', out) \<Longrightarrow> get_session R s = Some se \<Longrightarrow> \<not> se_initialized se
   \<Longrightarrow> WriteAuthFailure s \<in> set out"
  by (auto simp: handlePasswordInvalid_def and_then_def split: option.splits)

text \<open>Refusing one user leaves the login of another alone.\<close>

lemma finishSession_users:
  assumes "server_ok e R" and "finishSession e s R = Some (R', out)" and "get_session R s = Some se"
    and "k \<noteq> user_key e (getBareJID e se)"
  shows "smap_get (sv_users R') k = smap_get (sv_users R) k"
  using assms
  by (auto simp: finishSession_def and_then_def session_finished_def stopLogin_def Let_def smap_get_del
      channel_handleSessionFinished_def removeSession_def split: option.splits if_splits prod.splits)

lemma onPasswordInvalid_other:
  assumes "server_ok e R" and "onPasswordInvalid e j error R = Some (R', out)"
    and "smap_get (sv_users R) k = Some (pw, s)" and "k \<noteq> user_key e j"
  shows "smap_get (sv_users R') k = Some (pw, s) \<and> get_session R' s = get_session R s \<and> server_ok e R'"
proof (cases "smap_get (sv_users R) (user_key e j)")
  case None
  then show ?thesis using assms by (simp add: onPasswordInvalid_def)
next
  case (Some v)
  obtain pw' t where v: "v = (pw', t)" by (cases v)
  obtain te where te: "get_session R t = Some te" "user_key e (getBareJID e te) = user_key e j"
    using login_alive [OF assms(1)] Some v by blast
  obtain se where se: "get_session R s = Some se" "user_key e (getBareJID e se) = k"
    using login_alive [OF assms(1,3)] by blast
  have ne: "t \<noteq> s" using te se assms(4) by auto
  have ok: "server_ok e R'" using onPasswordInvalid_safe [OF assms(1), of j error] assms(2) by simp
  obtain R1 o1 where R1: "handlePasswordInvalid e error t R = Some (R1, o1)"
    "R' = R1\<lparr>sv_users := smap_del (user_key e j) (sv_users R1)\<rparr>"
    using assms(2) Some v by (auto simp: onPasswordInvalid_def and_then_def split: option.splits)
  obtain R2 o2 where R2: "handlePasswordInvalid e error t R = Some (R2, o2)"
    "\<And>x. x \<noteq> t \<Longrightarrow> get_session R2 x = get_session R x"
    by (rule handlePasswordInvalid_ok [OF assms(1) te(1)]) blast
  have "smap_get (sv_users R1) k = smap_get (sv_users R) k"
    using R1(1) te assms(4) finishSession_users [OF assms(1) _ te(1), of R1 _ k]
    by (auto simp: handlePasswordInvalid_def and_then_def split: if_splits option.splits)
  then show ?thesis using R1 R2 ok ne assms(3,4) by (simp add: smap_get_del)
qed

lemma tick_slots_refuses:
  "server_ok e R \<Longrightarrow> smap_get (sv_users R) (user_key e j) = Some (pw, s) \<Longrightarrow> get_session R s = Some se
   \<Longrightarrow> \<not> se_initialized se \<Longrightarrow> j \<in> set js \<Longrightarrow> \<exists>R' out. tick_slots e js R = Some (R', out) \<and> WriteAuthFailure s \<in> set out"
proof (induction js arbitrary: R)
  case (Cons i js)
  let ?R = "R\<lparr>sv_inRemoveLater := True\<rparr>"
  have okR: "server_ok e ?R" using Cons.prems(1) by simp
  obtain R1 o1 where R1: "onPasswordInvalid e i [] ?R = Some (R1, o1)" "server_ok e R1"
    using onPasswordInvalid_safe [OF okR, of i "[]"] by (auto simp: safe_def split: option.splits)
  let ?R1 = "R1\<lparr>sv_inRemoveLater := False\<rparr>"
  have tick: "tick_slots e (i # js) R = and_then (Some (?R1, o1)) (tick_slots e js)"
    using R1 by (simp add: handleRemoveTimeout_def and_then_def)
  obtain R2 o2 where rest: "tick_slots e js ?R1 = Some (R2, o2)"
    using tick_slots_safe [of e ?R1 js] R1(2) by (auto simp: safe_def split: option.splits)
  show ?case
  proof (cases "user_key e i = user_key e j")
    case True
    then have "WriteAuthFailure s \<in> set o1"
      using R1(1) Cons.prems(2-4) handlePasswordInvalid_outputs [of e "[]" s ?R]
      by (auto simp: onPasswordInvalid_def and_then_def split: option.splits)
    then show ?thesis using tick rest by (auto simp: and_then_def)
  next
    case False
    have "smap_get (sv_users ?R1) (user_key e j) = Some (pw, s) \<and> get_session ?R1 s = Some se"
      using onPasswordInvalid_other [OF okR R1(1), of "user_key e j" pw s] Cons.prems(2,3) False by simp
    then have "\<exists>R' out. tick_slots e js ?R1 = Some (R', out) \<and> WriteAuthFailure s \<in> set out"
      using Cons.prems(4,5) False R1(2) by (intro Cons.IH) auto
    then show ?thesis using tick by (auto simp: and_then_def)
  qed
qed simp

text \<open>No operation takes a slot away.\<close>

named_theorems slots_dests "operations and the slots of the timer"

lemma put_session_slots [simp]: "sv_slots (put_session s se R) = sv_slots R"
  by (simp add: put_session_def)

lemma session_finished_slots [slots_dests]: "session_finished e s R = Some (R', out) \<Longrightarrow> sv_slots R' = sv_slots R"
  by (auto simp: session_finished_def stopLogin_def Let_def channel_handleSessionFinished_def removeSession_def
      split: option.splits if_splits prod.splits)

lemma finishSession_slots [slots_dests]: "finishSession e s R = Some (R', out) \<Longrightarrow> sv_slots R' = sv_slots R"
  by (auto simp: finishSession_def and_then_def session_finished_slots split: if_splits option.splits)

lemma handlePasswordInvalid_slots [slots_dests]:
  "handlePasswordInvalid e error s R = Some (R', out) \<Longrightarrow> sv_slots R' = sv_slots R"
  by (auto simp: handlePasswordInvalid_def and_then_def finishSession_slots split: if_splits option.splits)

lemma onPasswordInvalid_slots [slots_dests]: "onPasswordInvalid e j error R = Some (R', out) \<Longrightarrow> sv_slots R' = sv_slots R"
  by (auto simp: onPasswordInvalid_def and_then_def Let_def handlePasswordInvalid_slots split: option.splits)

lemma handlePasswordValid_slots [slots_dests]: "handlePasswordValid s R = Some (R', out) \<Longrightarrow> sv_slots R' = sv_slots R"
  by (auto simp: handlePasswordValid_def  split: option.splits if_splits)

lemma onPasswordValid_slots [slots_dests]: "onPasswordValid e j R = Some (R', out) \<Longrightarrow> sv_slots R' = sv_slots R"
  by (auto simp: onPasswordValid_def and_then_def Let_def handlePasswordValid_slots split: option.splits)

lemma tick_slots_slots [slots_dests]: "tick_slots e js R = Some (R', out) \<Longrightarrow> sv_slots R' = sv_slots R"
  by (induction js arbitrary: R R' out)
    (fastforce simp: and_then_def handleRemoveTimeout_def onPasswordInvalid_slots split: option.splits)+

lemma isValidUserPassword_slots [slots_dests]:
  "isValidUserPassword e j s pw R = Some (R', out) \<Longrightarrow> sv_slots R' = sv_slots R"
  by (auto simp: isValidUserPassword_def and_then_def Let_def handlePasswordValid_slots
      split: if_splits option.splits dest: handlePasswordInvalid_slots)

lemma handle_auth_slots [slots_dests]: "handle_auth e m msg s se R = Some (R', out) \<Longrightarrow> sv_slots R' = sv_slots R"
  by (auto simp: handle_auth_def and_then_def  split_def Let_def
      split: if_splits option.splits dest: isValidUserPassword_slots finishSession_slots)

lemma handleElement_slots [slots_dests]: "handleElement e el s R = Some (R', out) \<Longrightarrow> sv_slots R' = sv_slots R"
  by (auto simp: handleElement_def  setInitialized_def addSession_def Let_def
      split: if_splits option.splits element.splits stanza.splits iqpayload.splits dest: handle_auth_slots)

lemma finish_all_slots [slots_dests]: "finish_all e el lst ss R = Some (R', out) \<Longrightarrow> sv_slots R' = sv_slots R"
proof (induction ss arbitrary: R out)
  case (Cons s ss)
  then show ?case
    by (auto simp: and_then_def Let_def removeSession_def split: if_splits option.splits dest!: finishSession_slots)
qed simp

lemma event_step_slots: "event_step e ev R = Some (R', out) \<Longrightarrow> set (sv_slots R) \<subseteq> set (sv_slots R')"
  by (cases ev) (auto simp: server_handleNewClientConnection_def  if_alive_def removeLater_def
      remove_tick_def channel_finishSession_def handleStreamStart_def handleTLSConnected_def
      split: if_splits option.splits
      dest: slots_dests)

lemma run_events_slots: "run_events e evs R = Some (R', out) \<Longrightarrow> set (sv_slots R) \<subseteq> set (sv_slots R')"
  by (induction evs arbitrary: R R' out)
    (fastforce simp: and_then_def split: option.splits dest: event_step_slots)+

text \<open>
  C37: The registry's timer keeps the slot of every user it has ever refused. Once \<open>removeLater\<close> has
  been called for a user (because he gave a wrong password while he was connected), the next time
  the timer fires, for whomever, a login of his that is being checked is refused, with the right
  password too.
\<close>

theorem stale_removal:
  assumes "run_events e (RemoveLater j # evs) R = Some (R1, o1)" and "server_ok e R1"
    and "smap_get (sv_users R1) (user_key e j) = Some (pw, s)" and "get_session R1 s = Some se" and "\<not> se_initialized se"
  shows "\<exists>R2 o2. run_events e [RemoveLater other, RemoveTick] R1 = Some (R2, o2) \<and> WriteAuthFailure s \<in> set o2"
proof -
  let ?R = "removeLater other R1"
  have "j \<in> set (sv_slots R1)"
    using assms(1) run_events_slots [of e evs "removeLater j R" R1] by (auto simp: and_then_def removeLater_def split: option.splits)
  then have "\<exists>R2 o2. tick_slots e (sv_slots ?R) ?R = Some (R2, o2) \<and> WriteAuthFailure s \<in> set o2"
    using assms by (intro tick_slots_refuses [where se = se and pw = pw and j = j]) (auto simp: removeLater_def)
  then show ?thesis by (auto simp: and_then_def remove_tick_def)
qed

definition bob_again :: "event list" where
  "bob_again = [RemoveTick, NewConnection ''a'', StreamStart 0 (JID [] ''srv'' None), Element 0 (AuthRequest ''PLAIN'' ''bob:right'')]"

lemma bob_again_run:
  "\<exists>R out. run_events witness_senv (RemoveLater (JID ''bob'' ''srv'' None) # bob_again) empty_server = Some (R, out)
    \<and> server_ok witness_senv R \<and> smap_get (sv_users R) ''bob@srv'' = Some (''right'', 0)
    \<and> (\<exists>se. get_session R 0 = Some se \<and> \<not> se_initialized se)"
  by (simp add: bob_again_def empty_server_def server_handleNewClientConnection_def put_session_def new_session_def
      get_session_def smap_get_def if_alive_def handleStreamStart_def handleElement_def handle_auth_def witness_senv_def
      isValidUserPassword_def user_key_def getBareJID_def and_then_def removeLater_def remove_tick_def handleRemoveTimeout_def
      onPasswordInvalid_def server_ok_def login_ok_def channel_ok_def Let_def jid_bare_def smap_ok_def)

theorem stale_removal_witness:
  "\<exists>R1 o1 R2 o2. run_events witness_senv (RemoveLater (JID ''bob'' ''srv'' None) # bob_again) empty_server = Some (R1, o1)
    \<and> run_events witness_senv [RemoveLater (JID ''eve'' ''srv'' None), RemoveTick] R1 = Some (R2, o2)
    \<and> WriteAuthFailure 0 \<in> set o2"
proof -
  obtain R1 o1 se where "run_events witness_senv (RemoveLater (JID ''bob'' ''srv'' None) # bob_again) empty_server = Some (R1, o1)"
    "server_ok witness_senv R1" "smap_get (sv_users R1) ''bob@srv'' = Some (''right'', 0)"
    "get_session R1 0 = Some se" "\<not> se_initialized se"
    using bob_again_run by blast
  then show ?thesis
    using stale_removal [of witness_senv "JID ''bob'' ''srv'' None" bob_again empty_server R1 o1 "''right''" 0 se "JID ''eve'' ''srv'' None"]
    by (simp only: witness_senv_sel) blast
qed

end
