(* ===== verification/Storage.thy ===== *)
theory Storage
  imports Stanza
begin

text \<open>
  The storage interface, \<open>StorageBackend\<close> of \<open>include/transport/StorageBackend.h\<close>: a record of its virtual
  functions over any type of databases, and the laws that the user manager and the registration
  rely on as the locale \<open>user_store\<close>. \<open>Sqlite\<close> implements it.
\<close>

record 'd storage =
  st_getUser :: "'d \<Rightarrow> string \<Rightarrow> userinfo option"
  st_setUser :: "userinfo \<Rightarrow> 'd \<Rightarrow> 'd"
  st_setUserOnline :: "int \<Rightarrow> bool \<Rightarrow> 'd \<Rightarrow> 'd"
  st_getUserSetting :: "int \<Rightarrow> string \<Rightarrow> string \<Rightarrow> 'd \<Rightarrow> string \<times> 'd"
  st_getAllSettings :: "'d \<Rightarrow> int \<Rightarrow> (string, string) smap"
  st_getBuddies :: "'d \<Rightarrow> int \<Rightarrow> buddyinfo list"
  st_addBuddy :: "int \<Rightarrow> buddyinfo \<Rightarrow> 'd \<Rightarrow> int \<times> 'd"
  st_updateBuddy :: "int \<Rightarrow> buddyinfo \<Rightarrow> 'd \<Rightarrow> 'd"
  st_removeBuddy :: "int \<Rightarrow> 'd \<Rightarrow> 'd"
  st_removeUser :: "int \<Rightarrow> 'd \<Rightarrow> bool \<times> 'd"
  st_getOnlineUsers :: "'d \<Rightarrow> bool \<times> string list"
  st_getUsers :: "'d \<Rightarrow> bool \<times> string list"
  st_getLegacyNetworkUsers :: "'d \<Rightarrow> bool \<times> string list"
  st_updateUserSetting :: "int \<Rightarrow> string \<Rightarrow> string \<Rightarrow> 'd \<Rightarrow> 'd"

text \<open>The record of a user as it is stored under an id; the map of settings is not part of it.\<close>

definition stored_as :: "userinfo \<Rightarrow> userinfo \<Rightarrow> bool" where
  "stored_as user info \<longleftrightarrow> ui_jid info = ui_jid user \<and> ui_uin info = ui_uin user \<and> ui_password info = ui_password user
     \<and> ui_language info = ui_language user \<and> ui_encoding info = ui_encoding user \<and> ui_vip info = ui_vip user"

locale user_store =
  fixes st :: "'d storage" and ok :: "'d \<Rightarrow> bool" and valid :: "userinfo \<Rightarrow> bool" and key_ok :: "string \<Rightarrow> bool"
  assumes set_ok: "ok db \<Longrightarrow> valid user \<Longrightarrow> ok (st_setUser st user db)"
    and set_new: "ok db \<Longrightarrow> valid user \<Longrightarrow> st_getUser st db (ui_jid user) = None
      \<Longrightarrow> \<exists>info. st_getUser st (st_setUser st user db) (ui_jid user) = Some info \<and> stored_as user info"
    and set_other: "ok db \<Longrightarrow> valid user \<Longrightarrow> key_ok j \<Longrightarrow> j \<noteq> ui_jid user \<Longrightarrow> st_getUser st (st_setUser st user db) j = st_getUser st db j"
    and remove_ok: "ok db \<Longrightarrow> ok (snd (st_removeUser st i db))"
    and remove_get: "ok db \<Longrightarrow> st_getUser st (snd (st_removeUser st i db)) j
      = (case st_getUser st db j of None \<Rightarrow> None | Some info \<Rightarrow> if ui_id info = i then None else Some info)"
    and ids_differ: "ok db \<Longrightarrow> key_ok j \<Longrightarrow> key_ok k \<Longrightarrow> st_getUser st db j = Some a \<Longrightarrow> st_getUser st db k = Some b \<Longrightarrow> ui_id a = ui_id b \<Longrightarrow> j = k"
    and valid_key: "valid user \<Longrightarrow> key_ok (ui_jid user)"
begin

lemma remove_same: "ok db \<Longrightarrow> st_getUser st db j = Some info \<Longrightarrow> st_getUser st (snd (st_removeUser st (ui_id info) db)) j = None"
  by (simp add: remove_get)

lemma remove_other:
  "ok db \<Longrightarrow> key_ok j \<Longrightarrow> key_ok k \<Longrightarrow> st_getUser st db j = Some info \<Longrightarrow> k \<noteq> j \<Longrightarrow> st_getUser st (snd (st_removeUser st (ui_id info) db)) k = st_getUser st db k"
  using ids_differ [of db j k info] by (auto simp: remove_get split: option.splits)

text \<open>A user that is stored and then removed leaves no trace in the list of users.\<close>

lemma set_remove:
  assumes "ok db" and "valid user" and "st_getUser st db (ui_jid user) = None"
    and "st_getUser st (st_setUser st user db) (ui_jid user) = Some info" and "key_ok k"
  shows "st_getUser st (snd (st_removeUser st (ui_id info) (st_setUser st user db))) k = st_getUser st db k"
proof (cases "k = ui_jid user")
  case True
  then show ?thesis using assms set_ok remove_same by metis
next
  case False
  then show ?thesis using assms set_ok set_other remove_other valid_key by metis
qed

end

end
