(* ===== verification/Forms.thy ===== *)
theory Forms
  imports Stanza
begin

text \<open>
  Data forms (\<open>spectrum/src/frontends/xmpp/formutils.cpp\<close>) and what the registration sends and signals
  (\<open>InBandRegistrationPayload\<close>, roster requests, the signals of \<open>UserRegistration\<close>); the payloads of the
  other queries a client makes (\<open>RosterPayload\<close>, \<open>VCard\<close>, \<open>GatewayPayload\<close>, \<open>DiscoInfo\<close>, \<open>DiscoItems\<close>,
  \<open>StatsPayload\<close>, private storage).
\<close>

section \<open>Forms\<close>

datatype fieldtype = HiddenType | TextSingleType | TextPrivateType | ListSingleType | BooleanType | FixedType

record formfield =
  ff_type :: fieldtype
  ff_name :: string
  ff_label :: string
  ff_required :: bool
  ff_values :: "string list"
  ff_options :: "(string \<times> string) list"

record form =
  fm_title :: string
  fm_instructions :: string
  fm_fields :: "formfield list"

definition new_field :: "fieldtype \<Rightarrow> string list \<Rightarrow> formfield" where
  "new_field t vals = \<lparr>ff_type = t, ff_name = [], ff_label = [], ff_required = False, ff_values = vals, ff_options = []\<rparr>"

definition createHiddenField :: "string \<Rightarrow> string \<Rightarrow> formfield" where
  "createHiddenField name val = (new_field HiddenType [val])\<lparr>ff_name := name\<rparr>"

definition createTextSingleField :: "string \<Rightarrow> string \<Rightarrow> string \<Rightarrow> bool \<Rightarrow> formfield" where
  "createTextSingleField name val label required =
     (new_field TextSingleType [val])\<lparr>ff_name := name, ff_label := label, ff_required := required\<rparr>"

definition createTextPrivateField :: "string \<Rightarrow> string \<Rightarrow> bool \<Rightarrow> formfield" where
  "createTextPrivateField name label required =
     (new_field TextPrivateType [])\<lparr>ff_name := name, ff_label := label, ff_required := required\<rparr>"

text \<open>The argument \<open>required\<close> of \<open>createListSingleField\<close> is not used.\<close>

definition createListSingleField :: "string \<Rightarrow> string \<times> string \<Rightarrow> string \<Rightarrow> string \<Rightarrow> bool \<Rightarrow> formfield" where
  "createListSingleField name val label def required =
     (new_field ListSingleType [def])\<lparr>ff_name := name, ff_label := label, ff_options := [val]\<rparr>"

definition createBooleanField :: "string \<Rightarrow> string \<Rightarrow> string \<Rightarrow> bool \<Rightarrow> formfield" where
  "createBooleanField name val label required =
     (new_field BooleanType [val])\<lparr>ff_name := name, ff_label := label, ff_required := required\<rparr>"

definition createTextFixedField :: "string \<Rightarrow> formfield" where
  "createTextFixedField val = new_field FixedType [val]"

definition addField :: "formfield \<Rightarrow> form \<Rightarrow> form" where
  "addField field form = form\<lparr>fm_fields := fm_fields form @ [field]\<rparr>"

definition field_value :: "formfield \<Rightarrow> string" where
  "field_value field = (case ff_values field of [] \<Rightarrow> [] | v # _ \<Rightarrow> v)"

definition fieldValue :: "form \<Rightarrow> string \<Rightarrow> string \<Rightarrow> string" where
  "fieldValue form key def =
     (case find (\<lambda>field. ff_name field = key) (fm_fields form) of None \<Rightarrow> def | Some field \<Rightarrow> field_value field)"

section \<open>Registration requests and answers\<close>

record regpayload =
  rp_instructions :: string
  rp_registered :: bool
  rp_remove :: bool
  rp_username :: "string option"
  rp_password :: "string option"
  rp_form :: "form option"

datatype rostersub = SubBoth | SubRemove

datatype regout =
    RegResponse jid string "regpayload option"
  | RegError jid string errcond
  | RegisterRosterRequest string
  | UnregisterRosterRequest string
  | SetRoster string jid rostersub
  | OnUserRegistered userinfo
  | OnUserUnregistered userinfo

section \<open>Answers to queries\<close>

datatype itemsub = ItemNone | ItemTo | ItemFrom | ItemBoth | ItemRemove

record rosteritem =
  ri_jid :: jid
  ri_name :: string
  ri_groups :: "string list"
  ri_sub :: itemsub

record vcard =
  vc_fullname :: string
  vc_nickname :: string
  vc_photo :: string

definition empty_vcard :: vcard where
  "empty_vcard = \<lparr>vc_fullname = [], vc_nickname = [], vc_photo = []\<rparr>"

text \<open>An identity is a name, a category and a type.\<close>

record discoinfo =
  di_node :: string
  di_identities :: "(string \<times> string \<times> string) list"
  di_features :: "string list"

record discoitem =
  it_name :: string
  it_jid :: jid
  it_node :: string

text \<open>An entry of the statistics: name, unit and value.\<close>

type_synonym statitem = "string \<times> string \<times> string"

datatype answerpayload =
    IqNoPayload
  | IqRoster "(jid \<times> string \<times> string list) list"
  | IqVCard vcard
  | IqGateway jid string string
  | IqPrivate string
  | IqDiscoInfo discoinfo
  | IqDiscoItems string "discoitem list"
  | IqStats "statitem list"

text \<open>\<open>sendResponse\<close> with or without the address the answer comes from, \<open>sendError\<close>, a roster push.\<close>

datatype iqout =
    IqResult jid "jid option" string answerpayload
  | IqError jid string errcond
  | IqRosterPush jid "rosteritem list"

end
