(* ===== verification/World.thy ===== *)
theory World
  imports Pool Users Sessions Storage Forms
begin

text \<open>
  The whole transport: \<open>libtransport/UserManager.cpp\<close> on top of the presence oracle, the users, the
  backend pool and, in server mode, the client sessions with the user registry, with the signals
  that connect them (\<open>Component::handlePresence\<close> and the slots of \<open>frontend->onPresenceReceived\<close>).

  \<open>User\<close> objects live in a heap addressed by numbers that are never reused. An operation is a
  function on the world that is \<open>None\<close> when it follows a pointer to a deleted object; what it sends
  is appended to the log \<open>w_out\<close>. The storage backend is an interface of the program whose
  implementations talk to a database server: it is a record of functions over an arbitrary type of
  databases. Fields of a \<open>UserInfo\<close> that nobody has set are \<open>we_uninit\<close>.
\<close>

section \<open>State\<close>

datatype wout =
    Eff effect
  | PoolOut pout
  | SrvOut sout
  | VCardOut int string string string
  | RoomListOut "nat option" "(string \<times> string) list"
  | ConfigOut string
  | IQOut iq
  | RegOut regout
  | IqAnswer iqout

record 'd world =
  w_orc :: poracle
  w_heap :: "(nat, user) smap"
  w_next :: nat
  w_users :: "(string, nat) smap"
  w_cached :: "nat option"
  w_slots :: "(string \<times> nat \<times> bool) list"
  w_sentToXMPP :: int
  w_sentToBackend :: int
  w_pool :: pool
  w_srv :: server
  w_db :: 'd
  w_id2resource :: "(string, string) smap"
  w_out :: "wout list"

record 'd wenv =
  we_sw :: swiften
  we_cf :: settings
  we_store :: "'d storage option"
  we_uninit :: userinfo
  we_caps :: "jid \<Rightarrow> string list option"
  we_low :: "string \<Rightarrow> string"
  we_now :: int
  we_senv :: senv
  we_penv :: penv

definition uenv_of :: "'d wenv \<Rightarrow> 'd world \<Rightarrow> uenv" where
  "uenv_of e w = \<lparr>ue_sw = we_sw e, ue_cf = we_cf e, ue_orc = w_orc w, ue_caps = we_caps e, ue_photohash = [],
     ue_low = we_low e, ue_now = we_now e\<rparr>"

text \<open>What the pool reads of the users; \<open>we_penv\<close> supplies the serializers and the process ids.\<close>

definition puser_of :: "'d wenv \<Rightarrow> user \<Rightarrow> puser" where
  "puser_of e u = \<lparr>pu_bare = sw_str (we_sw e) (jid_bare (u_jid u)), pu_uin = ui_uin (u_info u),
     pu_password = ui_password (u_info u), pu_settings = ui_settings (u_info u),
     pu_buddies = r_buddies (u_roster u), pu_ready = u_readyForConnect u, pu_lastActivity = u_lastActivity u\<rparr>"

definition no_puser :: puser where
  "no_puser = \<lparr>pu_bare = [], pu_uin = [], pu_password = [], pu_settings = [], pu_buddies = [], pu_ready = False,
     pu_lastActivity = 0\<rparr>"

definition penv_of :: "'d wenv \<Rightarrow> 'd world \<Rightarrow> penv" where
  "penv_of e w = (we_penv e)\<lparr>pe_sw := we_sw e, pe_cf := we_cf e,
     pe_user := (\<lambda>u. case smap_get (w_heap w) u of None \<Rightarrow> no_puser | Some usr \<Rightarrow> puser_of e usr),
     pe_lookup := smap_get (w_users w), pe_now := we_now e\<rparr>"

definition senv_of :: "'d wenv \<Rightarrow> senv" where
  "senv_of e = (we_senv e)\<lparr>se_sw := we_sw e, se_cf := we_cf e\<rparr>"

definition w_server :: "'d wenv \<Rightarrow> bool" where
  "w_server e = inServerMode (we_cf e)"

definition bare_str :: "'d wenv \<Rightarrow> jid \<Rightarrow> string" where
  "bare_str e j = sw_str (we_sw e) (jid_bare j)"

section \<open>Calls between components\<close>

definition emit :: "wout list \<Rightarrow> 'd world \<Rightarrow> 'd world" where
  "emit os w = w\<lparr>w_out := w_out w @ os\<rparr>"

definition pool_call :: "(pool \<Rightarrow> (pool \<times> pout list) option) \<Rightarrow> 'd world \<Rightarrow> 'd world option" where
  "pool_call f w = map_option (\<lambda>(P, os). emit (map PoolOut os) (w\<lparr>w_pool := P\<rparr>)) (f (w_pool w))"

definition pool_send :: "(pool \<Rightarrow> pout list option) \<Rightarrow> 'd world \<Rightarrow> 'd world option" where
  "pool_send f = pool_call (\<lambda>P. map_option (\<lambda>os. (P, os)) (f P))"

definition db_call :: "'d wenv \<Rightarrow> ('d storage \<Rightarrow> 'd \<Rightarrow> 'd) \<Rightarrow> 'd world \<Rightarrow> 'd world" where
  "db_call e f w = (case we_store e of None \<Rightarrow> w | Some st \<Rightarrow> w\<lparr>w_db := f st (w_db w)\<rparr>)"

text \<open>The contacts of a user are stored under his id; his object exists as long as they do.\<close>

definition user_id :: "nat \<Rightarrow> 'd world \<Rightarrow> int" where
  "user_id u w = (case smap_get (w_heap w) u of None \<Rightarrow> -1 | Some usr \<Rightarrow> ui_id (u_info usr))"

text \<open>
  The slots of the user's signals. Those of the pool are connected only while the user is on a
  backend (\<open>p_slots\<close>); messages of conversations always arrive.
\<close>

definition slot :: "nat \<Rightarrow> (pool \<Rightarrow> pout list option) \<Rightarrow> 'd world \<Rightarrow> 'd world option" where
  "slot u f w = (if u \<in> set (p_slots (w_pool w)) then pool_send f w else Some w)"

fun deliver :: "'d wenv \<Rightarrow> nat \<Rightarrow> effect \<Rightarrow> 'd world \<Rightarrow> 'd world option" where
  "deliver e u OnReadyToConnect w = slot u (handleUserReadyToConnect (penv_of e w) u) w"
| "deliver e u (OnPresenceChanged p) w = slot u (handleUserPresenceChanged (penv_of e w) u p) w"
| "deliver e u (OnRawPresenceReceived p) w = slot u (handleRawPresenceReceived (penv_of e w) p) w"
| "deliver e u (OnRoomJoined j room nick password) w =
     slot u (handleRoomJoined (penv_of e w) u room nick password) w"
| "deliver e u (OnRoomLeft room) w = slot u (handleRoomLeft (penv_of e w) u room) w"
| "deliver e u (OnBuddyAdded name alias groups) w = slot u (handleUserBuddyAdded (penv_of e w) u name alias groups) w"
| "deliver e u (OnBuddyRemoved name alias groups) w = slot u (nps_handleBuddyRemoved (penv_of e w) u name alias groups) w"
| "deliver e u (OnMessageToSend name m) w = pool_send (nps_handleMessageReceived (penv_of e w) u name m) w"
| "deliver e u OnUserDestroyed w = pool_call (handleUserDestroyed (penv_of e w) u) w"
| "deliver e u OnUserCreated w = pool_call (\<lambda>P. Some (handleUserCreated (penv_of e w) u P)) w"
| "deliver e u (DbAddBuddy b) w = Some (db_call e (\<lambda>st. snd \<circ> st_addBuddy st (user_id u w) b) w)"
| "deliver e u (DbUpdateBuddy b) w = Some (db_call e (\<lambda>st. st_updateBuddy st (user_id u w) b) w)"
| "deliver e u (DbRemoveBuddy i) w = Some (db_call e (\<lambda>st. st_removeBuddy st i) w)"
| "deliver e u ef w = Some (emit [Eff ef] w)"

fun deliver_all :: "'d wenv \<Rightarrow> nat \<Rightarrow> effect list \<Rightarrow> 'd world \<Rightarrow> 'd world option" where
  "deliver_all e u [] w = Some w"
| "deliver_all e u (ef # efs) w = do { w \<leftarrow> deliver e u ef w; deliver_all e u efs w }"

interpretation da: each_loop "deliver e u" "deliver_all e u" for e u
  by unfold_locales simp_all

text \<open>A member function of a user: the object is updated and its signals are delivered.\<close>

definition user_call :: "'d wenv \<Rightarrow> nat \<Rightarrow> (uenv \<Rightarrow> user \<Rightarrow> (user \<times> effect list) option) \<Rightarrow> 'd world \<Rightarrow> 'd world option" where
  "user_call e u f w =
     do { usr \<leftarrow> smap_get (w_heap w) u;
          (usr, efs) \<leftarrow> f (uenv_of e w) usr;
          deliver_all e u efs (w\<lparr>w_heap := smap_put u (settle (uenv_of e w) efs usr) (w_heap w)\<rparr>) }"

section \<open>The user manager\<close>

text \<open>\<open>None\<close> is a dangling \<open>m_cachedUser\<close>.\<close>

definition um_lookup :: "'d wenv \<Rightarrow> string \<Rightarrow> 'd world \<Rightarrow> (nat option \<times> 'd world) option" where
  "um_lookup e key w =
     (case smap_get (w_users w) key of
        None \<Rightarrow> Some (None, w)
      | Some u \<Rightarrow>
          do { usr \<leftarrow> smap_get (w_heap w) u;
               let usr = (case we_store e of
                            None \<Rightarrow> usr
                          | Some st \<Rightarrow> usr\<lparr>u_info := (u_info usr)\<lparr>ui_settings :=
                                        st_getAllSettings st (w_db w) (ui_id (u_info usr))\<rparr>\<rparr>);
               Some (Some u, w\<lparr>w_heap := smap_put u usr (w_heap w), w_cached := Some u\<rparr>) })"

definition um_getUser :: "'d wenv \<Rightarrow> string \<Rightarrow> 'd world \<Rightarrow> (nat option \<times> 'd world) option" where
  "um_getUser e key w =
     (case w_cached w of
        None \<Rightarrow> um_lookup e key w
      | Some c \<Rightarrow>
          do { usr \<leftarrow> smap_get (w_heap w) c;
               if key = bare_str e (u_jid usr) then Some (Some c, w) else um_lookup e key w })"

definition um_addUser :: "'d wenv \<Rightarrow> nat \<Rightarrow> user \<Rightarrow> 'd world \<Rightarrow> 'd world option" where
  "um_addUser e u usr w =
     (let w = w\<lparr>w_heap := smap_put u usr (w_heap w), w_users := smap_put (bare_str e (u_jid usr)) u (w_users w)\<rparr>;
          w = db_call e (\<lambda>st. st_setUserOnline st (ui_id (u_info usr)) True) w
      in deliver e u OnUserCreated w)"

definition um_handleDiscoInfo :: "'d wenv \<Rightarrow> jid \<Rightarrow> string list \<Rightarrow> 'd world \<Rightarrow> 'd world option" where
  "um_handleDiscoInfo e j info w =
     do { (uo, w) \<leftarrow> um_getUser e (bare_str e j) w;
          case uo of None \<Rightarrow> Some w
          | Some u \<Rightarrow> user_call e u (\<lambda>ue usr. Some (handleDiscoInfo ue j info usr)) w }"

subsection \<open>A presence of a user who has no \<open>User\<close> object\<close>

definition send_presence :: "jid \<Rightarrow> jid \<Rightarrow> ptype \<Rightarrow> wout" where
  "send_presence to from t = Eff (SendPresence (mk_presence to from t))"

definition is_admin :: "'d wenv \<Rightarrow> jid \<Rightarrow> bool" where
  "is_admin e j \<longleftrightarrow> bare_str e j \<in> set (cf_admin_jid (we_cf e))"

definition answer_unavailable :: "'d wenv \<Rightarrow> presence \<Rightarrow> string \<Rightarrow> 'd world \<Rightarrow> 'd world" where
  "answer_unavailable e p key w =
     db_call e (\<lambda>st db. case st_getUser st db key of None \<Rightarrow> db | Some info \<Rightarrow> st_setUserOnline st (ui_id info) False db)
       (emit (send_presence (pr_from p) (pr_to p) Unavailable
              # (if pr_type p = Probe then [send_presence (pr_from p) (pr_to p) Probe] else [])) w)"

text \<open>\<open>setUser\<close> followed by \<open>getUser\<close> for the new id; without a database the user counts as registered.\<close>

definition store_user :: "'d wenv \<Rightarrow> string \<Rightarrow> userinfo \<Rightarrow> 'd world \<Rightarrow> bool \<times> userinfo \<times> 'd world" where
  "store_user e key info w =
     (case we_store e of
        None \<Rightarrow> (True, info, w)
      | Some st \<Rightarrow>
          (let w = w\<lparr>w_db := st_setUser st info (w_db w)\<rparr>
           in case st_getUser st (w_db w) key of
                None \<Rightarrow> (False, info, w)
              | Some info \<Rightarrow> (True, info, w)))"

definition server_refuses :: "'d wenv \<Rightarrow> bool" where
  "server_refuses e \<longleftrightarrow> dflt (cf_needRegistration (we_cf e)) False \<and> dflt (cf_needPassword (we_cf e)) True"

definition register_server :: "'d wenv \<Rightarrow> presence \<Rightarrow> string \<Rightarrow> bool \<times> userinfo \<Rightarrow> 'd world \<Rightarrow> bool \<times> userinfo \<times> 'd world" where
  "register_server e p key ri w =
     (let (registered, info, w) =
            (if fst ri then (True, snd ri, w)
             else store_user e key ((snd ri)\<lparr>ui_password := [], ui_uin := percent_loop (jid_node (pr_from p)), ui_jid := key\<rparr>) w)
      in (registered, info\<lparr>ui_password := getUserPassword key (w_srv w)\<rparr>, w))"

definition register_gateway :: "'d wenv \<Rightarrow> presence \<Rightarrow> string \<Rightarrow> bool \<times> userinfo \<Rightarrow> 'd world \<Rightarrow> bool \<times> userinfo \<times> 'd world" where
  "register_gateway e p key ri w =
     (if \<not> fst ri \<and> (cf_auto_register (we_cf e) \<or> \<not> dflt (cf_needRegistration (we_cf e)) True)
      then store_user e key ((snd ri)\<lparr>ui_password := [], ui_jid := key,
             ui_uin := (if is_MUC p then jid_resource (pr_to p) else sw_str (we_sw e) (pr_from p))\<rparr>) w
      else (fst ri, snd ri, w))"

definition not_vip :: "'d wenv \<Rightarrow> presence \<Rightarrow> 'd world \<Rightarrow> 'd world" where
  "not_vip e p w =
     (if cf_vip_message (we_cf e) = [] then w
      else emit [Eff (SendMessage (empty_message\<lparr>m_body := Some (cf_vip_message (we_cf e)), m_to := pr_from p,
                    m_from := cf_jid (we_cf e)\<rparr>))] w)"

definition transport_enabled :: "'d wenv \<Rightarrow> userinfo \<Rightarrow> 'd world \<Rightarrow> bool \<times> 'd world" where
  "transport_enabled e info w =
     (case we_store e of
        None \<Rightarrow> (True, w)
      | Some st \<Rightarrow>
          (let (v, db) = st_getUserSetting st (ui_id info) ''enable_transport'' ''1'' (w_db w)
           in (v = ''1'', w\<lparr>w_db := db\<rparr>)))"

definition create_user :: "'d wenv \<Rightarrow> jid \<Rightarrow> userinfo \<Rightarrow> 'd world \<Rightarrow> 'd world option" where
  "create_user e j info w =
     (let u = w_next w;
          usr = new_User (uenv_of e w) j info;
          stored = map_option (\<lambda>st. st_getBuddies st (w_db w) (ui_id info)) (we_store e);
          usr = usr\<lparr>u_roster := setStorageBackend (renv_of (uenv_of e w) usr) stored (u_roster usr)\<rparr>
      in um_addUser e u usr (w\<lparr>w_next := Suc u\<rparr>))"

text \<open>
  The part of \<open>handlePresence\<close> for an unknown user: the new world, and whether the presence is
  handled further. \<open>refuse\<close> stands for \<open>m_userRegistry->onPasswordInvalid\<close>.
\<close>

type_synonym 'd refuse = "jid \<Rightarrow> string \<Rightarrow> 'd world \<Rightarrow> 'd world option"

definition unknown_user :: "'d refuse \<Rightarrow> 'd wenv \<Rightarrow> presence \<Rightarrow> string \<Rightarrow> 'd world \<Rightarrow> (bool \<times> 'd world) option" where
  "unknown_user refuse e p key w =
     (if w_server e \<and> is_admin e (pr_from p)
      then Some (False, emit [Eff (SendRosterAdmin (pr_from p)), send_presence (pr_from p) (cf_jid (we_cf e)) Available] w)
      else
       (let found = (case we_store e of None \<Rightarrow> None | Some st \<Rightarrow> st_getUser st (w_db w) key);
            ri = (case found of None \<Rightarrow> (False, we_uninit e) | Some info \<Rightarrow> (True, info))
        in if pr_type p = Unavailable \<or> pr_type p = Probe
           then Some (False, answer_unavailable e p key w)
           else if w_server e \<and> \<not> fst ri \<and> server_refuses e
           then map_option (\<lambda>w. (False, w)) (refuse (pr_from p) [] w)
           else
            (let (registered, info, w) =
                   (if w_server e then register_server e p key ri w else register_gateway e p key ri w)
             in if \<not> registered then Some (False, w)
                else if cf_vip_only (we_cf e) \<and> \<not> ui_vip info
                then (let w = not_vip e p w
                      in if w_server e then map_option (\<lambda>w. (False, w)) (refuse (pr_from p) [] w) else Some (False, w))
                else
                 (let (enabled, w) = transport_enabled e info w
                  in if \<not> enabled then Some (False, w)
                     else map_option (\<lambda>w. (True, w)) (create_user e (pr_from p) info w)))))"

subsection \<open>A presence\<close>

text \<open>The rest of \<open>handlePresence\<close>.\<close>

definition known_user :: "'d refuse \<Rightarrow> 'd wenv \<Rightarrow> presence \<Rightarrow> string \<Rightarrow> 'd world \<Rightarrow> 'd world option" where
  "known_user refuse e p key w =
     do { (uo, w) \<leftarrow> um_getUser e key w;
          case uo of
            None \<Rightarrow> refuse (pr_from p) [] w
          | Some u \<Rightarrow>
              do { w \<leftarrow> user_call e u (\<lambda>ue. handlePresence ue p False) w;
                   usr \<leftarrow> smap_get (w_heap w) u;
                   if is_MUC p \<or> pr_type p \<noteq> Unavailable \<or> getUserSetting usr ''stay_connected'' = ''1'' then Some w
                   else case getHighestPriorityPresence (we_sw e) (w_orc w) (jid_bare (pr_from p)) of
                          Some h \<Rightarrow>
                            if pr_type h = Unavailable
                            then Some (w\<lparr>w_slots := w_slots w @ [(bare_str e (u_jid usr), u, False)]\<rparr>)
                            else Some w
                        | None \<Rightarrow> Some (w\<lparr>w_slots := w_slots w @ [(bare_str e (u_jid usr), u, False)]\<rparr>) } }"

definition um_handlePresence_with :: "'d refuse \<Rightarrow> 'd wenv \<Rightarrow> presence \<Rightarrow> 'd world \<Rightarrow> 'd world option" where
  "um_handlePresence_with refuse e p w =
     do { let key = bare_str e (pr_from p);
          (uo, w) \<leftarrow> um_getUser e key w;
          case uo of
            Some u \<Rightarrow> known_user refuse e p key w
          | None \<Rightarrow>
              do { (go, w) \<leftarrow> unknown_user refuse e p key w;
                   if go then known_user refuse e p key w else Some w } }"

definition um_handleMUCPresence :: "'d refuse \<Rightarrow> 'd wenv \<Rightarrow> presence \<Rightarrow> 'd world \<Rightarrow> 'd world option" where
  "um_handleMUCPresence refuse e p w =
     (if jid_node (pr_to p) = [] then Some w
      else if pr_type p = Available then um_handlePresence_with refuse e p w
      else if pr_type p = Unavailable
      then do { (uo, w) \<leftarrow> um_getUser e (bare_str e (pr_from p)) w;
                case uo of None \<Rightarrow> Some w | Some u \<Rightarrow> user_call e u (\<lambda>ue. handlePresence ue p False) w }
      else Some w)"

definition um_handleProbePresence :: "'d wenv \<Rightarrow> presence \<Rightarrow> 'd world \<Rightarrow> 'd world option" where
  "um_handleProbePresence e p w =
     (if jid_node (pr_to p) = [] then Some w
      else do { (uo, w) \<leftarrow> um_getUser e (bare_str e (pr_from p)) w;
                case uo of
                  None \<Rightarrow> Some (emit [send_presence (pr_from p) (pr_to p) Unavailable] w)
                | Some u \<Rightarrow>
                    user_call e u (\<lambda>ue usr. let (r, out) = sendCurrentPresence (renv_of ue usr) (pr_to p) (pr_from p) (u_roster usr)
                                            in Some (usr\<lparr>u_roster := r\<rparr>, out)) w })"

definition registered_subscribe :: "'d wenv \<Rightarrow> presence \<Rightarrow> 'd world \<Rightarrow> 'd world" where
  "registered_subscribe e p w =
     (case we_store e of
        None \<Rightarrow> w
      | Some st \<Rightarrow>
          if st_getUser st (w_db w) (bare_str e (pr_from p)) = None then w
          else emit [send_presence (jid_bare (pr_from p)) (jid_bare (pr_to p)) Subscribe] w)"

definition um_handleErrorPresence :: "'d wenv \<Rightarrow> presence \<Rightarrow> 'd world \<Rightarrow> 'd world" where
  "um_handleErrorPresence e p w =
     (if jid_node (pr_to p) \<noteq> [] then w
      else if error_payload (pr_payloads p) \<noteq> Some SubscriptionRequired then w
      else registered_subscribe e p w)"

definition um_handleSubscription :: "'d wenv \<Rightarrow> presence \<Rightarrow> 'd world \<Rightarrow> 'd world option" where
  "um_handleSubscription e p w =
     (if pr_type p = Subscribe \<and> jid_node (pr_to p) = []
      then Some (emit [send_presence (jid_bare (pr_from p)) (jid_bare (pr_to p)) Subscribed] w)
      else if pr_type p = Unsubscribed \<and> jid_node (pr_to p) = [] then Some (registered_subscribe e p w)
      else if jid_node (pr_to p) = [] then Some w
      else do { (uo, w) \<leftarrow> um_getUser e (bare_str e (pr_from p)) w;
                case uo of
                  Some u \<Rightarrow>
                    user_call e u (\<lambda>ue usr. map_option (\<lambda>(r, out). (usr\<lparr>u_roster := r\<rparr>, out))
                                              (handleSubscription (renv_of ue usr) p (u_roster usr))) w
                | None \<Rightarrow>
                    Some (if pr_type p = Unsubscribe
                          then emit [send_presence (pr_from p) (pr_to p) Unsubscribed] w else w) })"

definition um_handleGeneralPresence_with :: "'d refuse \<Rightarrow> 'd wenv \<Rightarrow> presence \<Rightarrow> 'd world \<Rightarrow> 'd world option" where
  "um_handleGeneralPresence_with refuse e p w =
     (if pr_type p \<in> {Subscribe, Subscribed, Unsubscribe, Unsubscribed} then um_handleSubscription e p w
      else if pr_type p \<in> {Available, Unavailable} then um_handleMUCPresence refuse e p w
      else if pr_type p = Probe then um_handleProbePresence e p w
      else Some (um_handleErrorPresence e p w))"

text \<open>\<open>XMPPFrontend::sendCapabilitiesRequest\<close>, called by the component.\<close>

definition caps_request :: "'d wenv \<Rightarrow> jid \<Rightarrow> 'd world \<Rightarrow> 'd world option" where
  "caps_request e j w =
     (case we_caps e j of
        None \<Rightarrow> Some (emit [Eff (SendCapabilitiesRequest j)] w)
      | Some info \<Rightarrow> um_handleDiscoInfo e j info w)"

text \<open>
  \<open>frontend->onPresenceReceived\<close>: first the presence oracle, which passes the presence on through
  the component to the user manager, then the user manager itself.
\<close>

definition presence_received_with :: "'d refuse \<Rightarrow> 'd wenv \<Rightarrow> presence \<Rightarrow> 'd world \<Rightarrow> 'd world option" where
  "presence_received_with refuse e p w =
     do { let (orc, change) = handleIncomingPresence p (w_orc w);
          let w = w\<lparr>w_orc := orc\<rparr>;
          w \<leftarrow> (case change of
                 None \<Rightarrow> Some w
               | Some pp \<Rightarrow>
                   (case component_handlePresence (we_sw e) pp of
                      None \<Rightarrow> Some w
                    | Some ask \<Rightarrow>
                        do { w \<leftarrow> (if ask then caps_request e (pr_from pp) w else Some w);
                             um_handlePresence_with refuse e pp w }));
          um_handleGeneralPresence_with refuse e p w }"

subsection \<open>The registry and the sessions\<close>

text \<open>
  An unavailable presence never makes the user manager refuse a password, so the presences that
  the registry's refusal and the end of a session cause can be handled without another refusal.
\<close>

definition no_refuse :: "'d refuse" where
  "no_refuse j error w = None"

definition um_disconnectUser :: "'d wenv \<Rightarrow> jid \<Rightarrow> 'd world \<Rightarrow> 'd world option" where
  "um_disconnectUser e j w = presence_received_with no_refuse e (mk_presence (cf_jid (we_cf e)) j Unavailable) w"

text \<open>The signals of an operation of the registry or of the channel, except \<open>onConnectUser\<close>.\<close>

fun srv_signals :: "'d wenv \<Rightarrow> sout list \<Rightarrow> 'd world \<Rightarrow> 'd world option" where
  "srv_signals e [] w = Some w"
| "srv_signals e (SigDisconnect j # os) w = do { w \<leftarrow> um_disconnectUser e j w; srv_signals e os w }"
| "srv_signals e (SigPresence p # os) w = do { w \<leftarrow> presence_received_with no_refuse e p w; srv_signals e os w }"
| "srv_signals e (x # os) w = srv_signals e os (emit [SrvOut x] w)"

definition srv_call :: "'d wenv \<Rightarrow> (server \<Rightarrow> sres) \<Rightarrow> 'd world \<Rightarrow> 'd world option" where
  "srv_call e f w = do { (R, os) \<leftarrow> f (w_srv w); srv_signals e os (w\<lparr>w_srv := R\<rparr>) }"

definition srv_refuse :: "'d wenv \<Rightarrow> 'd refuse" where
  "srv_refuse e j error = srv_call e (onPasswordInvalid (senv_of e) j error)"

definition um_handlePresence :: "'d wenv \<Rightarrow> presence \<Rightarrow> 'd world \<Rightarrow> 'd world option" where
  "um_handlePresence e = um_handlePresence_with (srv_refuse e) e"

definition presence_received :: "'d wenv \<Rightarrow> presence \<Rightarrow> 'd world \<Rightarrow> 'd world option" where
  "presence_received e = presence_received_with (srv_refuse e) e"

subsection \<open>Removing users\<close>

text \<open>
  \<open>~XMPPUser\<close>, \<open>~User\<close>, \<open>~RosterManager\<close> and \<open>~ConversationManager\<close>. The ids that new contacts get from the
  database are not looked at any more.
\<close>

definition delete_user :: "'d wenv \<Rightarrow> nat \<Rightarrow> 'd world \<Rightarrow> 'd world option" where
  "delete_user e u w =
     do { usr \<leftarrow> smap_get (w_heap w) u;
          w \<leftarrow> (if w_server e then srv_call e (channel_finishSession (senv_of e) (u_jid usr) None False) w else Some w);
          (r, o1) \<leftarrow> (if r_storage (u_roster usr)
                      then storeBuddies (\<lambda>_. 0) (u_roster usr)
                      else Some (u_roster usr, []));
          let (r, o2) = sendUnavailablePresences (renv_of (uenv_of e w) usr) (jid_bare (u_jid usr)) r;
          let (cs, o3) = deleteAllConversations (cenv_of (uenv_of e w) usr) (u_convs usr);
          w \<leftarrow> deliver_all e u (o1 @ o2 @ o3) w;
          Some (w\<lparr>w_heap := smap_del u (w_heap w), w_pool := forget_data u (w_pool w)\<rparr>) }"

definition um_removeUser :: "'d wenv \<Rightarrow> nat \<Rightarrow> bool \<Rightarrow> 'd world \<Rightarrow> 'd world option" where
  "um_removeUser e u onUserBehalf w =
     do { usr \<leftarrow> smap_get (w_heap w) u;
          let w = w\<lparr>w_users := smap_del (bare_str e (u_jid usr)) (w_users w),
                    w_cached := (if w_cached w = Some u then None else w_cached w)\<rparr>;
          w \<leftarrow> (if w_server e then um_disconnectUser e (u_jid usr) w
                else Some (w\<lparr>w_orc := clearPresences (jid_bare (u_jid usr)) (w_orc w)\<rparr>));
          let w = (if onUserBehalf then db_call e (\<lambda>st. st_setUserOnline st (ui_id (u_info usr)) False) w else w);
          w \<leftarrow> deliver e u OnUserDestroyed w;
          delete_user e u w }"

text \<open>The loop of \<open>removeAllUsers\<close>; it is run at most \<open>n\<close> times, \<open>None\<close> if it has not ended then.\<close>

fun um_removeAllUsers :: "'d wenv \<Rightarrow> bool \<Rightarrow> nat \<Rightarrow> 'd world \<Rightarrow> 'd world option" where
  "um_removeAllUsers e b 0 w = (if w_users w = [] then Some w else None)"
| "um_removeAllUsers e b (Suc n) w =
     (case w_users w of
        [] \<Rightarrow> Some w
      | (k, u) # _ \<Rightarrow> do { w \<leftarrow> um_removeUser e u b w; um_removeAllUsers e b n w })"

subsection \<open>Logging in, in server mode\<close>

definition um_connectUser :: "'d wenv \<Rightarrow> jid \<Rightarrow> 'd world \<Rightarrow> 'd world option" where
  "um_connectUser e j w =
     (let key = bare_str e j
      in case smap_get (w_users w) key of
           None \<Rightarrow> presence_received e (mk_presence (cf_jid (we_cf e)) j Available) w
         | Some u \<Rightarrow>
             if \<not> w_server e then Some w
             else do { usr \<leftarrow> smap_get (w_heap w) u;
                       if u_connected usr
                       then if getUserPassword key (w_srv w) \<noteq> ui_password (u_info usr)
                            then Some (w\<lparr>w_srv := removeLater j (w_srv w)\<rparr>)
                            else if cf_more_resources (we_cf e)
                            then srv_call e (onPasswordValid (senv_of e) j) w
                            else srv_call e (onPasswordValid (senv_of e) j)
                                   (emit [Eff (SendMessage (empty_message\<lparr>m_body := Some ''You have signed on from another location.'',
                                            m_to := j, m_from := cf_jid (we_cf e)\<rparr>))] w)
                       else Some (w\<lparr>w_slots := removeAll (key, u, False) (w_slots w) @ [(key, u, True)]\<rparr>) })"

definition um_handleRemoveTimeout :: "'d wenv \<Rightarrow> string \<times> nat \<times> bool \<Rightarrow> 'd world \<Rightarrow> 'd world option" where
  "um_handleRemoveTimeout e s w =
     do { let (key, u, reconnect) = s;
          (uo, w) \<leftarrow> um_getUser e key (w\<lparr>w_slots := removeAll s (w_slots w)\<rparr>);
          if uo \<noteq> Some u then Some w
          else do { w \<leftarrow> um_removeUser e u True w;
                    if reconnect then um_connectUser e (sw_parse (we_sw e) key) w else Some w } }"

text \<open>The timer calls the slots that were connected when it fired and still are.\<close>

fun um_tick_slots :: "'d wenv \<Rightarrow> (string \<times> nat \<times> bool) list \<Rightarrow> 'd world \<Rightarrow> 'd world option" where
  "um_tick_slots e [] w = Some w"
| "um_tick_slots e (s # ss) w =
     (if s \<in> set (w_slots w) then do { w \<leftarrow> um_handleRemoveTimeout e s w; um_tick_slots e ss w }
      else um_tick_slots e ss w)"

definition um_tick :: "'d wenv \<Rightarrow> 'd world \<Rightarrow> 'd world option" where
  "um_tick e w = um_tick_slots e (w_slots w) w"

subsection \<open>Messages\<close>

definition um_handleMessageReceived :: "'d wenv \<Rightarrow> message \<Rightarrow> 'd world \<Rightarrow> 'd world option" where
  "um_handleMessageReceived e m w =
     (if m_type m = MError then Some w
      else
       (let state = chatstate_payload (m_payloads m);
            w = (if state = None then w\<lparr>w_sentToBackend := w_sentToBackend w + 1\<rparr> else w)
        in if or_empty (m_body m) = [] \<and> state = None \<and> m_subject m = [] then Some w
           else do { (uo, w) \<leftarrow> um_getUser e (bare_str e (m_from m)) w;
                     case uo of
                       None \<Rightarrow> Some w
                     | Some u \<Rightarrow>
                         user_call e u (\<lambda>ue usr. let (cs, out) = convs_handleMessageReceived (cenv_of ue usr) m (u_convs usr)
                                                 in Some (usr\<lparr>u_convs := cs\<rparr>, out)) w }))"

subsection \<open>What clients do in server mode\<close>

fun client_signals :: "'d wenv \<Rightarrow> sout list \<Rightarrow> 'd world \<Rightarrow> 'd world option" where
  "client_signals e [] w = Some w"
| "client_signals e (SigConnect j # os) w = do { w \<leftarrow> um_connectUser e j w; client_signals e os w }"
| "client_signals e (SigDisconnect j # os) w = do { w \<leftarrow> um_disconnectUser e j w; client_signals e os w }"
| "client_signals e (SigPresence p # os) w = do { w \<leftarrow> presence_received e p w; client_signals e os w }"
| "client_signals e (SigMessage m # os) w = do { w \<leftarrow> um_handleMessageReceived e m w; client_signals e os w }"
| "client_signals e (x # os) w = client_signals e os (emit [SrvOut x] w)"

definition client_event :: "'d wenv \<Rightarrow> event \<Rightarrow> 'd world \<Rightarrow> 'd world option" where
  "client_event e ev w = do { (R, os) \<leftarrow> event_step (senv_of e) ev (w_srv w); client_signals e os (w\<lparr>w_srv := R\<rparr>) }"

end
