(* ===== verification/Disco.thy ===== *)
theory Disco
  imports World
begin

text \<open>
  Service discovery of the XMPP frontend: \<open>discoinforesponder.cpp\<close>, \<open>discoitemsresponder.cpp\<close>, the start of
  \<open>carbonresponder.cpp\<close> and the room list of \<open>XMPPUser.cpp\<close> (all in \<open>spectrum/src/frontends/xmpp\<close>). One record
  holds the members of the two responders. Room lists of users are kept by the address of the \<open>User\<close>
  object; a user without an entry has the empty list of the constructor.
\<close>

section \<open>State\<close>

text \<open>
  The options these responders read, with \<open>boost::algorithm::to_lower\<close> and the \<open>CapsInfoGenerator\<close> of
  Swiften. The options can change while the transport runs (\<open>onBackendConfigUpdated\<close>).
\<close>

record rconfig =
  rc_identity_name :: string
  rc_identity_category :: string
  rc_identity_type :: string
  rc_muc :: "bool option"
  rc_receipts :: "bool option"
  rc_max_room_list_size :: int
  rc_gateway_prompt :: string
  rc_gateway_label :: string
  rc_to_lower :: "string \<Rightarrow> string"
  rc_caps :: "discoinfo \<Rightarrow> string"

record disco =
  ds_transportFeatures :: "string list"
  ds_transportInfo :: discoinfo
  ds_buddyInfo :: discoinfo
  ds_capsInfo :: string
  ds_infoRooms :: "(string, string) smap"
  ds_infoCommands :: "(string, string) smap"
  ds_commands :: "discoitem list"
  ds_rooms :: "discoitem list"
  ds_userRooms :: "(nat, discoitem list) smap"

definition NS_COMMANDS :: string where "NS_COMMANDS = ''http://jabber.org/protocol/commands''"
definition NS_ITEMS :: string where "NS_ITEMS = ''http://jabber.org/protocol/disco#items''"
definition NS_INFO :: string where "NS_INFO = ''http://jabber.org/protocol/disco#info''"
definition NS_MUC :: string where "NS_MUC = ''http://jabber.org/protocol/muc''"
definition NS_CARBONS :: string where "NS_CARBONS = ''urn:xmpp:carbons:2''"

text \<open>\<open>Swift::DiscoInfo\<close>: an empty one, \<open>addIdentity\<close>, \<open>addFeature\<close> and \<open>setNode\<close>.\<close>

definition empty_info :: discoinfo where
  "empty_info = \<lparr>di_node = [], di_identities = [], di_features = []\<rparr>"

definition addIdentity :: "string \<Rightarrow> string \<Rightarrow> string \<Rightarrow> discoinfo \<Rightarrow> discoinfo" where
  "addIdentity name category type info = info\<lparr>di_identities := di_identities info @ [(name, category, type)]\<rparr>"

definition addFeature :: "string \<Rightarrow> discoinfo \<Rightarrow> discoinfo" where
  "addFeature f info = info\<lparr>di_features := di_features info @ [f]\<rparr>"

section \<open>Features\<close>

fun add_features :: "string list \<Rightarrow> discoinfo \<Rightarrow> discoinfo" where
  "add_features [] info = info"
| "add_features (f # fs) info = add_features fs (if f \<in> set (di_features info) then info else addFeature f info)"

definition setTransportFeatures :: "string list \<Rightarrow> disco \<Rightarrow> disco" where
  "setTransportFeatures fs d = d\<lparr>ds_transportInfo := add_features fs (ds_transportInfo d)\<rparr>"

definition setBuddyFeatures :: "rconfig \<Rightarrow> string list \<Rightarrow> disco \<Rightarrow> disco" where
  "setBuddyFeatures rc fs d =
     (let info = add_features fs (addIdentity (rc_identity_name rc) ''client'' ''pc'' empty_info)
      in d\<lparr>ds_buddyInfo := info, ds_capsInfo := rc_caps rc info\<rparr>)"

definition transport_features :: "rconfig \<Rightarrow> disco \<Rightarrow> string list" where
  "transport_features rc d =
     [''jabber:iq:register'', ''jabber:iq:gateway'', ''jabber:iq:private'', NS_ITEMS, NS_INFO, NS_COMMANDS]
     @ (if dflt (rc_muc rc) False then [NS_MUC] else []) @ ds_transportFeatures d"

definition buddy_features :: "rconfig \<Rightarrow> string list" where
  "buddy_features rc =
     [NS_ITEMS, NS_INFO, ''http://jabber.org/protocol/chatstates'', ''http://jabber.org/protocol/xhtml-im'']
     @ (if dflt (rc_receipts rc) False then [''urn:xmpp:receipts''] else [])"

definition updateFeatures :: "rconfig \<Rightarrow> disco \<Rightarrow> disco" where
  "updateFeatures rc d = setBuddyFeatures rc (buddy_features rc) (setTransportFeatures (transport_features rc d) d)"

definition addTransportFeature :: "rconfig \<Rightarrow> string \<Rightarrow> disco \<Rightarrow> disco" where
  "addTransportFeature rc f d =
     (if f \<in> set (ds_transportFeatures d) then d
      else updateFeatures rc (d\<lparr>ds_transportFeatures := ds_transportFeatures d @ [f]\<rparr>))"

definition removeTransportFeature :: "rconfig \<Rightarrow> string \<Rightarrow> disco \<Rightarrow> disco" where
  "removeTransportFeature rc f d =
     (if f \<notin> set (ds_transportFeatures d) then d
      else updateFeatures rc (d\<lparr>ds_transportFeatures := remove1 f (ds_transportFeatures d)\<rparr>))"

text \<open>The constructors of the two responders.\<close>

definition new_DiscoInfoResponder :: "rconfig \<Rightarrow> disco" where
  "new_DiscoInfoResponder rc =
     updateFeatures rc \<lparr>ds_transportFeatures = [],
       ds_transportInfo = addIdentity (rc_identity_name rc) (rc_identity_category rc) (rc_identity_type rc) empty_info,
       ds_buddyInfo = empty_info, ds_capsInfo = [], ds_infoRooms = [], ds_infoCommands = [], ds_commands = [],
       ds_rooms = [], ds_userRooms = []\<rparr>"

text \<open>\<open>CarbonResponder::setDiscoInfoResponder\<close>, called when the user manager has been created.\<close>

definition setDiscoInfoResponder :: "rconfig \<Rightarrow> disco \<Rightarrow> disco" where
  "setDiscoInfoResponder rc = addTransportFeature rc NS_CARBONS"

section \<open>Rooms and commands\<close>

definition info_addRoom :: "rconfig \<Rightarrow> string \<Rightarrow> string \<Rightarrow> disco \<Rightarrow> disco" where
  "info_addRoom rc j name d = d\<lparr>ds_infoRooms := smap_put (rc_to_lower rc j) name (ds_infoRooms d)\<rparr>"

definition info_clearRooms :: "disco \<Rightarrow> disco" where
  "info_clearRooms d = d\<lparr>ds_infoRooms := []\<rparr>"

text \<open>The name of the command is not used.\<close>

definition info_addAdHocCommand :: "string \<Rightarrow> string \<Rightarrow> disco \<Rightarrow> disco" where
  "info_addAdHocCommand node name d = d\<lparr>ds_infoCommands := smap_put node node (ds_infoCommands d)\<rparr>"

definition items_addAdHocCommand :: "settings \<Rightarrow> string \<Rightarrow> string \<Rightarrow> disco \<Rightarrow> disco" where
  "items_addAdHocCommand cf node name d =
     info_addAdHocCommand node name
       (d\<lparr>ds_commands := ds_commands d @ [\<lparr>it_name = name, it_jid = cf_jid cf, it_node = node\<rparr>]\<rparr>)"

definition items_addRoom :: "swiften \<Rightarrow> rconfig \<Rightarrow> string \<Rightarrow> string \<Rightarrow> disco \<Rightarrow> disco" where
  "items_addRoom sw rc node name d =
     (if int (length (ds_rooms d)) > rc_max_room_list_size rc then d
      else info_addRoom rc node name
             (d\<lparr>ds_rooms := ds_rooms d @ [\<lparr>it_name = name, it_jid = sw_parse sw node, it_node = []\<rparr>]\<rparr>))"

definition items_clearRooms :: "disco \<Rightarrow> disco" where
  "items_clearRooms d = info_clearRooms (d\<lparr>ds_rooms := []\<rparr>)"

text \<open>The room list of a user.\<close>

definition getRoomList :: "nat \<Rightarrow> disco \<Rightarrow> discoitem list" where
  "getRoomList u d = smap_get_or [] (ds_userRooms d) u"

definition user_clearRoomList :: "nat \<Rightarrow> disco \<Rightarrow> disco" where
  "user_clearRoomList u d = d\<lparr>ds_userRooms := smap_put u [] (ds_userRooms d)\<rparr>"

definition user_addRoomToRoomList :: "swiften \<Rightarrow> nat \<Rightarrow> string \<Rightarrow> string \<Rightarrow> disco \<Rightarrow> disco" where
  "user_addRoomToRoomList sw u handle name d =
     d\<lparr>ds_userRooms := smap_put u
        (getRoomList u d @ [\<lparr>it_name = name, it_jid = sw_parse sw handle, it_node = []\<rparr>]) (ds_userRooms d)\<rparr>"

section \<open>Requests\<close>

definition node_info :: "discoinfo \<Rightarrow> string \<Rightarrow> discoinfo" where
  "node_info info node = info\<lparr>di_node := node\<rparr>"

definition room_info :: "string \<Rightarrow> string \<Rightarrow> discoinfo" where
  "room_info name node = node_info (addFeature NS_MUC (addIdentity name ''conference'' ''text'' empty_info)) node"

definition adhoc_node_info :: "string \<Rightarrow> string \<Rightarrow> discoinfo" where
  "adhoc_node_info name node =
     node_info (addIdentity name ''automation'' ''command-node''
       (addFeature ''jabber:x:data'' (addFeature NS_COMMANDS empty_info))) node"

text \<open>
  \<open>DiscoInfoResponder::handleGetRequest\<close>: the answer for the transport itself, and the answer for a contact or
  a room given the list of rooms of the user who asks.
\<close>

definition transport_disco :: "jid \<Rightarrow> jid \<Rightarrow> string \<Rightarrow> string \<Rightarrow> disco \<Rightarrow> iqout" where
  "transport_disco from to i node d =
     (case smap_get (ds_infoCommands d) node of
        Some name \<Rightarrow> IqResult from (Some to) i (IqDiscoInfo (adhoc_node_info name node))
      | None \<Rightarrow>
          if node = NS_COMMANDS
          then IqResult from (Some to) i
                 (IqDiscoInfo (node_info (addIdentity ''Commands'' ''automation'' ''command-list'' empty_info) node))
          else if node \<noteq> [] then IqError from i ItemNotFound
          else IqResult from None i (IqDiscoInfo (node_info (ds_transportInfo d) node)))"

definition contact_disco :: "swiften \<Rightarrow> jid \<Rightarrow> jid \<Rightarrow> string \<Rightarrow> string \<Rightarrow> nat option \<Rightarrow> disco \<Rightarrow> iqout" where
  "contact_disco sw from to i node uo d =
     (case find (\<lambda>it. sw_str sw (it_jid it) = sw_str sw (jid_bare to))
             (case uo of None \<Rightarrow> [] | Some u \<Rightarrow> getRoomList u d) of
        Some it \<Rightarrow> IqResult from (Some to) i (IqDiscoInfo (room_info (it_name it) node))
      | None \<Rightarrow> IqResult from (Some to) i (IqDiscoInfo (node_info (ds_buddyInfo d) node)))"

definition info_handleGetRequest :: "'d wenv \<Rightarrow> jid \<Rightarrow> jid \<Rightarrow> string \<Rightarrow> string \<Rightarrow> disco \<Rightarrow> 'd world \<Rightarrow> 'd world option" where
  "info_handleGetRequest e from to i node d w =
     (if jid_node to = [] then Some (emit [IqAnswer (transport_disco from to i node d)] w)
      else case smap_get (ds_infoRooms d) (bare_str e to) of
             Some name \<Rightarrow> Some (emit [IqAnswer (IqResult from (Some to) i (IqDiscoInfo (room_info name node)))] w)
           | None \<Rightarrow>
               do { (uo, w) \<leftarrow> um_getUser e (bare_str e from) w;
                    Some (emit [IqAnswer (contact_disco (we_sw e) from to i node uo d)] w) })"

text \<open>\<open>DiscoItemsResponder::handleGetRequest\<close>.\<close>

definition items_handleGetRequest :: "'d wenv \<Rightarrow> jid \<Rightarrow> jid \<Rightarrow> string \<Rightarrow> string \<Rightarrow> disco \<Rightarrow> 'd world \<Rightarrow> 'd world option" where
  "items_handleGetRequest e from to i node d w =
     (if node = NS_COMMANDS
      then Some (emit [IqAnswer (IqResult from None i (IqDiscoItems NS_COMMANDS (ds_commands d)))] w)
      else if jid_node to = [] \<and> node = []
      then do { (uo, w) \<leftarrow> um_getUser e (bare_str e from) w;
                Some (emit [IqAnswer (IqResult from None i
                  (IqDiscoItems [] (ds_rooms d @ (case uo of None \<Rightarrow> [] | Some u \<Rightarrow> getRoomList u d))))] w) }
      else Some (emit [IqAnswer (IqResult from None i (IqDiscoItems [] []))] w))"

section \<open>Calls of the network plugin server\<close>

text \<open>
  The room lists of \<open>NetworkPluginServer::handleRoomListPayload\<close>: the list of the user or, through
  \<open>XMPPFrontend::clearRoomList\<close> and \<open>addRoomToRoomList\<close>, the list of the transport.
\<close>

fun add_user_rooms :: "swiften \<Rightarrow> nat \<Rightarrow> (string \<times> string) list \<Rightarrow> disco \<Rightarrow> disco" where
  "add_user_rooms sw u [] d = d"
| "add_user_rooms sw u ((h, n) # rs) d = add_user_rooms sw u rs (user_addRoomToRoomList sw u h n d)"

fun add_rooms :: "swiften \<Rightarrow> rconfig \<Rightarrow> (string \<times> string) list \<Rightarrow> disco \<Rightarrow> disco" where
  "add_rooms sw rc [] d = d"
| "add_rooms sw rc ((h, n) # rs) d = add_rooms sw rc rs (items_addRoom sw rc h n d)"

definition room_list :: "swiften \<Rightarrow> rconfig \<Rightarrow> nat option \<Rightarrow> (string \<times> string) list \<Rightarrow> disco \<Rightarrow> disco" where
  "room_list sw rc uo items d =
     (case uo of
        Some u \<Rightarrow> add_user_rooms sw u items (user_clearRoomList u d)
      | None \<Rightarrow> add_rooms sw rc items (items_clearRooms d))"

section \<open>Features: facts\<close>

lemma add_features_set: "set (di_features (add_features fs info)) = set (di_features info) \<union> set fs"
  by (induction fs info rule: add_features.induct) (auto simp: addFeature_def)

lemma add_features_distinct: "distinct (di_features info) \<Longrightarrow> distinct (di_features (add_features fs info))"
  by (induction fs info rule: add_features.induct) (auto simp: addFeature_def)

lemma add_features_keeps [simp]:
  "di_identities (add_features fs info) = di_identities info" "di_node (add_features fs info) = di_node info"
  by (induction fs info rule: add_features.induct) (auto simp: addFeature_def)

lemma addIdentity_sel [simp]:
  "di_features (addIdentity n c t info) = di_features info" "di_node (addIdentity n c t info) = di_node info"
  "di_identities (addIdentity n c t info) = di_identities info @ [(n, c, t)]"
  by (simp_all add: addIdentity_def)

lemma updateFeatures_sel [simp]:
  "ds_transportFeatures (updateFeatures rc d) = ds_transportFeatures d"
  "ds_infoRooms (updateFeatures rc d) = ds_infoRooms d" "ds_infoCommands (updateFeatures rc d) = ds_infoCommands d"
  "ds_commands (updateFeatures rc d) = ds_commands d" "ds_rooms (updateFeatures rc d) = ds_rooms d"
  "ds_userRooms (updateFeatures rc d) = ds_userRooms d"
  "ds_transportInfo (updateFeatures rc d) = add_features (transport_features rc d) (ds_transportInfo d)"
  by (simp_all add: updateFeatures_def setBuddyFeatures_def setTransportFeatures_def Let_def)

lemma updateFeatures_buddy:
  "set (di_features (ds_buddyInfo (updateFeatures rc d))) = set (buddy_features rc)"
  "distinct (di_features (ds_buddyInfo (updateFeatures rc d)))"
  "ds_capsInfo (updateFeatures rc d) = rc_caps rc (ds_buddyInfo (updateFeatures rc d))"
  by (simp_all add: updateFeatures_def setBuddyFeatures_def Let_def add_features_set add_features_distinct empty_info_def)

section \<open>What the responders do, as events\<close>

datatype devent =
    ConfigUpdated rconfig
  | AddFeature string
  | RemoveFeature string
  | AddCommand string string
  | RoomList "nat option" "(string \<times> string) list"

fun dstep :: "'d wenv \<Rightarrow> devent \<Rightarrow> rconfig \<times> disco \<Rightarrow> rconfig \<times> disco" where
  "dstep e (ConfigUpdated rc) (_, d) = (rc, updateFeatures rc d)"
| "dstep e (AddFeature f) (rc, d) = (rc, addTransportFeature rc f d)"
| "dstep e (RemoveFeature f) (rc, d) = (rc, removeTransportFeature rc f d)"
| "dstep e (AddCommand node name) (rc, d) = (rc, items_addAdHocCommand (we_cf e) node name d)"
| "dstep e (RoomList uo items) (rc, d) = (rc, room_list (we_sw e) rc uo items d)"

definition drun :: "'d wenv \<Rightarrow> devent list \<Rightarrow> rconfig \<times> disco \<Rightarrow> rconfig \<times> disco" where
  "drun e evs s = fold (dstep e) evs s"

text \<open>
  What holds after every event: the transport advertises each feature once and all that are
  configured or were added, contacts advertise exactly the configured ones under their current
  capabilities, and every listed command has an entry for \<open>disco#info\<close>.
\<close>

definition disco_ok :: "rconfig \<times> disco \<Rightarrow> bool" where
  "disco_ok s \<longleftrightarrow> (case s of (rc, d) \<Rightarrow>
     distinct (di_features (ds_transportInfo d))
     \<and> set (transport_features rc d) \<subseteq> set (di_features (ds_transportInfo d))
     \<and> distinct (di_features (ds_buddyInfo d)) \<and> set (di_features (ds_buddyInfo d)) = set (buddy_features rc)
     \<and> ds_capsInfo d = rc_caps rc (ds_buddyInfo d)
     \<and> smap_ok (ds_infoCommands d)
     \<and> set (map fst (ds_infoCommands d)) = it_node ` set (ds_commands d))"

lemma transport_features_cong:
  "ds_transportFeatures d = ds_transportFeatures d' \<Longrightarrow> transport_features rc d = transport_features rc d'"
  by (simp add: transport_features_def)

lemma updateFeatures_ok:
  assumes "distinct (di_features (ds_transportInfo d))" and "smap_ok (ds_infoCommands d)"
    and "set (map fst (ds_infoCommands d)) = it_node ` set (ds_commands d)"
  shows "disco_ok (rc, updateFeatures rc d)"
  using assms transport_features_cong [of "updateFeatures rc d" d rc]
  by (simp add: disco_ok_def updateFeatures_buddy add_features_set add_features_distinct)

text \<open>Operations on rooms touch nothing else.\<close>

definition same_but_rooms :: "disco \<Rightarrow> disco \<Rightarrow> bool" where
  "same_but_rooms d d' \<longleftrightarrow> d'\<lparr>ds_infoRooms := [], ds_rooms := [], ds_userRooms := []\<rparr>
     = d\<lparr>ds_infoRooms := [], ds_rooms := [], ds_userRooms := []\<rparr>"

lemma same_but_rooms_trans: "same_but_rooms a b \<Longrightarrow> same_but_rooms b c \<Longrightarrow> same_but_rooms a c"
  by (simp add: same_but_rooms_def)

lemma room_ops_same:
  "same_but_rooms d (items_addRoom sw rc h n d)" "same_but_rooms d (items_clearRooms d)"
  "same_but_rooms d (user_addRoomToRoomList sw u h n d)" "same_but_rooms d (user_clearRoomList u d)"
  by (simp_all add: same_but_rooms_def items_addRoom_def info_addRoom_def items_clearRooms_def info_clearRooms_def
      user_addRoomToRoomList_def user_clearRoomList_def)

lemma add_rooms_same: "same_but_rooms d (add_rooms sw rc items d)"
proof (induction sw rc items d rule: add_rooms.induct)
  case (2 sw rc h n rs d)
  then show ?case using same_but_rooms_trans room_ops_same(1) by fastforce
qed (simp add: same_but_rooms_def)

lemma add_user_rooms_same: "same_but_rooms d (add_user_rooms sw u items d)"
proof (induction sw u items d rule: add_user_rooms.induct)
  case (2 sw u h n rs d)
  then show ?case using same_but_rooms_trans room_ops_same(3) by fastforce
qed (simp add: same_but_rooms_def)

lemma room_list_same: "same_but_rooms d (room_list sw rc uo items d)"
  using same_but_rooms_trans [OF room_ops_same(2) add_rooms_same]
    same_but_rooms_trans [OF room_ops_same(4) add_user_rooms_same]
  by (simp add: room_list_def split: option.splits)

lemma same_but_rooms_sel:
  assumes "same_but_rooms d d'"
  shows "ds_transportFeatures d' = ds_transportFeatures d" "ds_transportInfo d' = ds_transportInfo d"
    "ds_buddyInfo d' = ds_buddyInfo d" "ds_capsInfo d' = ds_capsInfo d" "ds_infoCommands d' = ds_infoCommands d"
    "ds_commands d' = ds_commands d"
  using assms by (cases d, cases d', simp add: same_but_rooms_def)+

lemma disco_ok_rooms: "same_but_rooms d d' \<Longrightarrow> disco_ok (rc, d) \<Longrightarrow> disco_ok (rc, d')"
  using transport_features_cong [of d' d rc] by (simp add: disco_ok_def same_but_rooms_sel)

lemma dstep_ok: "disco_ok (rc, d) \<Longrightarrow> disco_ok (dstep e ev (rc, d))"
proof (cases ev)
  case (ConfigUpdated rc')
  then show "disco_ok (rc, d) \<Longrightarrow> ?thesis" using updateFeatures_ok [of d rc'] by (simp add: disco_ok_def)
next
  case (AddFeature f)
  then show "disco_ok (rc, d) \<Longrightarrow> ?thesis" by (simp add: addTransportFeature_def disco_ok_def [of "(rc, d)"] updateFeatures_ok)
next
  case (RemoveFeature f)
  then show "disco_ok (rc, d) \<Longrightarrow> ?thesis" by (simp add: removeTransportFeature_def disco_ok_def [of "(rc, d)"] updateFeatures_ok)
next
  case (AddCommand node name)
  then show "disco_ok (rc, d) \<Longrightarrow> ?thesis"
    by (auto simp: items_addAdHocCommand_def info_addAdHocCommand_def disco_ok_def transport_features_def smap_ok_put smap_keys_put)
next
  case (RoomList uo items)
  then show "disco_ok (rc, d) \<Longrightarrow> ?thesis" using disco_ok_rooms [OF room_list_same] by simp
qed

lemma drun_ok: "disco_ok s \<Longrightarrow> disco_ok (drun e evs s)"
proof (induction evs arbitrary: s)
  case (Cons ev evs)
  then show ?case using dstep_ok [of "fst s" "snd s" e ev] by (simp add: drun_def)
qed (simp add: drun_def)

lemma new_DiscoInfoResponder_ok: "disco_ok (rc, new_DiscoInfoResponder rc)"
  by (simp add: new_DiscoInfoResponder_def updateFeatures_ok empty_info_def smap_ok_Nil)

text \<open>An advertised feature of the transport is never taken back.\<close>

lemma dstep_keeps_features:
  "set (di_features (ds_transportInfo d)) \<subseteq> set (di_features (ds_transportInfo (snd (dstep e ev (rc, d)))))"
  by (cases ev) (auto simp: addTransportFeature_def removeTransportFeature_def items_addAdHocCommand_def
      info_addAdHocCommand_def add_features_set same_but_rooms_sel [OF room_list_same])

lemma drun_keeps_features:
  "set (di_features (ds_transportInfo (snd s))) \<subseteq> set (di_features (ds_transportInfo (snd (drun e evs s))))"
proof (induction evs arbitrary: s)
  case (Cons ev evs)
  have "drun e (ev # evs) s = drun e evs (dstep e ev s)" by (simp add: drun_def)
  then show ?case using Cons.IH [of "dstep e ev s"] dstep_keeps_features [of "snd s" e ev "fst s"] by auto
qed (simp add: drun_def)

section \<open>Room lists: facts\<close>

definition room_item :: "swiften \<Rightarrow> string \<times> string \<Rightarrow> discoitem" where
  "room_item sw r = \<lparr>it_name = snd r, it_jid = sw_parse sw (fst r), it_node = []\<rparr>"

lemma add_rooms_full: "int (length (ds_rooms d)) > rc_max_room_list_size rc \<Longrightarrow> add_rooms sw rc items d = d"
  by (induction sw rc items d rule: add_rooms.induct) (simp_all add: items_addRoom_def)

lemma add_rooms_rooms:
  "ds_rooms (add_rooms sw rc items d)
     = ds_rooms d @ map (room_item sw) (take (nat (rc_max_room_list_size rc + 1 - int (length (ds_rooms d)))) items)"
proof (induction sw rc items d rule: add_rooms.induct)
  case (2 sw rc h n rs d)
  show ?case
  proof (cases "int (length (ds_rooms d)) > rc_max_room_list_size rc")
    case True
    then show ?thesis using add_rooms_full [OF True, of sw "(h, n) # rs"] by simp
  next
    case False
    then have "nat (rc_max_room_list_size rc + 1 - int (length (ds_rooms d)))
        = Suc (nat (rc_max_room_list_size rc + 1 - int (length (ds_rooms (items_addRoom sw rc h n d)))))"
      by (simp add: items_addRoom_def info_addRoom_def)
    then show ?thesis using 2 False by (simp add: items_addRoom_def info_addRoom_def room_item_def)
  qed
qed simp

lemma add_rooms_info:
  "smap_get (ds_infoRooms (add_rooms sw rc items d)) = smap_get (ds_infoRooms d)
     ++ map_of (rev (map (\<lambda>(h, n). (rc_to_lower rc h, n))
          (take (nat (rc_max_room_list_size rc + 1 - int (length (ds_rooms d)))) items)))"
proof (induction sw rc items d rule: add_rooms.induct)
  case (2 sw rc h n rs d)
  show ?case
  proof (cases "int (length (ds_rooms d)) > rc_max_room_list_size rc")
    case True
    then show ?thesis using add_rooms_full [OF True, of sw "(h, n) # rs"] by simp
  next
    case False
    then have "nat (rc_max_room_list_size rc + 1 - int (length (ds_rooms d)))
        = Suc (nat (rc_max_room_list_size rc + 1 - int (length (ds_rooms (items_addRoom sw rc h n d)))))"
      by (simp add: items_addRoom_def info_addRoom_def)
    then show ?thesis using 2 False
      by (simp add: items_addRoom_def info_addRoom_def smap_get_put fun_eq_iff map_add_def
          split: option.splits)
  qed
qed simp

lemma add_user_rooms_list: "getRoomList u (add_user_rooms sw u items d) = getRoomList u d @ map (room_item sw) items"
proof (induction sw u items d rule: add_user_rooms.induct)
  case (2 sw u h n rs d)
  then show ?case
    by (simp add: user_addRoomToRoomList_def getRoomList_def smap_get_or_def smap_get_put room_item_def)
qed simp

text \<open>
  The first \<open>max + 1\<close> rooms of a list that a backend sends are what the transport shows; the list of a
  user is shown whole.
\<close>

lemma room_list_transport:
  "ds_rooms (room_list sw rc None items d) = map (room_item sw) (take (nat (rc_max_room_list_size rc + 1)) items)"
  "smap_get (ds_infoRooms (room_list sw rc None items d))
     = map_of (rev (map (\<lambda>(h, n). (rc_to_lower rc h, n)) (take (nat (rc_max_room_list_size rc + 1)) items)))"
  by (simp_all add: room_list_def add_rooms_rooms add_rooms_info items_clearRooms_def info_clearRooms_def fun_eq_iff
      map_add_def smap_get_Nil split: option.splits)

lemma room_list_user: "getRoomList u (room_list sw rc (Some u) items d) = map (room_item sw) items"
proof -
  have "getRoomList u (user_clearRoomList u d) = []"
    by (simp add: user_clearRoomList_def getRoomList_def smap_get_or_def smap_get_put)
  then show ?thesis by (simp add: room_list_def add_user_rooms_list)
qed

lemma room_list_other: "u \<noteq> v \<Longrightarrow> getRoomList u (room_list sw rc (Some v) items d) = getRoomList u d"
proof -
  have "u \<noteq> v \<Longrightarrow> getRoomList u (add_user_rooms sw v items d) = getRoomList u d" for d
    by (induction sw v items d rule: add_user_rooms.induct)
      (simp_all add: user_addRoomToRoomList_def getRoomList_def smap_get_or_def smap_get_put)
  then show "u \<noteq> v \<Longrightarrow> ?thesis"
    by (simp add: room_list_def user_clearRoomList_def getRoomList_def smap_get_or_def smap_get_put)
qed

end
