(* ===== verification/WorldInv.thy ===== *)
theory WorldInv
  imports World
begin

text \<open>
  What the user manager keeps true: every user is filed under his own address, is alive, and the
  cached user is one of them. From this the cached lookup is the lookup in the map.
\<close>

section \<open>Users keep their address\<close>

definition keeps_jid :: "jid \<Rightarrow> (user \<times> effect list) option \<Rightarrow> bool" where
  "keeps_jid j r \<longleftrightarrow> (\<forall>u out. r = Some (u, out) \<longrightarrow> u_jid u = j)"

lemma keeps_jid_simps [simp]: "keeps_jid j None" "keeps_jid j (Some ue) \<longleftrightarrow> u_jid (fst ue) = j"
  by (cases ue; auto simp: keeps_jid_def)+

lemma keeps_jid_map [simp]: "(\<And>x. fst (f x) = fst x) \<Longrightarrow> keeps_jid j (map_option f r) = keeps_jid j r"
  by (cases r) (simp_all del: split_paired_All)

lemma keeps_jid_D: "keeps_jid j r \<Longrightarrow> r = Some (u, out) \<Longrightarrow> u_jid u = j"
  by (simp add: keeps_jid_def)

lemma setCacheMessages_jid [simp]: "u_jid (fst (setCacheMessages e b u)) = u_jid u"
  by (simp add: setCacheMessages_def split_def Let_def)

lemma onConnectingTimeout_jid [simp]: "u_jid (fst (onConnectingTimeout e u)) = u_jid u"
  by (simp add: onConnectingTimeout_def)

lemma handleDiscoInfo_jid [simp]: "u_jid (fst (handleDiscoInfo e j fs u)) = u_jid u"
  by (simp add: handleDiscoInfo_def)

lemma sendCapabilitiesRequest_jid [simp]: "u_jid (fst (sendCapabilitiesRequest e j u)) = u_jid u"
  by (simp add: sendCapabilitiesRequest_def split_def Let_def split: option.splits)

lemma connect_step_jid [simp]: "u_jid (fst (connect_step e p u)) = u_jid u"
proof -
  obtain v out r where v: "sendCapabilitiesRequest e (pr_from p) u = (v, out, r)" by (metis prod_cases3)
  then have "u_jid v = u_jid u" using sendCapabilitiesRequest_jid [of e "pr_from p" u] by simp
  with v show ?thesis by (simp add: connect_step_def split: option.splits)
qed

lemma leaveRoom_jid [simp]: "keeps_jid (u_jid u) (leaveRoom e room u)"
  by (auto simp: leaveRoom_def Let_def keeps_jid_def split: option.splits)

lemma leave_rooms_jid [simp]: "keeps_jid (u_jid u) (leave_rooms e rooms u)"
proof (induction rooms arbitrary: u)
  case (Cons r rs)
  show ?case
  proof (cases "leaveRoom e r u")
    case (Some v)
    obtain u1 o1 where v: "v = (u1, o1)" by (cases v)
    then have "u_jid u1 = u_jid u" using leaveRoom_jid Some keeps_jid_D by blast
    then show ?thesis using Some v Cons [of u1] by (simp add: split_def)
  qed simp
qed simp

lemma leave_step_jid [simp]: "keeps_jid (u_jid u) (leave_step e p u)"
  using leaveRoom_jid [of "u\<lparr>u_convs := cs\<rparr>" e room for cs room]
  by (simp add: leave_step_def Let_def split_def split: option.splits)

lemma join_step_jid [simp]: "u_jid (fst (join_step e p b u)) = u_jid u"
  by (simp add: join_step_def Let_def split_def split: option.splits)

lemma network_step_jid [simp]: "u_jid (fst (network_step e u)) = u_jid u"
  using setCacheMessages_jid [of e True "u\<lparr>u_resources := 0, u_convs := clearJIDs (u_convs u)\<rparr>"] setCacheMessages_jid [of e False u]
  by (auto simp: network_step_def idle_step_def split_def Let_def split: option.splits)

lemma resource_step_jid [simp]: "keeps_jid (u_jid u) (resource_step e p u)"
proof -
  have "u_jid v = u_jid u" if "leave_rooms e rooms (u\<lparr>u_convs := cs\<rparr>) = Some (v, out)" for rooms cs v out
    using keeps_jid_D [OF leave_rooms_jid that] by simp
  then show ?thesis
    by (auto simp: resource_step_def Let_def split_def split: option.splits if_splits)
qed

lemma handlePresence_jid [simp]: "keeps_jid (u_jid u) (handlePresence e p b u)"
  using leave_step_jid [of "fst (connect_step e p u)" e p] resource_step_jid [of "fst (connect_step e p u)" e p]
    join_step_jid [of e p b "fst (connect_step e p u)"]
  by (simp add: handlePresence_def Let_def split_def)

section \<open>Steps that leave the user manager alone\<close>

definition jids :: "'d world \<Rightarrow> nat \<Rightarrow> jid option" where
  "jids w u = map_option u_jid (smap_get (w_heap w) u)"

definition same_users :: "'d world \<Rightarrow> 'd world \<Rightarrow> bool" where
  "same_users w w' \<longleftrightarrow> w_users w' = w_users w \<and> w_cached w' = w_cached w \<and> w_next w' = w_next w \<and> jids w' = jids w
     \<and> (smap_ok (w_heap w) \<longrightarrow> smap_ok (w_heap w'))"

lemma same_users_refl [simp]: "same_users w w"
  by (simp add: same_users_def)

lemma same_users_trans [trans]: "same_users w w1 \<Longrightarrow> same_users w1 w2 \<Longrightarrow> same_users w w2"
  by (simp add: same_users_def)

lemma jids_upd [simp]:
  "jids (w\<lparr>w_users := x1\<rparr>) = jids w" "jids (w\<lparr>w_cached := x2\<rparr>) = jids w" "jids (w\<lparr>w_slots := x3\<rparr>) = jids w"
  "jids (w\<lparr>w_pool := x4\<rparr>) = jids w" "jids (w\<lparr>w_srv := x5\<rparr>) = jids w" "jids (w\<lparr>w_db := x6\<rparr>) = jids w"
  "jids (w\<lparr>w_out := x7\<rparr>) = jids w" "jids (w\<lparr>w_orc := x8\<rparr>) = jids w" "jids (w\<lparr>w_next := x9\<rparr>) = jids w"
  "jids (w\<lparr>w_sentToBackend := x10\<rparr>) = jids w" "jids (w\<lparr>w_sentToXMPP := x11\<rparr>) = jids w"
  by (simp_all add: jids_def fun_eq_iff)

lemma jids_heap [simp]: "jids (w\<lparr>w_heap := smap_put u usr (w_heap w)\<rparr>) = (jids w)(u \<mapsto> u_jid usr)"
  "jids (w\<lparr>w_heap := smap_del u (w_heap w)\<rparr>) = (jids w)(u := None)"
  by (simp_all add: jids_def fun_eq_iff smap_get_put smap_get_del)

lemma same_users_emit [simp]: "same_users w (emit os w)"
  by (simp add: same_users_def emit_def)

lemma same_users_db_call [simp]: "same_users w (db_call e f w)"
  by (simp add: same_users_def db_call_def split: option.splits)

lemma pool_call_same: "pool_call f w = Some w' \<Longrightarrow> same_users w w'"
  by (auto simp: pool_call_def same_users_def emit_def)

lemma slot_same: "slot u f w = Some w' \<Longrightarrow> same_users w w'"
  by (auto simp: slot_def pool_send_def pool_call_same split: if_splits)

lemma deliver_same: "deliver e u ef w = Some w' \<Longrightarrow> same_users w w'"
  by (cases ef) (auto simp: pool_send_def dest: slot_same pool_call_same)

lemma deliver_all_same: "deliver_all e u efs w = Some w' \<Longrightarrow> same_users w w'"
  using da.run_inv [where P = "same_users w"] deliver_same same_users_trans same_users_refl by blast

lemma settle_jid [simp]: "u_jid (settle e out u) = u_jid u"
  by (simp add: settle_def)

lemma user_call_same:
  assumes "user_call e u f w = Some w'" and "\<And>ue usr. keeps_jid (u_jid usr) (f ue usr)"
  shows "same_users w w'"
proof -
  obtain usr usr' efs where usr: "smap_get (w_heap w) u = Some usr" "f (uenv_of e w) usr = Some (usr', efs)"
    and del: "deliver_all e u efs (w\<lparr>w_heap := smap_put u (settle (uenv_of e w) efs usr') (w_heap w)\<rparr>) = Some w'"
    using assms(1) by (auto simp: user_call_def bind_eq_Some_conv)
  have "u_jid usr' = u_jid usr" using keeps_jid_D [OF assms(2) usr(2)] .
  then have "same_users w (w\<lparr>w_heap := smap_put u (settle (uenv_of e w) efs usr') (w_heap w)\<rparr>)"
    using usr(1) by (auto simp: same_users_def jids_def fun_eq_iff smap_get_put smap_ok_put)
  then show ?thesis using deliver_all_same [OF del] by (rule same_users_trans)
qed

section \<open>Invariant\<close>

definition um_ok :: "'d wenv \<Rightarrow> 'd world \<Rightarrow> bool" where
  "um_ok e w \<longleftrightarrow> smap_ok (w_users w) \<and> smap_ok (w_heap w)
     \<and> (\<forall>(k, u) \<in> set (w_users w). case smap_get (w_heap w) u of None \<Rightarrow> False | Some usr \<Rightarrow> bare_str e (u_jid usr) = k)
     \<and> (case w_cached w of None \<Rightarrow> True | Some c \<Rightarrow> c \<in> snd ` set (w_users w))
     \<and> (\<forall>(u, usr) \<in> set (w_heap w). u < w_next w \<and> jid_isBare (u_jid usr))"

lemma um_ok_iff: "um_ok e w \<longleftrightarrow> smap_ok (w_users w) \<and> smap_ok (w_heap w)
  \<and> (\<forall>k u. smap_get (w_users w) k = Some u \<longrightarrow> (\<exists>j. jids w u = Some j \<and> bare_str e j = k))
  \<and> (\<forall>c. w_cached w = Some c \<longrightarrow> (\<exists>k. smap_get (w_users w) k = Some c))
  \<and> (\<forall>u j. jids w u = Some j \<longrightarrow> u < w_next w \<and> jid_isBare j)"
proof (cases "smap_ok (w_users w) \<and> smap_ok (w_heap w)")
  case True
  then have "(\<forall>(k, u) \<in> set (w_users w). case smap_get (w_heap w) u of None \<Rightarrow> False | Some usr \<Rightarrow> bare_str e (u_jid usr) = k)
      \<longleftrightarrow> (\<forall>k u. smap_get (w_users w) k = Some u \<longrightarrow> (\<exists>j. jids w u = Some j \<and> bare_str e j = k))"
    by (fastforce simp: jids_def smap_get_iff [of "w_users w"] split: option.splits)
  moreover have "(case w_cached w of None \<Rightarrow> True | Some c \<Rightarrow> c \<in> snd ` set (w_users w))
      \<longleftrightarrow> (\<forall>c. w_cached w = Some c \<longrightarrow> (\<exists>k. smap_get (w_users w) k = Some c))"
    using True by (cases "w_cached w") (force simp: smap_get_iff)+
  moreover have "(\<forall>(u, usr) \<in> set (w_heap w). u < w_next w \<and> jid_isBare (u_jid usr))
      \<longleftrightarrow> (\<forall>u j. jids w u = Some j \<longrightarrow> u < w_next w \<and> jid_isBare j)"
    using True by (fastforce simp: jids_def smap_get_iff)
  ultimately show ?thesis using True by (simp add: um_ok_def)
qed (auto simp: um_ok_def)

lemma um_ok_same: "um_ok e w \<Longrightarrow> same_users w w' \<Longrightarrow> um_ok e w'"
  by (simp add: um_ok_iff same_users_def)

text \<open>The cached lookup.\<close>

lemma getUser_ok:
  assumes "um_ok e w"
  obtains w' where "um_getUser e key w = Some (smap_get (w_users w) key, w')" and "um_ok e w'"
    and "w_users w' = w_users w" and "jids w' = jids w" and "w_next w' = w_next w"
proof -
  have look: "\<exists>w'. um_lookup e key w = Some (smap_get (w_users w) key, w') \<and> um_ok e w' \<and> w_users w' = w_users w \<and> jids w' = jids w \<and> w_next w' = w_next w"
  proof (cases "smap_get (w_users w) key")
    case (Some u)
    then obtain usr where usr: "smap_get (w_heap w) u = Some usr" using assms by (force simp: um_ok_iff jids_def)
    have "u_jid usr' = u_jid usr \<Longrightarrow> um_ok e (w\<lparr>w_heap := smap_put u usr' (w_heap w), w_cached := Some u\<rparr>)
        \<and> jids (w\<lparr>w_heap := smap_put u usr' (w_heap w), w_cached := Some u\<rparr>) = jids w" for usr'
      using assms usr Some same_users_def [of w "w\<lparr>w_heap := smap_put u usr' (w_heap w)\<rparr>"]
        um_ok_same [OF assms, of "w\<lparr>w_heap := smap_put u usr' (w_heap w)\<rparr>"]
      by (auto simp: jids_def smap_get_put smap_ok_put fun_eq_iff) (auto simp: um_ok_iff jids_def)
    then show ?thesis using Some usr by (auto simp: um_lookup_def Let_def split: option.splits)
  qed (simp add: um_lookup_def assms)
  show ?thesis
  proof (cases "w_cached w")
    case None
    with look show ?thesis using that by (auto simp: um_getUser_def)
  next
    case (Some c)
    then obtain k usr where k: "smap_get (w_users w) k = Some c" "smap_get (w_heap w) c = Some usr" "bare_str e (u_jid usr) = k"
      using assms by (fastforce simp: um_ok_iff jids_def)
    show ?thesis
    proof (cases "key = k")
      case True
      then show ?thesis using that [of w] Some k assms by (simp add: um_getUser_def)
    next
      case False
      then have "um_getUser e key w = um_lookup e key w" using Some k by (simp add: um_getUser_def)
      then show ?thesis using look that by auto
    qed
  qed
qed

text \<open>
  Moreover every live user is in the map, except those of a set \<open>G\<close> that have been taken out of it
  and are about to be deleted; nobody puts them back.
\<close>

definition um_inv :: "nat set \<Rightarrow> 'd wenv \<Rightarrow> 'd world \<Rightarrow> bool" where
  "um_inv G e w \<longleftrightarrow> um_ok e w \<and> (\<forall>k u. smap_get (w_users w) k = Some u \<longrightarrow> u \<notin> G) \<and> (\<forall>u \<in> G. u < w_next w)
     \<and> (\<forall>u j. jids w u = Some j \<longrightarrow> u \<in> G \<or> smap_get (w_users w) (bare_str e j) = Some u)"

lemma um_inv_same: "um_inv G e w \<Longrightarrow> same_users w w' \<Longrightarrow> um_inv G e w'"
  using um_ok_same [of e w w'] by (simp add: um_inv_def same_users_def)

lemma getUser_inv:
  assumes "um_inv G e w"
  obtains w' where "um_getUser e key w = Some (smap_get (w_users w) key, w')" and "um_inv G e w'"
    and "w_users w' = w_users w" and "jids w' = jids w"
proof -
  have "um_ok e w" using assms by (simp add: um_inv_def)
  then obtain w' where w': "um_getUser e key w = Some (smap_get (w_users w) key, w')" "um_ok e w'" "w_users w' = w_users w"
    "jids w' = jids w" "w_next w' = w_next w" by (rule getUser_ok)
  then show ?thesis using that assms by (simp add: um_inv_def)
qed

text \<open>
  The interface the callers of \<open>getUser\<close> rely on: in a good world the lookup returns, answers what
  the map of users says, and leaves the world good and the map as it was.
\<close>

locale user_lookup =
  fixes good :: "'w \<Rightarrow> bool" and users :: "'w \<Rightarrow> string \<Rightarrow> nat option"
    and get :: "string \<Rightarrow> 'w \<Rightarrow> (nat option \<times> 'w) option"
  assumes lookup: "good w \<Longrightarrow> \<exists>w'. get key w = Some (users w key, w') \<and> good w' \<and> users w' = users w"
begin

lemma lookup_answer: "good w \<Longrightarrow> get key w = Some (uo, w') \<Longrightarrow> uo = users w key \<and> good w' \<and> users w' = users w"
  using lookup [of w key] by auto

lemma lookup_again:
  assumes "good w" and "get key w = Some (uo, w1)"
  shows "\<exists>w2. get key w1 = Some (uo, w2)"
  using lookup [of w1 key] lookup_answer [OF assms] by auto

lemma lookup_then:
  assumes "good w" and "Option.bind (get key w) (\<lambda>(uo, w). f uo w) = Some w'"
    and "\<And>w1. good w1 \<Longrightarrow> users w1 = users w \<Longrightarrow> f (users w key) w1 = Some w' \<Longrightarrow> good w'"
  shows "good w'"
  using lookup [OF assms(1), of key] assms(2,3) by auto

end

interpretation ul: user_lookup "um_inv G e" "\<lambda>w. smap_get (w_users w)" "um_getUser e" for G e
  by unfold_locales (metis getUser_inv)

text \<open>The operations below leave a good world good, if they return.\<close>

definition um_keeps :: "nat set \<Rightarrow> 'd wenv \<Rightarrow> ('d world \<Rightarrow> 'd world option) \<Rightarrow> bool" where
  "um_keeps G e f \<longleftrightarrow> (\<forall>w w'. um_inv G e w \<longrightarrow> f w = Some w' \<longrightarrow> um_inv G e w')"

lemma um_keepsD: "um_keeps G e f \<Longrightarrow> um_inv G e w \<Longrightarrow> f w = Some w' \<Longrightarrow> um_inv G e w'"
  by (simp add: um_keeps_def)

lemma um_keepsI: "(\<And>w w'. um_inv G e w \<Longrightarrow> f w = Some w' \<Longrightarrow> um_inv G e w') \<Longrightarrow> um_keeps G e f"
  by (simp add: um_keeps_def)

lemma um_keeps_user_call: "(\<And>ue usr. keeps_jid (u_jid usr) (f ue usr)) \<Longrightarrow> um_keeps G e (user_call e u f)"
  using user_call_same um_inv_same by (blast intro: um_keepsI)

section \<open>Every operation keeps it\<close>

named_theorems keeps_intros "operations that keep the invariant of the user manager"

lemma um_keeps_Some [keeps_intros]: "(\<And>w. same_users w (f w)) \<Longrightarrow> um_keeps G e (\<lambda>w. Some (f w))"
  using um_inv_same by (blast intro: um_keepsI)

lemma um_keeps_id [keeps_intros]: "um_keeps G e Some"
  by (simp add: um_keeps_def)

lemma um_keeps_if [keeps_intros]: "um_keeps G e f \<Longrightarrow> um_keeps G e g \<Longrightarrow> um_keeps G e (\<lambda>w. if b w then f w else g w)"
  by (rule um_keepsI) (auto split: if_splits dest: um_keepsD)

lemma um_keeps_bind [keeps_intros]: "um_keeps G e f \<Longrightarrow> um_keeps G e g \<Longrightarrow> um_keeps G e (\<lambda>w. Option.bind (f w) g)"
  by (rule um_keepsI) (auto simp: bind_eq_Some_conv dest: um_keepsD)

lemma um_keeps_getUser [keeps_intros]:
  assumes "um_keeps G e (g None)" and "\<And>u. um_keeps G e (g (Some u))"
  shows "um_keeps G e (\<lambda>w. Option.bind (um_getUser e key w) (\<lambda>(uo, w). g uo w))"
proof (rule um_keepsI)
  fix w w' assume ok: "um_inv G e w" and r: "Option.bind (um_getUser e key w) (\<lambda>(uo, w). g uo w) = Some w'"
  show "um_inv G e w'"
    by (rule ul.lookup_then [OF ok r]) (cases "smap_get (w_users w) key"; auto dest: um_keepsD [OF assms(1)] um_keepsD [OF assms(2)])
qed

lemmas keeps_user_call [keeps_intros] = um_keeps_user_call

lemma deliver_keeps [keeps_intros]: "um_keeps G e (deliver e u ef)"
  by (rule um_keepsI) (rule um_inv_same [OF _ deliver_same])

lemma um_keeps_def_of: "(\<And>w. f w = g w) \<Longrightarrow> um_keeps G e g \<Longrightarrow> um_keeps G e f"
  by (simp add: um_keeps_def)

lemma um_handleDiscoInfo_keeps [keeps_intros]: "um_keeps G e (um_handleDiscoInfo e j info)"
  by (rule um_keeps_def_of [OF um_handleDiscoInfo_def]) (simp add: keeps_intros)

lemma store_user_same: "store_user e key info w = (b, i, w') \<Longrightarrow> same_users w w'"
  by (auto simp: store_user_def Let_def same_users_def split: option.splits)

lemma register_same:
  "register_server e p key ri w = (b, i, w') \<Longrightarrow> same_users w w'"
  "register_gateway e p key ri w = (b, i, w') \<Longrightarrow> same_users w w'"
  by (auto simp: register_server_def register_gateway_def Let_def split: if_splits prod.splits dest: store_user_same)

lemma transport_enabled_same: "transport_enabled e info w = (b, w') \<Longrightarrow> same_users w w'"
  by (auto simp: transport_enabled_def Let_def same_users_def split: option.splits prod.splits)

lemma not_vip_same [simp]: "same_users w (not_vip e p w)"
  by (simp add: not_vip_def)

lemma answer_unavailable_same [simp]: "same_users w (answer_unavailable e p key w)"
  unfolding answer_unavailable_def by (rule same_users_trans [OF same_users_emit same_users_db_call])

lemma same_users_get: "same_users w w' \<Longrightarrow> w_users w' = w_users w"
  by (simp add: same_users_def)

lemma create_user_keeps:
  assumes "um_inv G e w" and "smap_get (w_users w) (bare_str e j) = None" and "create_user e j info w = Some w'"
  shows "um_inv G e w'"
proof -
  have ok: "um_ok e w" using assms(1) by (simp add: um_inv_def)
  define usr where "usr = (let usr = new_User (uenv_of e w) j info in usr\<lparr>u_roster := setStorageBackend (renv_of (uenv_of e w) usr)
      (map_option (\<lambda>st. st_getBuddies st (w_db w) (ui_id info)) (we_store e)) (u_roster usr)\<rparr>)"
  define w1 where "w1 = w\<lparr>w_next := Suc (w_next w), w_heap := smap_put (w_next w) usr (w_heap w),
      w_users := smap_put (bare_str e j) (w_next w) (w_users w)\<rparr>"
  have j: "u_jid usr = jid_bare j" "bare_str e (jid_bare j) = bare_str e j"
    by (simp_all add: usr_def new_User_def Let_def bare_str_def)
  have "create_user e j info w = deliver e (w_next w) OnUserCreated (db_call e (\<lambda>st. st_setUserOnline st (ui_id (u_info usr)) True) w1)"
    by (simp add: create_user_def um_addUser_def Let_def usr_def w1_def new_User_def bare_str_def)
  then have "same_users w1 w'"
    by (intro same_users_trans [OF same_users_db_call deliver_same]) (simp only: assms(3))
  moreover have "um_ok e w1"
  proof -
    note A = ok [unfolded um_ok_iff]
    have fresh: "jids w (w_next w) = None" using A by (metis less_irrefl not_None_eq)
    have ids: "jids w1 = (jids w)(w_next w \<mapsto> jid_bare j)" using j by (simp add: w1_def jids_def fun_eq_iff smap_get_put)
    have get: "smap_get (w_users w1) = (smap_get (w_users w))(bare_str e j \<mapsto> w_next w)" by (simp add: w1_def smap_get_put)
    show ?thesis unfolding um_ok_iff
    proof (intro conjI allI impI)
      show "smap_ok (w_users w1)" "smap_ok (w_heap w1)" using A by (simp_all add: w1_def smap_ok_put)
    next
      fix k u assume "smap_get (w_users w1) k = Some u"
      then show "\<exists>i. jids w1 u = Some i \<and> bare_str e i = k"
        using A fresh j by (cases "k = bare_str e j") (auto simp: get ids, fastforce)
    next
      fix c assume "w_cached w1 = Some c"
      then obtain k where k: "smap_get (w_users w) k = Some c" using A by (auto simp: w1_def)
      then have "k \<noteq> bare_str e j" using assms(2) by auto
      with k show "\<exists>k. smap_get (w_users w1) k = Some c" by (auto simp: get)
    next
      fix u i assume "jids w1 u = Some i"
      moreover have "w_next w1 = Suc (w_next w)" by (simp add: w1_def)
      ultimately show "u < w_next w1" "jid_isBare i" using A by (auto simp: ids less_Suc_eq split: if_splits)
    qed
  qed
  moreover have "smap_get (w_users w1) k = Some u \<Longrightarrow> u \<notin> G" "u \<in> G \<Longrightarrow> u < w_next w1" for k u
    using assms(1) by (auto simp: um_inv_def w1_def smap_get_put less_Suc_eq split: if_splits)
  moreover have "u \<in> G \<or> smap_get (w_users w1) (bare_str e i) = Some u" if "jids w1 u = Some i" for u i
  proof (cases "u = w_next w")
    case True
    then show ?thesis using that j by (simp add: w1_def jids_def smap_get_put)
  next
    case False
    then have "jids w u = Some i" using that by (simp add: w1_def jids_def smap_get_put)
    then have "u \<in> G \<or> smap_get (w_users w) (bare_str e i) = Some u" using assms(1) by (auto simp: um_inv_def)
    then show ?thesis using assms(2) by (auto simp: w1_def smap_get_put)
  qed
  ultimately have "um_inv G e w1" "same_users w1 w'" by (auto simp: um_inv_def)
  then show ?thesis by (rule um_inv_same)
qed

text \<open>\<open>refuse\<close> is any operation that keeps the invariant.\<close>

lemma unknown_user_keeps:
  assumes "\<And>j error. um_keeps G e (refuse j error)" and "um_inv G e w" and "smap_get (w_users w) (bare_str e (pr_from p)) = None"
    and "unknown_user refuse e p (bare_str e (pr_from p)) w = Some (go, w')"
  shows "um_inv G e w'"
proof -
  have refuse: "um_inv G e w2" if "um_inv G e w1" "refuse j error w1 = Some w2" for j error w1 w2
    using assms(1) that um_keepsD by blast
  have create: "um_inv G e w2" if "same_users w w1" "create_user e (pr_from p) info w1 = Some w2" for info w1 w2
    using create_user_keeps [OF um_inv_same [OF assms(2) that(1)] _ that(2)] assms(3) that(1) by (simp add: same_users_get)
  note same = um_inv_same [OF assms(2)]
  have vip: "um_inv G e (not_vip e p w1)" if "same_users w w1" for w1
    using same [OF same_users_trans [OF that not_vip_same]] .
  have refuse_vip: "um_inv G e w2" if "same_users w w1" "refuse j error (not_vip e p w1) = Some w2" for j error w1 w2
    using refuse [OF vip [OF that(1)] that(2)] .
  note regs = register_same transport_enabled_same
  show ?thesis
    using assms(4)
    by (auto simp: unknown_user_def Let_def split: if_splits prod.splits
        dest!: regs intro: same refuse [OF assms(2)] vip refuse_vip create same_users_trans)
qed

lemma known_user_keeps:
  assumes "\<And>j error. um_keeps G e (refuse j error)"
  shows "um_keeps G e (known_user refuse e p key)"
proof -
  have slots: "same_users w (w\<lparr>w_slots := x\<rparr>)" for w :: "'a world" and x by (simp add: same_users_def)
  have rest: "um_keeps G e (\<lambda>w. Option.bind (smap_get (w_heap w) u) (\<lambda>usr.
      if c usr then Some w
      else case getHighestPriorityPresence (we_sw e) (w_orc w) (jid_bare (pr_from p)) of
             Some h \<Rightarrow> if pr_type h = Unavailable then Some (w\<lparr>w_slots := w_slots w @ [(bare_str e (u_jid usr), u, False)]\<rparr>) else Some w
           | None \<Rightarrow> Some (w\<lparr>w_slots := w_slots w @ [(bare_str e (u_jid usr), u, False)]\<rparr>)))" for u c
    by (rule um_keepsI) (auto simp: bind_eq_Some_conv split: if_splits option.splits intro: um_inv_same [OF _ slots])
  show ?thesis
    by (rule um_keeps_def_of [OF known_user_def], rule um_keeps_getUser)
      (auto intro!: um_keeps_bind um_keeps_user_call rest assms)
qed

lemma handlePresence_with_keeps:
  assumes "\<And>j error. um_keeps G e (refuse j error)"
  shows "um_keeps G e (um_handlePresence_with refuse e p)"
proof (rule um_keepsI)
  fix w w' assume ok: "um_inv G e w" and r: "um_handlePresence_with refuse e p w = Some w'"
  let ?key = "bare_str e (pr_from p)"
  obtain w1 where w1: "um_getUser e ?key w = Some (smap_get (w_users w) ?key, w1)" "um_inv G e w1" "w_users w1 = w_users w"
    using getUser_inv [OF ok] by metis
  have known: "um_inv G e w2" if "um_inv G e w1" "known_user refuse e p key w1 = Some w2" for key w1 w2
    using um_keepsD [OF known_user_keeps] assms that by blast
  show "um_inv G e w'"
  proof (cases "smap_get (w_users w) ?key")
    case None
    then obtain go w2 where u: "unknown_user refuse e p ?key w1 = Some (go, w2)"
      and k: "(if go then known_user refuse e p ?key w2 else Some w2) = Some w'"
      using r w1 by (auto simp: um_handlePresence_with_def Let_def bind_eq_Some_conv)
    have "um_inv G e w2" by (rule unknown_user_keeps [OF assms w1(2) _ u]) (simp add: None w1(3))
    then show ?thesis using known k by (auto split: if_splits)
  next
    case (Some u)
    then show ?thesis using r w1 known by (auto simp: um_handlePresence_with_def)
  qed
qed

lemma um_keeps_case_option: "um_keeps G e f \<Longrightarrow> (\<And>x. um_keeps G e (g x)) \<Longrightarrow> um_keeps G e (\<lambda>w. case x of None \<Rightarrow> f w | Some y \<Rightarrow> g y w)"
  by (cases x) auto

lemma handleMUCPresence_keeps:
  assumes "\<And>j error. um_keeps G e (refuse j error)"
  shows "um_keeps G e (um_handleMUCPresence refuse e p)"
proof -
  have "um_keeps G e (\<lambda>w. Option.bind (um_getUser e (bare_str e (pr_from p)) w)
      (\<lambda>(uo, w). case uo of None \<Rightarrow> Some w | Some u \<Rightarrow> user_call e u (\<lambda>ue. handlePresence ue p False) w))"
    by (rule um_keeps_getUser) (auto intro: um_keeps_id um_keeps_user_call)
  then show ?thesis
    by (intro um_keeps_def_of [OF um_handleMUCPresence_def] um_keeps_if um_keeps_id handlePresence_with_keeps assms)
qed

lemma handleProbePresence_keeps: "um_keeps G e (um_handleProbePresence e p)"
proof -
  have "um_keeps G e (\<lambda>w. Option.bind (um_getUser e (bare_str e (pr_from p)) w)
      (\<lambda>(uo, w). case uo of None \<Rightarrow> Some (emit [send_presence (pr_from p) (pr_to p) Unavailable] w)
        | Some u \<Rightarrow> user_call e u (\<lambda>ue usr. let (r, out) = sendCurrentPresence (renv_of ue usr) (pr_to p) (pr_from p) (u_roster usr)
                                            in Some (usr\<lparr>u_roster := r\<rparr>, out)) w))"
    by (rule um_keeps_getUser) (auto intro!: um_keeps_Some um_keeps_user_call simp: split_def Let_def)
  then show ?thesis by (intro um_keeps_def_of [OF um_handleProbePresence_def] um_keeps_if um_keeps_id)
qed

lemma registered_subscribe_same [simp]: "same_users w (registered_subscribe e p w)"
  by (simp add: registered_subscribe_def split: option.splits)

lemma handleErrorPresence_same [simp]: "same_users w (um_handleErrorPresence e p w)"
  by (simp add: um_handleErrorPresence_def)

lemma handleSubscription_keeps: "um_keeps G e (um_handleSubscription e p)"
proof -
  have "um_keeps G e (\<lambda>w. Option.bind (um_getUser e (bare_str e (pr_from p)) w)
      (\<lambda>(uo, w). case uo of
         Some u \<Rightarrow> user_call e u (\<lambda>ue usr. map_option (\<lambda>(r, out). (usr\<lparr>u_roster := r\<rparr>, out))
                                    (handleSubscription (renv_of ue usr) p (u_roster usr))) w
       | None \<Rightarrow> Some (if pr_type p = Unsubscribe then emit [send_presence (pr_from p) (pr_to p) Unsubscribed] w else w)))"
    by (rule um_keeps_getUser) (auto intro!: um_keeps_Some um_keeps_user_call simp: keeps_jid_def)
  then show ?thesis
    by (intro um_keeps_def_of [OF um_handleSubscription_def] um_keeps_if um_keeps_id um_keeps_Some) simp_all
qed

lemma handleGeneralPresence_keeps:
  assumes "\<And>j error. um_keeps G e (refuse j error)"
  shows "um_keeps G e (um_handleGeneralPresence_with refuse e p)"
  by (intro um_keeps_def_of [OF um_handleGeneralPresence_with_def] um_keeps_if handleSubscription_keeps
      handleMUCPresence_keeps assms handleProbePresence_keeps um_keeps_Some) simp_all

lemma caps_request_keeps: "um_keeps G e (caps_request e j)"
  by (rule um_keeps_def_of [OF caps_request_def], rule um_keeps_case_option)
    (auto intro: um_keeps_Some um_handleDiscoInfo_keeps)

lemma presence_received_with_keeps:
  assumes "\<And>j error. um_keeps G e (refuse j error)"
  shows "um_keeps G e (presence_received_with refuse e p)"
proof (rule um_keepsI)
  fix w w' assume ok: "um_inv G e w" and r: "presence_received_with refuse e p w = Some w'"
  obtain orc change where oc: "handleIncomingPresence p (w_orc w) = (orc, change)" by (cases "handleIncomingPresence p (w_orc w)")
  let ?w = "w\<lparr>w_orc := orc\<rparr>"
  have "same_users w ?w" by (simp add: same_users_def)
  then have ok1: "um_inv G e ?w" using ok um_inv_same by blast
  note pres = um_keepsD [OF handlePresence_with_keeps, OF assms]
  note caps = um_keepsD [OF caps_request_keeps]
  define f where "f = (case change of None \<Rightarrow> Some | Some pp \<Rightarrow>
      (case component_handlePresence (we_sw e) pp of None \<Rightarrow> Some
       | Some ask \<Rightarrow> \<lambda>w. Option.bind (if ask then caps_request e (pr_from pp) w else Some w) (um_handlePresence_with refuse e pp)))"
  have f: "um_keeps G e f"
    by (auto simp: f_def split: option.splits
        intro!: um_keeps_id um_keeps_bind um_keeps_if caps_request_keeps handlePresence_with_keeps assms)
  have "Option.bind (f ?w) (um_handleGeneralPresence_with refuse e p) = Some w'"
    using r oc by (auto simp: presence_received_with_def f_def Let_def split: option.splits)
  moreover have "um_keeps G e (um_handleGeneralPresence_with refuse e p)" by (rule handleGeneralPresence_keeps [OF assms])
  ultimately show "um_inv G e w'" using um_keepsD [OF um_keeps_bind [OF f] ok1] by blast
qed

lemma no_refuse_keeps: "um_keeps G e (no_refuse j error)"
  by (simp add: um_keeps_def no_refuse_def)

lemma disconnectUser_keeps: "um_keeps G e (um_disconnectUser e j)"
  by (rule um_keeps_def_of [OF um_disconnectUser_def]) (rule presence_received_with_keeps [OF no_refuse_keeps])

lemma srv_signals_keeps: "um_keeps G e (srv_signals e os)"
proof (rule um_keepsI)
  fix w w' assume "um_inv G e w" "srv_signals e os w = Some w'"
  then show "um_inv G e w'"
  proof (induction e os w rule: srv_signals.induct)
    case (2 e j os w)
    then show ?case by (auto simp: bind_eq_Some_conv dest: um_keepsD [OF disconnectUser_keeps])
  next
    case (3 e p os w)
    then show ?case by (auto simp: bind_eq_Some_conv dest: um_keepsD [OF presence_received_with_keeps [OF no_refuse_keeps]])
  qed (auto dest: um_inv_same [OF _ same_users_emit])
qed

lemma srv_call_keeps: "um_keeps G e (srv_call e f)"
proof (rule um_keepsI)
  fix w w' assume ok: "um_inv G e w" and "srv_call e f w = Some w'"
  then obtain R os where "srv_signals e os (w\<lparr>w_srv := R\<rparr>) = Some w'" by (auto simp: srv_call_def bind_eq_Some_conv)
  moreover have "um_inv G e (w\<lparr>w_srv := R\<rparr>)" by (rule um_inv_same [OF ok]) (simp add: same_users_def)
  ultimately show "um_inv G e w'" using um_keepsD [OF srv_signals_keeps] by blast
qed

lemma srv_refuse_keeps: "um_keeps G e (srv_refuse e j error)"
  by (simp add: srv_refuse_def srv_call_keeps)

lemma presence_received_keeps: "um_keeps G e (presence_received e p)"
  by (simp add: presence_received_def presence_received_with_keeps srv_refuse_keeps)

subsection \<open>Removing a user\<close>

definition erase_user :: "'d wenv \<Rightarrow> nat \<Rightarrow> user \<Rightarrow> 'd world \<Rightarrow> 'd world" where
  "erase_user e u usr w = w\<lparr>w_users := smap_del (bare_str e (u_jid usr)) (w_users w),
     w_cached := (if w_cached w = Some u then None else w_cached w)\<rparr>"

lemma erase_user_inv:
  assumes "um_inv G e w" and "smap_get (w_heap w) u = Some usr" and "u \<notin> G"
  shows "um_inv (insert u G) e (erase_user e u usr w)"
proof -
  let ?k = "bare_str e (u_jid usr)" and ?w = "erase_user e u usr w"
  have A: "um_ok e w" using assms(1) by (simp add: um_inv_def)
  have uj: "jids w u = Some (u_jid usr)" using assms(2) by (simp add: jids_def)
  have u: "smap_get (w_users w) ?k = Some u" using assms(1,3) uj by (auto simp: um_inv_def)
  have key: "k = ?k" if "smap_get (w_users w) k = Some u" for k
  proof -
    have "\<exists>j. jids w u = Some j \<and> bare_str e j = k" using A that unfolding um_ok_iff by blast
    then show ?thesis using uj by auto
  qed
  have get: "smap_get (w_users ?w) = (smap_get (w_users w))(?k := None)" and ids: "jids ?w = jids w"
    by (simp_all add: erase_user_def smap_get_del)
  have cached: "\<exists>k. smap_get (w_users ?w) k = Some c" if "w_cached ?w = Some c" for c
  proof -
    have c: "c \<noteq> u" "w_cached w = Some c" using that by (auto simp: erase_user_def split: if_splits)
    then obtain k where "smap_get (w_users w) k = Some c" using A by (auto simp: um_ok_iff)
    then show ?thesis using c(1) u get by (metis fun_upd_other option.inject)
  qed
  have "um_ok e ?w"
    using A cached by (auto simp: um_ok_iff get ids) (auto simp: erase_user_def smap_ok_del)
  moreover have "u < w_next ?w" using A assms(2) by (auto simp: um_ok_iff jids_def erase_user_def)
  moreover have "v \<in> insert u G \<or> smap_get (w_users ?w) (bare_str e j) = Some v" if "jids ?w v = Some j" for v j
  proof -
    have "v \<in> G \<or> smap_get (w_users w) (bare_str e j) = Some v" using assms(1) that by (simp add: um_inv_def ids)
    then show ?thesis using u by (auto simp: get)
  qed
  moreover have "v \<notin> insert u G" if "smap_get (w_users ?w) k = Some v" for k v
    using assms(1) that key by (auto simp: um_inv_def get split: if_splits)
  moreover have "v < w_next ?w" if "v \<in> G" for v using assms(1) that by (auto simp: um_inv_def erase_user_def)
  ultimately show ?thesis unfolding um_inv_def by blast
qed

lemma free_user_inv:
  assumes "um_inv (insert u G) e w" and "u \<notin> G"
  shows "um_inv G e (w\<lparr>w_heap := smap_del u (w_heap w), w_pool := P\<rparr>)"
proof -
  let ?w = "w\<lparr>w_heap := smap_del u (w_heap w), w_pool := P\<rparr>"
  have A: "um_ok e w" and nu: "\<And>k. smap_get (w_users w) k \<noteq> Some u" using assms(1) by (auto simp: um_inv_def)
  have ids: "jids ?w = (jids w)(u := None)" by (simp add: jids_def fun_eq_iff smap_get_del)
  have "um_ok e ?w" using A nu by (auto simp: um_ok_iff ids smap_ok_del)
  then show ?thesis using assms by (auto simp: um_inv_def ids split: if_splits)
qed

lemma delete_user_inv:
  assumes "um_inv (insert u G) e w" and "u \<notin> G" and "delete_user e u w = Some w'"
  shows "um_inv G e w'"
proof -
  obtain usr w1 where "smap_get (w_heap w) u = Some usr"
    and w1: "(if w_server e then srv_call e (channel_finishSession (senv_of e) (u_jid usr) None False) w else Some w) = Some w1"
    and r: "\<exists>efs w2. deliver_all e u efs w1 = Some w2 \<and> w' = w2\<lparr>w_heap := smap_del u (w_heap w2), w_pool := forget_data u (w_pool w2)\<rparr>"
    using assms(3) unfolding delete_user_def bind_eq_Some_conv Let_def split_def by blast
  have "um_inv (insert u G) e w1" using w1 assms(1) um_keepsD [OF srv_call_keeps] by (auto split: if_splits)
  then show ?thesis using r um_inv_same deliver_all_same free_user_inv [OF _ assms(2)] by metis
qed

lemma removeUser_inv:
  assumes "um_inv G e w" and "u \<notin> G" and "um_removeUser e u b w = Some w'"
  shows "um_inv G e w'"
proof -
  obtain usr w1 w2 where usr: "smap_get (w_heap w) u = Some usr"
    and w1: "(if w_server e then um_disconnectUser e (u_jid usr) (erase_user e u usr w)
      else Some ((erase_user e u usr w)\<lparr>w_orc := clearPresences (jid_bare (u_jid usr)) (w_orc (erase_user e u usr w))\<rparr>)) = Some w1"
    and w2: "deliver e u OnUserDestroyed
      (if b then db_call e (\<lambda>st. st_setUserOnline st (ui_id (u_info usr)) False) w1 else w1) = Some w2"
    and w': "delete_user e u w2 = Some w'"
    using assms(3) unfolding um_removeUser_def bind_eq_Some_conv Let_def erase_user_def [symmetric] by blast
  have "um_inv (insert u G) e w1"
  proof (cases "w_server e")
    case True
    then show ?thesis using w1 um_keepsD [OF disconnectUser_keeps erase_user_inv [OF assms(1) usr assms(2)]] by simp
  next
    case False
    then show ?thesis using w1 um_inv_same [OF erase_user_inv [OF assms(1) usr assms(2)]] by (auto simp: same_users_def)
  qed
  moreover have "same_users w1 w2"
    using deliver_same [OF w2] same_users_trans [OF same_users_db_call] by (auto split: if_splits)
  ultimately show ?thesis using delete_user_inv [OF um_inv_same _ w'] assms(2) by blast
qed

subsection \<open>The whole transport\<close>

lemma connectUser_keeps: "um_keeps G e (um_connectUser e j)"
proof (rule um_keepsI)
  fix w w' assume ok: "um_inv G e w" and r: "um_connectUser e j w = Some w'"
  note srv = um_keepsD [OF srv_call_keeps ok] um_keepsD [OF srv_call_keeps um_inv_same [OF ok same_users_emit]]
  have fields: "same_users w (w\<lparr>w_srv := R\<rparr>)" "same_users w (w\<lparr>w_slots := ss\<rparr>)" for R ss
    by (simp_all add: same_users_def)
  show "um_inv G e w'"
    using r ok
    by (auto simp: um_connectUser_def Let_def bind_eq_Some_conv split: option.splits if_splits
        dest: um_keepsD [OF presence_received_keeps ok] srv intro: um_inv_same [OF ok fields(1)] um_inv_same [OF ok fields(2)])
qed

lemma removeUser_keeps: "um_keeps {} e (um_removeUser e u b)"
  by (rule um_keepsI) (rule removeUser_inv, auto)

lemma handleRemoveTimeout_keeps: "um_keeps {} e (um_handleRemoveTimeout e s)"
proof (rule um_keepsI)
  fix w w' assume ok: "um_inv {} e w" and r: "um_handleRemoveTimeout e s w = Some w'"
  obtain key u rc where s: "s = (key, u, rc)" by (cases s)
  let ?w = "w\<lparr>w_slots := removeAll s (w_slots w)\<rparr>"
  have "um_inv {} e ?w" by (rule um_inv_same [OF ok]) (simp add: same_users_def)
  then obtain w1 where w1: "um_getUser e key ?w = Some (smap_get (w_users ?w) key, w1)" "um_inv {} e w1" by (rule getUser_inv)
  then show "um_inv {} e w'"
    using r s
    by (auto simp: um_handleRemoveTimeout_def bind_eq_Some_conv split: if_splits
        dest: um_keepsD [OF removeUser_keeps w1(2)] um_keepsD [OF connectUser_keeps])
qed

lemma tick_keeps: "um_keeps {} e (um_tick e)"
proof -
  have "um_inv {} e w'" if "um_inv {} e w" "um_tick_slots e ss w = Some w'" for ss w w'
    using that
    by (induction ss arbitrary: w)
      (auto simp: bind_eq_Some_conv split: if_splits dest: um_keepsD [OF handleRemoveTimeout_keeps])
  then show ?thesis by (auto intro!: um_keepsI simp: um_tick_def)
qed

lemma handleMessageReceived_keeps: "um_keeps G e (um_handleMessageReceived e m)"
proof (rule um_keepsI)
  fix w w' assume ok: "um_inv G e w" and r: "um_handleMessageReceived e m w = Some w'"
  define f where "f = (\<lambda>w. Option.bind (um_getUser e (bare_str e (m_from m)) w) (\<lambda>(uo, w). case uo of None \<Rightarrow> Some w
      | Some u \<Rightarrow> user_call e u (\<lambda>ue usr. let (cs, out) = convs_handleMessageReceived (cenv_of ue usr) m (u_convs usr)
                                          in Some (usr\<lparr>u_convs := cs\<rparr>, out)) w))"
  have f: "um_keeps G e f"
    unfolding f_def by (rule um_keeps_getUser) (auto intro!: um_keeps_id um_keeps_user_call simp: split_def Let_def)
  have "um_inv G e (w\<lparr>w_sentToBackend := n\<rparr>)" for n by (rule um_inv_same [OF ok]) (simp add: same_users_def)
  then show "um_inv G e w'"
    using r ok um_keepsD [OF f] by (auto simp: um_handleMessageReceived_def Let_def f_def split: if_splits)
qed

lemma client_signals_keeps: "um_keeps G e (client_signals e os)"
proof (rule um_keepsI)
  fix w w' assume "um_inv G e w" "client_signals e os w = Some w'"
  then show "um_inv G e w'"
  proof (induction e os w rule: client_signals.induct)
    case (2 e j os w)
    then show ?case by (auto simp: bind_eq_Some_conv dest: um_keepsD [OF connectUser_keeps])
  next
    case (3 e j os w)
    then show ?case by (auto simp: bind_eq_Some_conv dest: um_keepsD [OF disconnectUser_keeps])
  next
    case (4 e p os w)
    then show ?case by (auto simp: bind_eq_Some_conv dest: um_keepsD [OF presence_received_keeps])
  next
    case (5 e m os w)
    then show ?case by (auto simp: bind_eq_Some_conv dest: um_keepsD [OF handleMessageReceived_keeps])
  qed (auto dest: um_inv_same [OF _ same_users_emit])
qed

lemma client_event_keeps: "um_keeps G e (client_event e ev)"
proof (rule um_keepsI)
  fix w w' assume ok: "um_inv G e w" and "client_event e ev w = Some w'"
  then obtain R os where "client_signals e os (w\<lparr>w_srv := R\<rparr>) = Some w'" by (auto simp: client_event_def bind_eq_Some_conv)
  moreover have "um_inv G e (w\<lparr>w_srv := R\<rparr>)" by (rule um_inv_same [OF ok]) (simp add: same_users_def)
  ultimately show "um_inv G e w'" using um_keepsD [OF client_signals_keeps] by blast
qed

end
