(* ===== verification/Codecs.thy ===== *)
theory Codecs
  imports Prelude
begin

text \<open>
  How the storage backends write values into text columns, and how URLs are built: the static
  functions of \<open>libtransport/StorageBackend.cpp\<close> (groups of a contact as lines, passwords with a key) and
  \<open>char2hex\<close>, \<open>urlencode\<close>, \<open>base64Encode\<close>, \<open>base64Decode\<close> of \<open>protocol/Util.cpp\<close>.

  The base64 iterators are those of Boost: a record of two functions, with the digits of a string
  (without padding) and the bytes of a text, \<open>None\<close> for the exception on a character that is no digit.
\<close>

section \<open>Definitions\<close>

subsection \<open>Groups\<close>

definition newline :: char where "newline = CHR 0x0A"

definition serializeGroups :: "string list \<Rightarrow> string" where
  "serializeGroups groups =
     (let ret = concat (map (\<lambda>group. group @ [newline]) groups)
      in if ret \<noteq> [] then butlast ret else ret)"

text \<open>\<open>boost::split\<close> with one separator and without compression of adjacent ones.\<close>

fun split_at_char :: "char \<Rightarrow> string \<Rightarrow> string list" where
  "split_at_char c [] = [[]]"
| "split_at_char c (x # xs) =
     (if x = c then [] # split_at_char c xs
      else case split_at_char c xs of [] \<Rightarrow> [[x]] | t # ts \<Rightarrow> (x # t) # ts)"

definition deserializeGroups :: "string \<Rightarrow> string list" where
  "deserializeGroups groups =
     (if groups = [] then []
      else let ret = split_at_char newline groups in if last ret = [] then butlast ret else ret)"

subsection \<open>Passwords\<close>

record base64 =
  b64_digits :: "string \<Rightarrow> string"
  b64_bytes :: "string \<Rightarrow> string option"

definition base64Encode :: "base64 \<Rightarrow> string \<Rightarrow> string" where
  "base64Encode b s = b64_digits b s @ replicate ((3 - length s mod 3) mod 3) CHR ''=''"

definition NUL :: char where "NUL = CHR 0x00"

definition trim_right_nul :: "string \<Rightarrow> string" where
  "trim_right_nul s = rev (dropWhile (\<lambda>c. c = NUL) (rev s))"

definition base64Decode :: "base64 \<Rightarrow> string \<Rightarrow> string option" where
  "base64Decode b s = map_option trim_right_nul (b64_bytes b s)"

text \<open>\<open>c += keychar\<close> and \<open>c -= keychar\<close> on characters.\<close>

definition char_add :: "char \<Rightarrow> char \<Rightarrow> char" where
  "char_add c k = char_of ((of_char c + of_char k) mod 256 :: int)"

definition char_sub :: "char \<Rightarrow> char \<Rightarrow> char" where
  "char_sub c k = char_of ((of_char c - of_char k) mod 256 :: int)"

fun with_key :: "(char \<Rightarrow> char \<Rightarrow> char) \<Rightarrow> string \<Rightarrow> nat \<Rightarrow> string \<Rightarrow> string" where
  "with_key f key i [] = []"
| "with_key f key i (c # cs) = f c (key ! (i mod length key)) # with_key f key (Suc i) cs"

text \<open>\<open>None\<close> is the division by the size of an empty key, or the exception of the decoder.\<close>

definition key_usable :: "string \<Rightarrow> string \<Rightarrow> bool" where
  "key_usable key s \<longleftrightarrow> key \<noteq> [] \<or> s = []"

definition encryptPassword :: "base64 \<Rightarrow> string \<Rightarrow> string \<Rightarrow> string option" where
  "encryptPassword b password key =
     (if key_usable key password then Some (base64Encode b (with_key char_add key 0 password)) else None)"

definition decryptPassword :: "base64 \<Rightarrow> string \<Rightarrow> string \<Rightarrow> string option" where
  "decryptPassword b encrypted key =
     (case base64Decode b encrypted of
        None \<Rightarrow> None
      | Some bytes \<Rightarrow> if key_usable key bytes then Some (with_key char_sub key 0 bytes) else None)"

subsection \<open>URLs\<close>

definition hex_digit :: "nat \<Rightarrow> char" where
  "hex_digit d = (if d \<le> 9 then char_of (d + 48) else char_of (d + (65 - 10)))"

definition char2hex :: "char \<Rightarrow> string" where
  "char2hex dec = [hex_digit (of_char dec div 16), hex_digit (of_char dec mod 16)]"

definition url_safe :: "char \<Rightarrow> bool" where
  "url_safe c =
     (let n = of_char c :: nat
      in 48 \<le> n \<and> n \<le> 57 \<or> 65 \<le> n \<and> n \<le> 90 \<or> 97 \<le> n \<and> n \<le> 122 \<or> c \<in> set ''~-_.'')"

definition urlencode :: "string \<Rightarrow> string" where
  "urlencode s = concat (map (\<lambda>c. if url_safe c then [c] else CHR ''%'' # char2hex c) s)"

section \<open>Groups come back\<close>

text \<open>What \<open>deserializeGroups\<close> makes of a list of groups: each is cut at its line breaks, and one
  empty line at the end is lost.\<close>

definition drop_last_empty :: "string list \<Rightarrow> string list" where
  "drop_last_empty gs = (if gs \<noteq> [] \<and> last gs = [] then butlast gs else gs)"

lemma split_at_char_not_Nil [simp]: "split_at_char c s \<noteq> []"
  by (cases s) (auto split: list.splits)

lemma split_at_char_append: "split_at_char c (xs @ c # ys) = split_at_char c xs @ split_at_char c ys"
proof (induction xs)
  case (Cons x xs)
  then show ?case by (cases "split_at_char c xs") auto
qed simp

lemma split_at_char_none: "c \<notin> set s \<Longrightarrow> split_at_char c s = [s]"
  by (induction s) auto

lemma split_at_char_lines:
  "gs \<noteq> [] \<Longrightarrow> split_at_char c (butlast (concat (map (\<lambda>g. g @ [c]) gs))) = concat (map (split_at_char c) gs)"
proof (induction gs)
  case (Cons g gs)
  show ?case
  proof (cases gs)
    case Nil
    then show ?thesis by (simp add: butlast_append)
  next
    case (Cons h hs)
    have "butlast (concat (map (\<lambda>g. g @ [c]) (g # gs))) = g @ c # butlast (concat (map (\<lambda>g. g @ [c]) gs))"
      using Cons by (simp add: butlast_append)
    then show ?thesis using Cons Cons.IH by (simp add: split_at_char_append)
  qed
qed simp

lemma serializeGroups_Nil_iff: "serializeGroups gs = [] \<longleftrightarrow> gs = [] \<or> gs = [[]]"
proof (cases gs)
  case (Cons g hs)
  then show ?thesis
    by (cases hs) (auto simp: serializeGroups_def Let_def butlast_append dest: arg_cong [of _ _ length])
qed (simp add: serializeGroups_def)

lemma groups_of_stored:
  "deserializeGroups (serializeGroups gs) = drop_last_empty (concat (map (split_at_char newline) gs))"
proof (cases "gs = [] \<or> gs = [[]]")
  case True
  then show ?thesis by (auto simp: deserializeGroups_def serializeGroups_Nil_iff drop_last_empty_def)
next
  case False
  then have "serializeGroups gs \<noteq> []" "gs \<noteq> []" by (simp_all add: serializeGroups_Nil_iff)
  moreover have "serializeGroups gs = butlast (concat (map (\<lambda>g. g @ [newline]) gs))"
    by (simp add: serializeGroups_def Let_def)
  ultimately show ?thesis
    by (simp add: deserializeGroups_def split_at_char_lines Let_def drop_last_empty_def)
qed

lemma split_at_char_pieces: "t \<in> set (split_at_char c s) \<Longrightarrow> c \<notin> set t"
  by (induction s arbitrary: t) (auto split: list.splits if_splits)

lemma concat_split_id: "(\<And>g. g \<in> set gs \<Longrightarrow> c \<notin> set g) \<Longrightarrow> concat (map (split_at_char c) gs) = gs"
  by (induction gs) (auto simp: split_at_char_none)

lemma drop_last_empty_id: "drop_last_empty gs = gs \<longleftrightarrow> gs = [] \<or> last gs \<noteq> []"
  by (cases gs rule: rev_cases) (auto simp: drop_last_empty_def)

lemma set_drop_last_empty: "set (drop_last_empty gs) \<subseteq> set gs"
  by (auto simp: drop_last_empty_def dest: in_set_butlastD)

lemma groups_roundtrip:
  "deserializeGroups (serializeGroups gs) = gs
    \<longleftrightarrow> newline \<notin> set (concat gs) \<and> (gs = [] \<or> last gs \<noteq> [])"
proof -
  let ?r = "concat (map (split_at_char newline) gs)"
  have free: "newline \<notin> set (concat gs)" if "drop_last_empty ?r = gs"
  proof -
    have "set gs \<subseteq> set ?r" using set_drop_last_empty [of ?r] that by simp
    then show ?thesis by (auto dest: split_at_char_pieces)
  qed
  have "newline \<notin> set (concat gs) \<Longrightarrow> ?r = gs" by (rule concat_split_id) auto
  then show ?thesis using free by (auto simp: groups_of_stored drop_last_empty_id simp del: set_concat)
qed

section \<open>Passwords come back\<close>

lemma length_with_key [simp]: "length (with_key f key i s) = length s"
  by (induction s arbitrary: i) auto

lemma with_key_Nil_iff [simp]: "with_key f key i s = [] \<longleftrightarrow> s = []"
  by (cases s) auto

lemma with_key_take: "with_key f key i (take n s) = take n (with_key f key i s)"
  by (induction s arbitrary: i n) (auto simp: take_Cons split: nat.splits)

lemma last_with_key: "s \<noteq> [] \<Longrightarrow> last (with_key f key i s) = f (last s) (key ! ((i + length s - 1) mod length key))"
  by (induction s arbitrary: i) auto

lemma char_sub_add [simp]: "char_sub (char_add c k) k = c"
proof -
  have "((of_char c + of_char k) mod 256 - of_char k) mod 256 = (of_char c :: int) mod 256"
    by (simp add: mod_diff_left_eq)
  then show ?thesis by (simp add: char_sub_def char_add_def)
qed

lemma with_key_inverse [simp]: "with_key char_sub key i (with_key char_add key i s) = s"
  by (induction s arbitrary: i) auto

text \<open>
  What the two functions rely on: decoding gives the bytes back, followed by a zero byte for every
  padding character.
\<close>

definition base64_ok :: "base64 \<Rightarrow> bool" where
  "base64_ok b \<longleftrightarrow>
     (\<forall>s. b64_bytes b (base64Encode b s) = Some (s @ replicate ((3 - length s mod 3) mod 3) NUL))"

lemma trim_right_nul_replicate [simp]: "trim_right_nul (s @ replicate n NUL) = trim_right_nul s"
  by (induction n) (simp_all add: trim_right_nul_def dropWhile_append)

lemma trim_right_nul_id: "trim_right_nul s = s \<longleftrightarrow> s = [] \<or> last s \<noteq> NUL"
proof (cases s rule: rev_cases)
  case (snoc xs x)
  have "length (dropWhile (\<lambda>c. c = NUL) (rev xs)) \<le> length xs" using length_dropWhile_le [of _ "rev xs"] by simp
  then have "rev (dropWhile (\<lambda>c. c = NUL) (rev xs)) \<noteq> xs @ [x]"
    by (auto dest: arg_cong [of _ _ length])
  then show ?thesis using snoc by (auto simp: trim_right_nul_def)
qed (simp add: trim_right_nul_def)

lemma trim_right_nul_take: "trim_right_nul s = take (length (trim_right_nul s)) s"
proof -
  have "rev s = takeWhile (\<lambda>c. c = NUL) (rev s) @ dropWhile (\<lambda>c. c = NUL) (rev s)" by simp
  then have "s = trim_right_nul s @ rev (takeWhile (\<lambda>c. c = NUL) (rev s))"
    unfolding trim_right_nul_def by (metis rev_append rev_rev_ident)
  then show ?thesis by (metis append_eq_conv_conj)
qed

lemma decrypt_encrypt:
  assumes "base64_ok b" and "key \<noteq> []"
  shows "Option.bind (encryptPassword b password key) (\<lambda>x. decryptPassword b x key)
    = Some (take (length (trim_right_nul (with_key char_add key 0 password))) password)"
proof -
  let ?x = "with_key char_add key 0 password"
  have "decryptPassword b (base64Encode b ?x) key = Some (with_key char_sub key 0 (trim_right_nul ?x))"
    using assms by (simp add: decryptPassword_def base64Decode_def base64_ok_def key_usable_def)
  moreover have "with_key char_sub key 0 (trim_right_nul ?x) = take (length (trim_right_nul ?x)) password"
    by (subst trim_right_nul_take) (simp add: with_key_take)
  ultimately show ?thesis using assms(2) by (simp add: encryptPassword_def key_usable_def)
qed

lemma int_of_char_bounds: "0 \<le> (of_char c :: int)" "(of_char c :: int) < 256"
  using pos_mod_sign [of 256 "of_char c"] pos_mod_bound [of 256 "of_char c"] by simp_all

lemma char_add_NUL_iff: "char_add c k = NUL \<longleftrightarrow> of_char c + of_char k \<in> {0, 256 :: int}"
proof -
  have "of_char NUL = (0 :: int)" by code_simp
  then have "char_add c k = NUL \<longleftrightarrow> (of_char c + of_char k) mod 256 = (0 :: int)"
    unfolding of_char_eq_iff [where ?'a = int, symmetric] char_add_def by simp
  then show ?thesis using int_of_char_bounds [of c] int_of_char_bounds [of k] by (auto simp: zmod_eq_0_iff)
qed

lemma password_roundtrip:
  assumes "base64_ok b" and "key \<noteq> []"
  shows "Option.bind (encryptPassword b password key) (\<lambda>x. decryptPassword b x key) = Some password
    \<longleftrightarrow> password = [] \<or> of_char (last password) + of_char (key ! ((length password - 1) mod length key)) \<notin> {0, 256 :: int}"
proof -
  let ?x = "with_key char_add key 0 password"
  have le: "length (trim_right_nul ?x) \<le> length password" by (metis length_take length_with_key min.cobounded1 trim_right_nul_take min.commute)
  have "take (length (trim_right_nul ?x)) password = password \<longleftrightarrow> length (trim_right_nul ?x) = length ?x"
    using le by (auto dest: arg_cong [of _ _ length])
  also have "\<dots> \<longleftrightarrow> trim_right_nul ?x = ?x" by (metis trim_right_nul_take take_all order_refl)
  also have "\<dots> \<longleftrightarrow> password = [] \<or> last ?x \<noteq> NUL" by (simp add: trim_right_nul_id)
  finally show ?thesis
    by (cases "password = []") (simp_all add: decrypt_encrypt [OF assms] last_with_key char_add_NUL_iff)
qed

section \<open>URLs come back\<close>

definition hex_value :: "char \<Rightarrow> nat" where
  "hex_value c = (let n = of_char c in if n \<le> 57 then n - 48 else n - 55)"

fun urldecode :: "string \<Rightarrow> string" where
  "urldecode (c # a # b # s) =
     (if c = CHR ''%'' then char_of (16 * hex_value a + hex_value b) # urldecode s else c # urldecode (a # b # s))"
| "urldecode (c # s) = c # urldecode s"
| "urldecode [] = []"

lemma hex_value_digit: "d < 16 \<Longrightarrow> hex_value (hex_digit d) = d"
  by (auto simp: hex_value_def hex_digit_def)

lemma urldecode_safe: "c \<noteq> CHR ''%'' \<Longrightarrow> urldecode (c # s) = c # urldecode s"
  by (cases s rule: urldecode.cases) simp_all

lemma urldecode_hex: "urldecode (CHR ''%'' # char2hex c @ s) = c # urldecode s"
proof -
  have "(of_char c :: nat) div 16 < 16" using nat_of_char_less_256 [of c] by (simp add: less_mult_imp_div_less)
  then have "16 * hex_value (hex_digit (of_char c div 16)) + hex_value (hex_digit (of_char c mod 16)) = (of_char c :: nat)"
    by (simp add: hex_value_digit)
  then have "char_of (16 * hex_value (hex_digit (of_char c div 16)) + hex_value (hex_digit (of_char c mod 16))) = c"
    by (simp only: char_of_char)
  then show ?thesis by (simp add: char2hex_def)
qed

lemma url_roundtrip: "urldecode (urlencode s) = s"
proof (induction s)
  case (Cons c s)
  have "\<not> url_safe CHR ''%''" by code_simp
  then have "url_safe c \<Longrightarrow> c \<noteq> CHR ''%''" by auto
  then show ?case using Cons by (simp add: urlencode_def urldecode_safe urldecode_hex)
qed (simp add: urlencode_def)

lemma hex_digit_safe: "d < 16 \<Longrightarrow> url_safe (hex_digit d)"
  by (auto simp: url_safe_def hex_digit_def Let_def)

lemma urlencode_chars: "c \<in> set (urlencode s) \<Longrightarrow> url_safe c \<or> c = CHR ''%''"
proof -
  have "(of_char d :: nat) div 16 < 16" for d using nat_of_char_less_256 [of d] by (simp add: less_mult_imp_div_less)
  then have "x \<in> set (char2hex d) \<Longrightarrow> url_safe x" for x d by (auto simp: char2hex_def intro: hex_digit_safe)
  then show "c \<in> set (urlencode s) \<Longrightarrow> url_safe c \<or> c = CHR ''%''" by (auto simp: urlencode_def split: if_splits)
qed

section \<open>Base64\<close>

text \<open>A codec with the property: base64 itself, on groups of three bytes.\<close>

definition alphabet :: string where
  "alphabet = ''ABCDEFGHIJKLMNOPQRSTUVWXYZabcdefghijklmnopqrstuvwxyz0123456789+/''"

definition digit_value :: "char \<Rightarrow> nat option" where
  "digit_value c = (if c = CHR ''='' then Some 0 else find_char c alphabet)"

definition four_digits :: "nat \<Rightarrow> string" where
  "four_digits n = map (\<lambda>d. alphabet ! (d mod 64)) [n div 262144, n div 4096, n div 64, n]"

definition three_bytes :: "nat \<Rightarrow> string" where
  "three_bytes n = [char_of (n div 65536), char_of (n div 256), char_of n]"

fun std_digits :: "string \<Rightarrow> string" where
  "std_digits (a # b # c # s) = four_digits (of_char a * 65536 + of_char b * 256 + of_char c) @ std_digits s"
| "std_digits [a, b] = take 3 (four_digits (of_char a * 65536 + of_char b * 256))"
| "std_digits [a] = take 2 (four_digits (of_char a * 65536))"
| "std_digits [] = []"

fun std_bytes :: "string \<Rightarrow> string option" where
  "std_bytes (a # b # c # d # s) =
     (case (digit_value a, digit_value b, digit_value c, digit_value d, std_bytes s) of
        (Some i, Some j, Some k, Some l, Some t) \<Rightarrow> Some (three_bytes (i * 262144 + j * 4096 + k * 64 + l) @ t)
      | _ \<Rightarrow> None)"
| "std_bytes [] = Some []"
| "std_bytes _ = None"

definition std_base64 :: base64 where
  "std_base64 = \<lparr>b64_digits = std_digits, b64_bytes = std_bytes\<rparr>"

lemma digit_value_alphabet: "d < 64 \<Longrightarrow> digit_value (alphabet ! d) = Some d"
proof -
  have "list_all (\<lambda>d. digit_value (alphabet ! d) = Some d) [0..<64]" by code_simp
  then show "d < 64 \<Longrightarrow> digit_value (alphabet ! d) = Some d" by (auto simp: list_all_iff)
qed

lemma digits_sum:
  assumes "(n :: nat) < 16777216"
  shows "n div 262144 * 262144 + n div 4096 mod 64 * 4096 + n div 64 mod 64 * 64 + n mod 64 = n"
proof -
  have d: "n div 4096 = n div 64 div 64" "n div 262144 = n div 64 div 64 div 64" by (simp_all flip: div_mult2_eq)
  have "n div 64 div 64 = n div 64 div 64 div 64 * 64 + n div 64 div 64 mod 64" "n div 64 = n div 64 div 64 * 64 + n div 64 mod 64"
    "n = n div 64 * 64 + n mod 64" by simp_all
  then show ?thesis unfolding d by linarith
qed

lemma std_bytes_digits:
  assumes "n < 16777216" and "digit_value a = Some (n div 262144)" "digit_value b = Some (n div 4096 mod 64)"
    "digit_value c = Some (n div 64 mod 64)" "digit_value d = Some (n mod 64)"
  shows "std_bytes (a # b # c # d # s) = map_option (\<lambda>t. three_bytes n @ t) (std_bytes s)"
  using assms by (simp add: digits_sum split: option.splits)

lemma digit_value_pad: "digit_value CHR ''='' = Some 0"
  by (simp add: digit_value_def)

lemma three_bytes_of: "three_bytes (of_char a * 65536 + of_char b * 256 + of_char c) = [a, b, c]"
proof -
  have div256: "(n * 256 + of_char c) div 256 = (n :: nat)" for n c by (simp add: div_add1_eq)
  have n: "(of_char a * 65536 + of_char b * 256 + of_char c :: nat) = (of_char a * 256 + of_char b) * 256 + of_char c"
    by simp
  have "(of_char a * 65536 + of_char b * 256 + of_char c :: nat) div 65536
    = (of_char a * 65536 + of_char b * 256 + of_char c) div 256 div 256" by (simp flip: div_mult2_eq)
  then have "(of_char a * 65536 + of_char b * 256 + of_char c :: nat) div 65536 = of_char a"
    "(of_char a * 65536 + of_char b * 256 + of_char c :: nat) div 256 = of_char a * 256 + of_char b"
    unfolding n by (simp_all only: div256)
  moreover have "(of_char a * 65536 + of_char b * 256 + of_char c :: nat) mod 256 = of_char c"
    unfolding n by (simp only: mod_mult_self3 of_char_mod_256)
  ultimately show ?thesis by (simp add: three_bytes_def char_of_eq_iff take_bit_eq_mod)
qed

lemma group_bound: "(of_char a * 65536 + of_char b * 256 + of_char c :: nat) < 16777216"
  using nat_of_char_less_256 [of a] nat_of_char_less_256 [of b] nat_of_char_less_256 [of c] by linarith

lemma std_bytes_four:
  "n < 16777216 \<Longrightarrow> std_bytes (four_digits n @ s) = map_option (\<lambda>t. three_bytes n @ t) (std_bytes s)"
  "n < 16777216 \<Longrightarrow> n mod 64 = 0 \<Longrightarrow> std_bytes (take 3 (four_digits n) @ ''='') = Some (three_bytes n)"
  "n < 16777216 \<Longrightarrow> n mod 64 = 0 \<Longrightarrow> n div 64 mod 64 = 0 \<Longrightarrow> std_bytes (take 2 (four_digits n) @ ''=='') = Some (three_bytes n)"
  by (simp_all add: four_digits_def std_bytes_digits digit_value_alphabet digit_value_pad del: std_bytes.simps(1))

lemma NUL_zero: "of_char NUL = (0 :: nat)"
  by code_simp

lemma pad_bits: "(n * 65536) div 64 mod 64 = (0 :: nat)" "(n * 65536) mod 64 = (0 :: nat)"
  "(n * 65536 + m * 256) mod 64 = (0 :: nat)"
proof -
  have n: "n * 65536 = 64 * (64 * (n * 16))" "m * 256 = 64 * (m * 4)" by simp_all
  show "(n * 65536) div 64 mod 64 = 0" "(n * 65536) mod 64 = 0" unfolding n by (simp_all del: mult.left_commute)
  show "(n * 65536 + m * 256) mod 64 = 0" unfolding n by (metis distrib_left mod_mult_self1_is_0)
qed

lemma mod3_step: "Suc (Suc (Suc n)) mod 3 = n mod 3"
  by presburger

lemma std_base64_ok: "base64_ok std_base64"
proof -
  have "std_bytes (std_digits s @ replicate ((3 - length s mod 3) mod 3) CHR ''='')
    = Some (s @ replicate ((3 - length s mod 3) mod 3) NUL)" for s
  proof (induction s rule: std_digits.induct)
    case (1 a b c s)
    then show ?case
      by (simp only: std_digits.simps append_assoc std_bytes_four(1) [OF group_bound] list.size(4) add_Suc_right add_0_right mod3_step three_bytes_of)
         simp
  next
    case (2 a b)
    show ?case
      using std_bytes_four(2) [OF group_bound [of a b NUL]] three_bytes_of [of a b NUL] by (simp add: NUL_zero pad_bits)
  next
    case (3 a)
    show ?case
      using std_bytes_four(3) [OF group_bound [of a NUL NUL]] three_bytes_of [of a NUL NUL]
      by (simp add: NUL_zero pad_bits numeral_2_eq_2)
  qed simp
  then show ?thesis by (simp add: base64_ok_def base64Encode_def std_base64_def)
qed

section \<open>Properties\<close>

text \<open>
  C9: A password that is encrypted with a key and decrypted with the same key comes back exactly when
  it is empty or its last byte does not become zero: zero bytes at the end of the encrypted text are taken for
  the padding of the encoding and lost.
\<close>

theorem stored_password_comes_back:
  assumes "base64_ok b" and "key \<noteq> []"
  shows "Option.bind (encryptPassword b password key) (\<lambda>x. decryptPassword b x key) = Some password
    \<longleftrightarrow> password = [] \<or> of_char (last password) + of_char (key ! ((length password - 1) mod length key)) \<notin> {0, 256 :: int}"
  using assms by (rule password_roundtrip)

theorem stored_password_comes_back_witness:
  "Option.bind (encryptPassword std_base64 ''pass'' ''key'') (\<lambda>x. decryptPassword std_base64 x ''key'') = Some ''pass''
   \<and> Option.bind (encryptPassword std_base64 [CHR ''p'', CHR 0xA0] [CHR ''k'', CHR ''`'']) (\<lambda>x. decryptPassword std_base64 x [CHR ''k'', CHR ''`''])
       \<noteq> Some [CHR ''p'', CHR 0xA0]"
  using stored_password_comes_back [OF std_base64_ok, of "''key''" "''pass''"]
    stored_password_comes_back [OF std_base64_ok, of "[CHR ''k'', CHR ''`'']" "[CHR ''p'', CHR 0xA0]"] by simp

end
