(* ===== verification/Registration.thy ===== *)
theory Registration
  imports WorldInv Codecs
begin

text \<open>
  Registration: \<open>libtransport/UserRegistration.cpp\<close>, \<open>XMPPUserRegistration.cpp\<close> of the XMPP frontend
  (XEP-0077), and \<open>libtransport/UsersReconnecter.cpp\<close>, which asks the users of the database for their presence
  when the transport has connected. The registration exists only with a database: \<open>None\<close> is the missing one.

  Parameters of \<open>regconf\<close>: the options, the regular expression of the allowed user names (a predicate, if
  it is configured), and the login at the local server that checks a local account.
\<close>

section \<open>Definitions\<close>

record regconf =
  rc_protocol :: string
  rc_public :: bool
  rc_allowed_servers :: "string list"
  rc_require_local :: bool
  rc_local_login :: "string \<Rightarrow> string \<Rightarrow> bool"
  rc_username_mask :: string
  rc_allowed_usernames :: "(string \<Rightarrow> bool) option"
  rc_notify_jid :: "string list"
  rc_instructions :: string
  rc_username_label :: string
  rc_local_username_label :: string
  rc_language :: string
  rc_reconnect_all :: "bool option"

subsection \<open>\<open>UserRegistration\<close>\<close>

definition db_registered :: "'d wenv \<Rightarrow> string \<Rightarrow> 'd world \<Rightarrow> userinfo option option" where
  "db_registered e barejid w = map_option (\<lambda>st. st_getUser st (w_db w) barejid) (we_store e)"

definition registerUser :: "'d wenv \<Rightarrow> userinfo \<Rightarrow> bool \<Rightarrow> 'd world \<Rightarrow> (bool \<times> 'd world) option" where
  "registerUser e row allowPasswordChange w =
     do { st \<leftarrow> we_store e;
          let registered = (st_getUser st (w_db w) (ui_jid row) \<noteq> None);
          let w = (if \<not> registered \<or> allowPasswordChange
                   then emit [RegOut (RegisterRosterRequest (ui_jid row)), RegOut (OnUserRegistered row)]
                          (w\<lparr>w_db := st_setUser st row (w_db w)\<rparr>)
                   else w);
          Some (\<not> registered, w) }"

definition disconnect_registered :: "'d wenv \<Rightarrow> string \<Rightarrow> 'd world \<Rightarrow> 'd world option" where
  "disconnect_registered e barejid w =
     do { (uo, w) \<leftarrow> um_getUser e barejid w;
          case uo of None \<Rightarrow> Some w | Some u \<Rightarrow> um_removeUser e u True w }"

definition db_remove :: "'d wenv \<Rightarrow> int \<Rightarrow> 'd world \<Rightarrow> 'd world option" where
  "db_remove e i w = do { st \<leftarrow> we_store e; Some (w\<lparr>w_db := snd (st_removeUser st i (w_db w))\<rparr>) }"

definition unregisterUser :: "'d wenv \<Rightarrow> string \<Rightarrow> 'd world \<Rightarrow> (bool \<times> 'd world) option" where
  "unregisterUser e barejid w =
     do { found \<leftarrow> db_registered e barejid w;
          case found of
            None \<Rightarrow> Some (False, w)
          | Some info \<Rightarrow>
              do { w \<leftarrow> db_remove e (ui_id info) w;
                   w \<leftarrow> disconnect_registered e barejid w;
                   Some (True, emit [RegOut (UnregisterRosterRequest (ui_jid info)), RegOut (OnUserUnregistered info)] w) } }"

subsection \<open>Answers to the roster requests\<close>

text \<open>The answer of the user's server: \<open>None\<close> is an error or an answer without a roster.\<close>

type_synonym roster_answer = "jid list option"

definition notify_messages :: "'d wenv \<Rightarrow> regconf \<Rightarrow> string \<Rightarrow> string \<Rightarrow> wout list" where
  "notify_messages e rc what jid =
     map (\<lambda>to. Eff (SendMessage (empty_message\<lparr>m_body := Some (what @ jid), m_to := sw_parse (we_sw e) to, m_from := cf_jid (we_cf e)\<rparr>)))
       (rc_notify_jid rc)"

definition handleRegisterRemoteRosterResponse :: "'d wenv \<Rightarrow> regconf \<Rightarrow> roster_answer \<Rightarrow> userinfo \<Rightarrow> 'd world \<Rightarrow> 'd world" where
  "handleRegisterRemoteRosterResponse e rc answer row w =
     emit ((case answer of
              None \<Rightarrow> [send_presence (sw_parse (we_sw e) (ui_jid row)) (cf_jid (we_cf e)) Subscribe]
            | Some _ \<Rightarrow> [RegOut (SetRoster (ui_jid row) (cf_jid (we_cf e)) SubBoth)])
           @ RegOut (OnUserRegistered row) # notify_messages e rc ''registered: '' (ui_jid row)) w"

definition unsubscribe_pair :: "'d wenv \<Rightarrow> userinfo \<Rightarrow> jid \<Rightarrow> wout list" where
  "unsubscribe_pair e info from =
     (let to = sw_parse (we_sw e) (ui_jid info) in [send_presence to from Unsubscribe, send_presence to from Unsubscribed])"

definition contact_jid :: "'d wenv \<Rightarrow> buddyinfo \<Rightarrow> jid" where
  "contact_jid e b =
     sw_jid (we_sw e) (safe_name (we_sw e) (bi_flags b) (bi_legacyName b)) (sw_str (we_sw e) (cf_jid (we_cf e))) None"

definition handleUnregisterRemoteRosterResponse ::
  "'d wenv \<Rightarrow> regconf \<Rightarrow> roster_answer \<Rightarrow> userinfo \<Rightarrow> 'd world \<Rightarrow> 'd world option" where
  "handleUnregisterRemoteRosterResponse e rc answer info w =
     do { st \<leftarrow> we_store e;
          let w = emit (case answer of
                          None \<Rightarrow> concat (map (\<lambda>b. unsubscribe_pair e info (contact_jid e b)) (st_getBuddies st (w_db w) (ui_id info)))
                        | Some items \<Rightarrow> map (\<lambda>j. RegOut (SetRoster (ui_jid info) j SubRemove))
                            (filter (\<lambda>j. jid_domain j = jid_domain (cf_jid (we_cf e))) items)) w;
          w \<leftarrow> db_remove e (ui_id info) w;
          w \<leftarrow> disconnect_registered e (ui_jid info) w;
          Some (emit ((case answer of
                         None \<Rightarrow> unsubscribe_pair e info (cf_jid (we_cf e))
                       | Some _ \<Rightarrow> [RegOut (SetRoster (ui_jid info) (cf_jid (we_cf e)) SubRemove)])
                      @ notify_messages e rc ''unregistered: '' (ui_jid info)) w) }"

subsection \<open>The registration form\<close>

definition needPassword :: "'d wenv \<Rightarrow> bool" where
  "needPassword e = dflt (cf_needPassword (we_cf e)) True"

definition generateRegistrationForm :: "'d wenv \<Rightarrow> regconf \<Rightarrow> userinfo \<Rightarrow> bool \<Rightarrow> form" where
  "generateRegistrationForm e rc res registered =
     (let form = \<lparr>fm_title = ''Registration'', fm_instructions = rc_instructions rc, fm_fields = []\<rparr>;
          form = addField (createHiddenField ''FORM_TYPE'' ''jabber:iq:register'') form;
          form = addField (createTextSingleField ''username'' (ui_uin res) (rc_username_label rc) True) form;
          form = (if needPassword e then addField (createTextPrivateField ''password'' ''Password'' True) form else form);
          form = addField (createListSingleField ''language'' (rc_language rc, rc_language rc) ''Language''
                   (if registered then ui_language res else rc_language rc) False) form
      in if registered then addField (createBooleanField ''unregister'' ''0'' ''Remove your registration'' False) form
         else if rc_require_local rc
         then addField (createTextSingleField ''local_password'' [] ''Local password'' True)
                (addField (createTextSingleField ''local_username'' [] (rc_local_username_label rc) True) form)
         else form)"

definition generateInBandRegistrationPayload :: "'d wenv \<Rightarrow> regconf \<Rightarrow> userinfo option \<Rightarrow> regpayload" where
  "generateInBandRegistrationPayload e rc found =
     (let res = (case found of None \<Rightarrow> we_uninit e | Some info \<Rightarrow> info); registered = (found \<noteq> None)
      in \<lparr>rp_instructions = rc_instructions rc, rp_registered = registered, rp_remove = False,
          rp_username = Some (ui_uin res), rp_password = (if needPassword e then Some [] else None),
          rp_form = Some (generateRegistrationForm e rc res registered)\<rparr>)"

text \<open>The two checks with which both handlers begin.\<close>

definition may_register :: "regconf \<Rightarrow> jid \<Rightarrow> bool" where
  "may_register rc from \<longleftrightarrow> rc_protocol rc \<noteq> ''irc'' \<and> (rc_public rc \<or> jid_domain from \<in> set (rc_allowed_servers rc))"

definition reg_handleGetRequest :: "'d wenv \<Rightarrow> regconf \<Rightarrow> jid \<Rightarrow> string \<Rightarrow> 'd world \<Rightarrow> 'd world option" where
  "reg_handleGetRequest e rc from iqid w =
     (if \<not> may_register rc from then Some (emit [RegOut (RegError from iqid BadRequest)] w)
      else do { found \<leftarrow> db_registered e (bare_str e from) w;
                Some (emit [RegOut (RegResponse from iqid (Some (generateInBandRegistrationPayload e rc found)))] w) })"

text \<open>\<open>boost::replace_all\<close>\<close>

fun replace_all :: "string \<Rightarrow> string \<Rightarrow> string \<Rightarrow> string" where
  "replace_all pat rep [] = []"
| "replace_all pat rep (c # s) =
     (if pat \<noteq> [] \<and> is_prefix pat (c # s) then rep @ replace_all pat rep (drop (length pat - 1) s)
      else c # replace_all pat rep s)"

text \<open>What the form adds to the payload.\<close>

definition read_form :: "regpayload \<Rightarrow> regpayload" where
  "read_form p =
     (case rp_form p of
        None \<Rightarrow> p
      | Some form \<Rightarrow>
          (let p = (if fieldValue form ''username'' [] \<noteq> [] then p\<lparr>rp_username := Some (fieldValue form ''username'' [])\<rparr> else p);
               p = (if fieldValue form ''password'' [] \<noteq> [] then p\<lparr>rp_password := Some (fieldValue form ''password'' [])\<rparr> else p)
           in if fieldValue form ''unregister'' [] \<in> {''1'', ''true''} then p\<lparr>rp_remove := True\<rparr> else p))"

definition form_field :: "regpayload \<Rightarrow> string \<Rightarrow> string" where
  "form_field p key = (case rp_form p of None \<Rightarrow> [] | Some form \<Rightarrow> fieldValue form key [])"

definition masked_username :: "regconf \<Rightarrow> string \<Rightarrow> string" where
  "masked_username rc username =
     (if rc_username_mask rc \<noteq> [] then replace_all ''$username'' username (rc_username_mask rc) else username)"

text \<open>
  The checks of a request that is not a removal, in the order of the code: the answer that refuses it,
  or the user name and password to store.
\<close>

datatype regcheck = Refuse regout | Accept string string

definition check_registration :: "'d wenv \<Rightarrow> regconf \<Rightarrow> jid \<Rightarrow> string \<Rightarrow> regpayload \<Rightarrow> string list \<Rightarrow> regcheck" where
  "check_registration e rc from iqid p legacyUsers =
     (let lu = form_field p ''local_username''; lp = form_field p ''local_password''
      in if rc_require_local rc \<and> (lu = [] \<or> lp = []) then Refuse (RegResponse from iqid None)
         else if rc_require_local rc \<and> \<not> rc_local_login rc lu lp then Refuse (RegError from iqid NotAuthorized)
         else case rp_username p of
           None \<Rightarrow> Refuse (RegError from iqid NotAcceptable)
         | Some username \<Rightarrow>
             if rp_password p = None \<and> needPassword e \<or> username = []
                \<or> sw_valid (we_sw e) (sw_parse (we_sw e) username) \<and> jid_bare (sw_parse (we_sw e) username) = jid_bare from
                \<or> \<not> needPassword e \<and> username \<in> set legacyUsers
             then Refuse (RegError from iqid NotAcceptable)
             else if (case rc_allowed_usernames rc of None \<Rightarrow> True | Some matches \<Rightarrow> matches (masked_username rc username))
             then Accept (masked_username rc username) (case rp_password p of None \<Rightarrow> [] | Some pw \<Rightarrow> pw)
             else Refuse (RegError from iqid NotAcceptable))"

definition reg_handleSetRequest :: "'d wenv \<Rightarrow> regconf \<Rightarrow> jid \<Rightarrow> string \<Rightarrow> regpayload \<Rightarrow> 'd world \<Rightarrow> 'd world option" where
  "reg_handleSetRequest e rc from iqid payload w =
     (if \<not> may_register rc from then Some (emit [RegOut (RegError from iqid BadRequest)] w)
      else do {
        found \<leftarrow> db_registered e (bare_str e from) w;
        st \<leftarrow> we_store e;
        let p = read_form payload;
        if rp_remove p
        then do { (_, w) \<leftarrow> unregisterUser e (bare_str e from) w;
                  Some (emit [RegOut (RegResponse from iqid None)] w) }
        else case check_registration e rc from iqid p (snd (st_getLegacyNetworkUsers st (w_db w))) of
          Refuse out \<Rightarrow> Some (emit [RegOut out] w)
        | Accept username password \<Rightarrow>
            let res = (case found of None \<Rightarrow> (we_uninit e)\<lparr>ui_vip := False, ui_id := 0\<rparr> | Some info \<Rightarrow> info)
                  \<lparr>ui_jid := bare_str e from, ui_uin := username, ui_password := password,
                   ui_language := form_field p ''language'', ui_encoding := form_field p ''encoding''\<rparr>
            in do { w \<leftarrow> (if found = None then map_option snd (registerUser e res False w)
                         else Some (w\<lparr>w_db := st_setUser st res (w_db w)\<rparr>));
                    Some (emit [RegOut (RegResponse from iqid None)] w) } })"

subsection \<open>\<open>UsersReconnecter\<close>\<close>

record reconnecter =
  rec_users :: "string list"
  rec_started :: bool
  rec_timer :: bool

definition new_reconnecter :: reconnecter where
  "new_reconnecter = \<lparr>rec_users = [], rec_started = False, rec_timer = False\<rparr>"

text \<open>\<open>XMPPFrontend::reconnectUser\<close>; an exception while the address is parsed ends it silently.\<close>

definition reconnectUser :: "'d wenv \<Rightarrow> (string \<Rightarrow> jid option) \<Rightarrow> string \<Rightarrow> 'd world \<Rightarrow> 'd world" where
  "reconnectUser e parse user w =
     (if w_server e then w
      else case parse user of None \<Rightarrow> w | Some j \<Rightarrow> emit [send_presence j (cf_jid (we_cf e)) Probe] w)"

definition reconnectNextUser :: "'d wenv \<Rightarrow> (string \<Rightarrow> jid option) \<Rightarrow> reconnecter \<times> 'd world \<Rightarrow> reconnecter \<times> 'd world" where
  "reconnectNextUser e parse rw =
     (case rw of (r, w) \<Rightarrow>
        if rec_users r = [] then (r, w)
        else (r\<lparr>rec_users := butlast (rec_users r), rec_timer := True\<rparr>, reconnectUser e parse (last (rec_users r)) w))"

definition rec_handleConnected :: "'d wenv \<Rightarrow> regconf \<Rightarrow> (string \<Rightarrow> jid option) \<Rightarrow> reconnecter \<times> 'd world \<Rightarrow> (reconnecter \<times> 'd world) option" where
  "rec_handleConnected e rc parse rw =
     (case rw of (r, w) \<Rightarrow>
        if rec_started r then Some (r, w)
        else do { st \<leftarrow> we_store e;
                  let users = snd (if dflt (rc_reconnect_all rc) False then st_getUsers st (w_db w) else st_getOnlineUsers st (w_db w));
                  Some (reconnectNextUser e parse (r\<lparr>rec_started := True, rec_users := rec_users r @ users\<rparr>, w)) })"

text \<open>The timer of a second between two users.\<close>

definition rec_tick :: "'d wenv \<Rightarrow> (string \<Rightarrow> jid option) \<Rightarrow> reconnecter \<times> 'd world \<Rightarrow> reconnecter \<times> 'd world" where
  "rec_tick e parse rw =
     (case rw of (r, w) \<Rightarrow> if rec_timer r then reconnectNextUser e parse (r\<lparr>rec_timer := False\<rparr>, w) else (r, w))"

section \<open>The invariant of the user manager\<close>

lemma same_users_db [simp]: "same_users w (w\<lparr>w_db := d\<rparr>)"
  by (simp add: same_users_def)

lemma um_inv_db: "um_inv G e w \<Longrightarrow> um_inv G e (w\<lparr>w_db := d\<rparr>)" "um_inv G e w \<Longrightarrow> um_inv G e (emit os w)"
  by (auto intro: um_inv_same)

lemma disconnect_registered_keeps: "um_keeps {} e (disconnect_registered e j)"
proof -
  have "um_keeps {} e (\<lambda>w. Option.bind (um_getUser e j w) (\<lambda>(uo, w). case uo of None \<Rightarrow> Some w | Some u \<Rightarrow> um_removeUser e u True w))"
    by (rule um_keeps_getUser) (simp_all add: um_keeps_id removeUser_keeps)
  then show ?thesis by (rule um_keeps_def_of [OF disconnect_registered_def])
qed

lemma db_remove_keeps: "um_keeps G e (db_remove e i)"
  by (rule um_keepsI) (auto simp: db_remove_def bind_eq_Some_conv intro: um_inv_db)

lemma registerUser_inv: "um_inv G e w \<Longrightarrow> registerUser e row b w = Some (r, w') \<Longrightarrow> um_inv G e w'"
  by (auto simp: registerUser_def bind_eq_Some_conv Let_def split: if_splits intro: um_inv_db)

lemma unregisterUser_inv:
  assumes "um_inv {} e w" and "unregisterUser e j w = Some (r, w')"
  shows "um_inv {} e w'"
proof (cases "db_registered e j w")
  case (Some found)
  show ?thesis
  proof (cases found)
    case (Some info)
    then obtain w1 w2 where "db_remove e (ui_id info) w = Some w1" "disconnect_registered e j w1 = Some w2" and w': "\<exists>os. w' = emit os w2"
      using assms(2) \<open>db_registered e j w = Some found\<close> by (auto simp: unregisterUser_def bind_eq_Some_conv)
    then have "um_inv {} e w2" using um_keepsD [OF db_remove_keeps assms(1)] um_keepsD [OF disconnect_registered_keeps] by blast
    then show ?thesis using w' by (auto intro: um_inv_db)
  qed (use assms Some in \<open>auto simp: unregisterUser_def\<close>)
qed (use assms in \<open>auto simp: unregisterUser_def\<close>)

lemma reg_handleGetRequest_keeps: "um_keeps G e (reg_handleGetRequest e rc from iqid)"
  by (rule um_keepsI) (auto simp: reg_handleGetRequest_def bind_eq_Some_conv split: if_splits intro: um_inv_db)

lemma reg_handleSetRequest_keeps: "um_keeps {} e (reg_handleSetRequest e rc from iqid p)"
  by (rule um_keepsI)
     (auto simp: reg_handleSetRequest_def bind_eq_Some_conv Let_def split: if_splits regcheck.splits
       intro!: um_inv_db elim: unregisterUser_inv [rotated] registerUser_inv [rotated])

lemma handleUnregisterRemoteRosterResponse_keeps: "um_keeps {} e (handleUnregisterRemoteRosterResponse e rc answer info)"
proof (rule um_keepsI)
  fix w w' assume inv: "um_inv {} e w" and "handleUnregisterRemoteRosterResponse e rc answer info w = Some w'"
  then obtain os w1 w2 os' where "db_remove e (ui_id info) (emit os w) = Some w1" "disconnect_registered e (ui_jid info) w1 = Some w2"
    and w': "w' = emit os' w2"
    by (auto simp: handleUnregisterRemoteRosterResponse_def bind_eq_Some_conv)
  then have "um_inv {} e w2"
    using um_keepsD [OF db_remove_keeps um_inv_db(2) [OF inv]] um_keepsD [OF disconnect_registered_keeps] by blast
  then show "um_inv {} e w'" by (simp add: w' um_inv_db)
qed

section \<open>A configuration\<close>

definition witness_regconf :: regconf where
  "witness_regconf = \<lparr>rc_protocol = ''xmpp'', rc_public = True, rc_allowed_servers = [], rc_require_local = False,
     rc_local_login = (\<lambda>_ _. False), rc_username_mask = ''$username@chat'', rc_allowed_usernames = None, rc_notify_jid = [],
     rc_instructions = [], rc_username_label = [], rc_local_username_label = [], rc_language = ''en'', rc_reconnect_all = None\<rparr>"

end
