(* ===== verification/Admin.thy ===== *)
theory Admin
  imports Registration
begin

text \<open>
  The administration interface, \<open>libtransport/AdminInterface.cpp\<close> and \<open>AdminInterfaceCommand.cpp\<close>: variables
  and commands that administrators read and execute with messages to the bare address of the
  transport, and that backends query. \<open>None\<close> is a null pointer or a vector read beyond its end.

  Parameters: the fields of the registration form of the frontend, the memory of the server process,
  the result of re-reading the configuration file, and the OAuth2 functions of the frontend. Amounts of
  memory are whole kilobytes. The classes for per-backend statistics that \<open>AdminInterface\<close> never adds are
  not modelled.
\<close>

section \<open>Commands\<close>

record aenv =
  ae_start :: int
  ae_fields :: string
  ae_rss :: int
  ae_shared :: int
  ae_reload :: bool
  ae_setOAuth2Code :: "string \<Rightarrow> string \<Rightarrow> string"
  ae_getOAuth2URL :: "string list \<Rightarrow> string"
  ae_registration :: bool

datatype category = General | UsersCat | Messages | Frontend | Backends | Memory

datatype admincontext = GlobalContext | UserContext

datatype accessmode = AdminMode | UserMode

datatype action = ActNone | ActGet | ActSet | ActExecute

text \<open>The values of the enumerations, which the code combines bitwise.\<close>

fun action_bits :: "action \<Rightarrow> int" where
  "action_bits ActNone = 0" | "action_bits ActGet = 1" | "action_bits ActSet = 2" | "action_bits ActExecute = 4"

fun mode_bits :: "accessmode \<Rightarrow> int" where
  "mode_bits AdminMode = 0" | "mode_bits UserMode = 1"

fun context_bits :: "admincontext \<Rightarrow> int" where
  "context_bits GlobalContext = 0" | "context_bits UserContext = 1"

datatype command =
    StatusCommand | UptimeCommand | OnlineUsersCommand | OnlineUsersCountCommand | ReloadCommand | HasOnlineUserCommand
  | BackendsCountCommand | ResMemoryCommand | ShrMemoryCommand | UsedMemoryCommand | AverageMemoryPerUserCommand
  | CrashedBackendsCountCommand | CrashedBackendsCommand | MessagesFromXMPPCommand | MessagesToXMPPCommand
  | SetOAuth2CodeCommand | GetOAuth2URLCommand | HelpCommand | ArgsCommand | CommandsCommand | VariablesCommand
  | RegisterCommand | UnregisterCommand

record arginfo =
  ar_name :: string
  ar_label :: string
  ar_type :: string
  ar_example :: string

record cmdinfo =
  ci_name :: string
  ci_category :: category
  ci_context :: admincontext
  ci_mode :: accessmode
  ci_action :: action
  ci_label :: string
  ci_desc :: string
  ci_args :: "arginfo list"

fun getCategoryName :: "category \<Rightarrow> string" where
  "getCategoryName General = ''General''"
| "getCategoryName UsersCat = ''Users''"
| "getCategoryName Messages = ''Messages''"
| "getCategoryName Frontend = ''Frontend''"
| "getCategoryName Backends = ''Backends''"
| "getCategoryName Memory = ''Memory''"

definition variable_info :: "string \<Rightarrow> category \<Rightarrow> string \<Rightarrow> cmdinfo" where
  "variable_info name cat desc = \<lparr>ci_name = name, ci_category = cat, ci_context = GlobalContext, ci_mode = AdminMode,
     ci_action = ActGet, ci_label = [], ci_desc = desc, ci_args = []\<rparr>"

definition command_info :: "string \<Rightarrow> category \<Rightarrow> accessmode \<Rightarrow> string \<Rightarrow> string \<Rightarrow> arginfo list \<Rightarrow> cmdinfo" where
  "command_info name cat mode label desc args = \<lparr>ci_name = name, ci_category = cat, ci_context = GlobalContext, ci_mode = mode,
     ci_action = ActExecute, ci_label = label, ci_desc = desc, ci_args = args\<rparr>"

definition arg :: "string \<Rightarrow> string \<Rightarrow> string \<Rightarrow> string \<Rightarrow> arginfo" where
  "arg name label type example = \<lparr>ar_name = name, ar_label = label, ar_type = type, ar_example = example\<rparr>"

text \<open>
  The arguments of the commands that ask for the fields of the registration form. The number of
  fields is compared with the length of the text, not with the number of its lines.
\<close>

definition registration_args :: "string \<Rightarrow> arginfo list option" where
  "registration_args fs =
     (let args = split_at_char newline fs;
          n = 1 + (if length fs > 1 then 1 else 0) + (if length fs > 2 then 1 else 0)
      in if n \<le> length args
         then Some (take n [arg ''username'' (args ! 0) ''string'' [], arg ''legacy_username'' (args ! 1) ''string'' [],
                            arg ''legacy_password'' (args ! 2) ''password'' []])
         else None)"

definition fields_args :: "aenv \<Rightarrow> arginfo list" where
  "fields_args a = (case registration_args (ae_fields a) of None \<Rightarrow> [] | Some args \<Rightarrow> args)"

text \<open>The constructors of the commands.\<close>

definition new_StatusCommand :: "cmdinfo" where
  [simp]: "new_StatusCommand =
     variable_info ''status'' General ''Shows instance status''"

definition new_UptimeCommand :: "cmdinfo" where
  [simp]: "new_UptimeCommand =
     variable_info ''uptime'' General ''Returns ptime in seconds''"

definition new_OnlineUsersCommand :: "cmdinfo" where
  [simp]: "new_OnlineUsersCommand =
     command_info ''online_users'' UsersCat AdminMode ''Online users'' ''Returns list of all online users'' []"

definition new_OnlineUsersCountCommand :: "cmdinfo" where
  [simp]: "new_OnlineUsersCountCommand =
     variable_info ''online_users_count'' UsersCat ''Number of online users''"

definition new_ReloadCommand :: "cmdinfo" where
  [simp]: "new_ReloadCommand =
     command_info ''reload'' General AdminMode ''Reload Spectrum 2 configuration'' ''Reloads config file'' []"

definition new_HasOnlineUserCommand :: "cmdinfo" where
  [simp]: "new_HasOnlineUserCommand =
     command_info ''has_online_user'' UsersCat AdminMode ''Has online user'' ''Returns 1 if user is online''
     [arg ''username'' ''Username'' ''string'' ''user@domain.tld'']"

definition new_BackendsCountCommand :: "cmdinfo" where
  [simp]: "new_BackendsCountCommand =
     variable_info ''backends_count'' Backends ''Number of active backends''"

definition new_ResMemoryCommand :: "cmdinfo" where
  [simp]: "new_ResMemoryCommand =
     variable_info ''res_memory'' Memory ''Total RESident memory Spectrum 2 and its backends use in KB''"

definition new_ShrMemoryCommand :: "cmdinfo" where
  [simp]: "new_ShrMemoryCommand =
     variable_info ''shr_memory'' Memory ''Total SHaRed memory spectrum2 backends share together in KB''"

definition new_UsedMemoryCommand :: "cmdinfo" where
  [simp]: "new_UsedMemoryCommand =
     variable_info ''used_memory'' Memory ''(res_memory - shr_memory)''"

definition new_AverageMemoryPerUserCommand :: "cmdinfo" where
  [simp]: "new_AverageMemoryPerUserCommand =
     variable_info ''average_memory_per_user'' Memory ''(memory_used_without_any_user - res_memory)''"

definition new_CrashedBackendsCountCommand :: "cmdinfo" where
  [simp]: "new_CrashedBackendsCountCommand =
     variable_info ''crashed_backends_count'' Backends ''Returns number of crashed backends''"

definition new_CrashedBackendsCommand :: "cmdinfo" where
  [simp]: "new_CrashedBackendsCommand =
     variable_info ''crashed_backends'' Backends ''Returns IDs of crashed backends''"

definition new_MessagesFromXMPPCommand :: "cmdinfo" where
  [simp]: "new_MessagesFromXMPPCommand =
     variable_info ''messages_from_xmpp'' Messages ''Returns number of messages received from frontend network''"

definition new_MessagesToXMPPCommand :: "cmdinfo" where
  [simp]: "new_MessagesToXMPPCommand =
     variable_info ''messages_to_xmpp'' Messages ''Returns number of messages sent to Front network''"

definition new_SetOAuth2CodeCommand :: "cmdinfo" where
  [simp]: "new_SetOAuth2CodeCommand =
     command_info ''set_oauth2_code'' Frontend AdminMode []
     ''set_oauth2_code <code> <state> - sets the OAuth2 code and state for this instance'' []"

definition new_GetOAuth2URLCommand :: "aenv \<Rightarrow> cmdinfo" where
  [simp]: "new_GetOAuth2URLCommand a =
     command_info ''get_oauth2_url'' Frontend AdminMode [] ''get_oauth2_code - Get OAUth2 URL'' (fields_args a)"

definition new_HelpCommand :: "cmdinfo" where
  [simp]: "new_HelpCommand =
     command_info ''help'' General AdminMode ''Help'' ''Shows help message'' []"

definition new_ArgsCommand :: "cmdinfo" where
  [simp]: "new_ArgsCommand =
     command_info ''args'' General AdminMode (''Command'' @ [CHR 0x27] @ ''s arguments'')
     ''Shows description of arguments for command'' [arg ''command'' ''Command'' ''string'' ''register'']"

definition new_CommandsCommand :: "cmdinfo" where
  [simp]: "new_CommandsCommand =
     command_info ''commands'' General AdminMode ''Available commands''
     ''Shows all the available commands with extended information.'' []"

definition new_VariablesCommand :: "cmdinfo" where
  [simp]: "new_VariablesCommand =
     command_info ''variables'' General AdminMode ''Available variables'' ''Shows all the available variables.'' []"

definition new_RegisterCommand :: "aenv \<Rightarrow> cmdinfo" where
  [simp]: "new_RegisterCommand a =
     command_info ''register'' UsersCat UserMode ''Register'' ''Registers the new user'' (fields_args a)"

definition new_UnregisterCommand :: "cmdinfo" where
  [simp]: "new_UnregisterCommand =
     (command_info ''unregister'' UsersCat UserMode ''Unregister'' ''Unregisters existing user'' [])\<lparr>ci_context := UserContext\<rparr>"

fun cmd_info :: "aenv \<Rightarrow> command \<Rightarrow> cmdinfo" where
  "cmd_info a StatusCommand = new_StatusCommand"
| "cmd_info a UptimeCommand = new_UptimeCommand"
| "cmd_info a OnlineUsersCommand = new_OnlineUsersCommand"
| "cmd_info a OnlineUsersCountCommand = new_OnlineUsersCountCommand"
| "cmd_info a ReloadCommand = new_ReloadCommand"
| "cmd_info a HasOnlineUserCommand = new_HasOnlineUserCommand"
| "cmd_info a BackendsCountCommand = new_BackendsCountCommand"
| "cmd_info a ResMemoryCommand = new_ResMemoryCommand"
| "cmd_info a ShrMemoryCommand = new_ShrMemoryCommand"
| "cmd_info a UsedMemoryCommand = new_UsedMemoryCommand"
| "cmd_info a AverageMemoryPerUserCommand = new_AverageMemoryPerUserCommand"
| "cmd_info a CrashedBackendsCountCommand = new_CrashedBackendsCountCommand"
| "cmd_info a CrashedBackendsCommand = new_CrashedBackendsCommand"
| "cmd_info a MessagesFromXMPPCommand = new_MessagesFromXMPPCommand"
| "cmd_info a MessagesToXMPPCommand = new_MessagesToXMPPCommand"
| "cmd_info a SetOAuth2CodeCommand = new_SetOAuth2CodeCommand"
| "cmd_info a GetOAuth2URLCommand = new_GetOAuth2URLCommand a"
| "cmd_info a HelpCommand = new_HelpCommand"
| "cmd_info a ArgsCommand = new_ArgsCommand"
| "cmd_info a CommandsCommand = new_CommandsCommand"
| "cmd_info a VariablesCommand = new_VariablesCommand"
| "cmd_info a RegisterCommand = new_RegisterCommand a"
| "cmd_info a UnregisterCommand = new_UnregisterCommand"

text \<open>The constructor of \<open>AdminInterface\<close>: \<open>addCommand\<close> for each of these.\<close>

definition added_commands :: "aenv \<Rightarrow> command list" where
  "added_commands a =
     [StatusCommand, UptimeCommand, OnlineUsersCommand, OnlineUsersCountCommand, ReloadCommand, HasOnlineUserCommand,
      BackendsCountCommand, ResMemoryCommand, ShrMemoryCommand, UsedMemoryCommand, AverageMemoryPerUserCommand,
      CrashedBackendsCountCommand, CrashedBackendsCommand, MessagesFromXMPPCommand, MessagesToXMPPCommand,
      SetOAuth2CodeCommand, GetOAuth2URLCommand, HelpCommand, ArgsCommand, CommandsCommand, VariablesCommand]
     @ (if ae_registration a then [RegisterCommand, UnregisterCommand] else [])"

definition addCommand :: "aenv \<Rightarrow> command \<Rightarrow> (string, command) smap \<Rightarrow> (string, command) smap" where
  "addCommand a c = smap_put (ci_name (cmd_info a c)) c"

definition new_AdminInterface :: "aenv \<Rightarrow> (string, command) smap option" where
  "new_AdminInterface a =
     (if registration_args (ae_fields a) = None then None else Some (fold (addCommand a) (added_commands a) []))"

section \<open>Requests\<close>

text \<open>\<open>boost::lexical_cast<std::string>\<close> of an integer.\<close>

fun nat_str :: "nat \<Rightarrow> string" where
  "nat_str n = (if n < 10 then [char_of (48 + n)] else nat_str (n div 10) @ [char_of (48 + n mod 10)])"

definition int_str :: "int \<Rightarrow> string" where
  "int_str i = (if i < 0 then CHR ''-'' # nat_str (nat (- i)) else nat_str (nat i))"

text \<open>\<open>AdminInterfaceCommand::handleSetRequest\<close>, \<open>handleGetRequest\<close> and \<open>handleExecuteRequest\<close>: the error, or the empty text.\<close>

definition no_rights :: "cmdinfo \<Rightarrow> bool \<Rightarrow> bool" where
  "no_rights ci user \<longleftrightarrow> user \<and> mode_bits (ci_mode ci) AND mode_bits AdminMode \<noteq> 0"

definition no_user :: "cmdinfo \<Rightarrow> int \<Rightarrow> bool \<Rightarrow> bool" where
  "no_user ci uid user \<longleftrightarrow> \<not> user \<and> uid = -1 \<and> context_bits (ci_context ci) AND context_bits UserContext \<noteq> 0"

definition base_handleSetRequest :: "cmdinfo \<Rightarrow> int \<Rightarrow> bool \<Rightarrow> string list \<Rightarrow> string" where
  "base_handleSetRequest ci uid user args =
     (if action_bits (ci_action ci) AND action_bits ActSet = 0 then ''Error: This variable cannot be set.''
      else if no_rights ci user then ''Error: You do not have rights to set this variable.''
      else if no_user ci uid user then ''Error: This variable can be set only in user context.''
      else if args = [] then ''Error: Value is missing.'' else [])"

definition base_handleGetRequest :: "cmdinfo \<Rightarrow> int \<Rightarrow> bool \<Rightarrow> string" where
  "base_handleGetRequest ci uid user =
     (if action_bits (ci_action ci) AND action_bits ActGet = 0 then ''Error: This variable cannot be get.''
      else if no_rights ci user then ''Error: You do not have rights to get this variable.''
      else if no_user ci uid user then ''Error: This variable can be get only in user context.'' else [])"

definition base_handleExecuteRequest :: "cmdinfo \<Rightarrow> int \<Rightarrow> bool \<Rightarrow> string list \<Rightarrow> string" where
  "base_handleExecuteRequest ci uid user args =
     (if action_bits (ci_action ci) AND action_bits ActExecute = 0 then ''Error: This is not a command, but a variable.''
      else if no_rights ci user then ''Error: You do not have rights to execute this command.''
      else if no_user ci uid user then ''Error: This command can be executed only in user context.''
      else if length (ci_args ci) > length args then ''Error: Argument is missing.''
      else if length (ci_args ci) < length args then ''Error: Too many arguments.'' else [])"

section \<open>Variables\<close>

text \<open>The backends of the list \<open>m_clients\<close>; \<open>None\<close> is a dangling pointer.\<close>

fun backends_of :: "pool \<Rightarrow> nat list \<Rightarrow> backend list option" where
  "backends_of P [] = Some []"
| "backends_of P (b # bs) = do { bk \<leftarrow> smap_get (p_heap P) b; bks \<leftarrow> backends_of P bs; Some (bk # bks) }"

definition getBackends :: "'d world \<Rightarrow> backend list option" where
  "getBackends w = backends_of (w_pool w) (p_clients (w_pool w))"

definition getUserCount :: "'d world \<Rightarrow> int" where
  "getUserCount w = int (length (w_users w))"

definition getBackendCount :: "'d world \<Rightarrow> int" where
  "getBackendCount w = int (length (p_clients (w_pool w)))"

definition average_memory :: "'d world \<Rightarrow> string option" where
  "average_memory w =
     (if getUserCount w = 0 then Some (int_str 0)
      else do { bks \<leftarrow> getBackends w;
                Some (int_str (sum_list (map (\<lambda>bk. if be_res bk \<ge> be_init_res bk then be_res bk - be_init_res bk else 0) bks)
                       div getUserCount w)) })"

text \<open>\<open>handleGetRequest\<close> of the variables, after the check of the base class.\<close>

definition get_Status :: "'d world \<Rightarrow> string option" where
  [simp]: "get_Status w =
     Some (''Running ('' @ int_str (getUserCount w) @ '' users connected using ''
     @ int_str (getBackendCount w) @ '' backends)'')"

definition get_Uptime :: "aenv \<Rightarrow> 'd wenv \<Rightarrow> string option" where
  [simp]: "get_Uptime a e =
     Some (int_str (we_now e - ae_start a))"

definition get_OnlineUsersCount :: "'d world \<Rightarrow> string option" where
  [simp]: "get_OnlineUsersCount w =
     Some (int_str (getUserCount w))"

definition get_BackendsCount :: "'d world \<Rightarrow> string option" where
  [simp]: "get_BackendsCount w =
     Some (int_str (getBackendCount w))"

definition get_ResMemory :: "aenv \<Rightarrow> 'd world \<Rightarrow> string option" where
  [simp]: "get_ResMemory a w =
     map_option (\<lambda>bks. int_str (ae_rss a + sum_list (map be_res bks))) (getBackends w)"

definition get_ShrMemory :: "aenv \<Rightarrow> 'd world \<Rightarrow> string option" where
  [simp]: "get_ShrMemory a w =
     map_option (\<lambda>bks. int_str (ae_shared a + sum_list (map be_shared bks))) (getBackends w)"

definition get_UsedMemory :: "aenv \<Rightarrow> 'd world \<Rightarrow> string option" where
  [simp]: "get_UsedMemory a w =
     map_option (\<lambda>bks. int_str (ae_rss a - ae_shared a + sum_list (map (\<lambda>bk. be_res bk - be_shared bk) bks))) (getBackends w)"

definition get_CrashedBackendsCount :: "'d world \<Rightarrow> string option" where
  [simp]: "get_CrashedBackendsCount w =
     Some (int_str (int (length (p_crashed (w_pool w)))))"

definition get_CrashedBackends :: "'d world \<Rightarrow> string option" where
  [simp]: "get_CrashedBackends w =
     Some (concat (map (\<lambda>b. b @ [newline]) (p_crashed (w_pool w))))"

definition get_MessagesFromXMPP :: "'d world \<Rightarrow> string option" where
  [simp]: "get_MessagesFromXMPP w =
     Some (int_str (w_sentToBackend w))"

definition get_MessagesToXMPP :: "'d world \<Rightarrow> string option" where
  [simp]: "get_MessagesToXMPP w =
     Some (int_str (w_sentToXMPP w))"

fun variable_value :: "aenv \<Rightarrow> 'd wenv \<Rightarrow> command \<Rightarrow> 'd world \<Rightarrow> string option" where
  "variable_value a e StatusCommand w = get_Status w"
| "variable_value a e UptimeCommand w = get_Uptime a e"
| "variable_value a e OnlineUsersCountCommand w = get_OnlineUsersCount w"
| "variable_value a e BackendsCountCommand w = get_BackendsCount w"
| "variable_value a e ResMemoryCommand w = get_ResMemory a w"
| "variable_value a e ShrMemoryCommand w = get_ShrMemory a w"
| "variable_value a e UsedMemoryCommand w = get_UsedMemory a w"
| "variable_value a e AverageMemoryPerUserCommand w = average_memory w"
| "variable_value a e CrashedBackendsCountCommand w = get_CrashedBackendsCount w"
| "variable_value a e CrashedBackendsCommand w = get_CrashedBackends w"
| "variable_value a e MessagesFromXMPPCommand w = get_MessagesFromXMPP w"
| "variable_value a e MessagesToXMPPCommand w = get_MessagesToXMPP w"
| "variable_value a e _ w = Some []"

definition cmd_handleGetRequest :: "aenv \<Rightarrow> 'd wenv \<Rightarrow> command \<Rightarrow> int \<Rightarrow> bool \<Rightarrow> 'd world \<Rightarrow> string option" where
  "cmd_handleGetRequest a e c uid user w =
     (let ret = base_handleGetRequest (cmd_info a c) uid user
      in if ret \<noteq> [] then Some ret else variable_value a e c w)"

section \<open>Execution\<close>

definition dq :: string where "dq = [CHR 0x22]"

definition sq :: string where "sq = [CHR 0x27]"

definition quoted :: "string \<Rightarrow> string" where "quoted s = dq @ s @ dq"

definition mode_name :: "cmdinfo \<Rightarrow> string" where
  "mode_name ci = (if ci_mode ci = UserMode then '' User'' else '' Admin'')"

definition context_name :: "cmdinfo \<Rightarrow> string" where
  "context_name ci = (if ci_context ci = UserContext then '' User'' else '' Global'')"

definition generateCategory :: "aenv \<Rightarrow> (string, command) smap \<Rightarrow> category \<Rightarrow> string" where
  "generateCategory a cmds cat =
     getCategoryName cat @ '':'' @ [newline] @
     concat (map (\<lambda>(n, c). let ci = cmd_info a c
                in if ci_category ci \<noteq> cat then []
                   else (if action_bits (ci_action ci) AND action_bits ActExecute \<noteq> 0 then ''   CMD   '' else ''   VAR   '')
                        @ ci_name ci @ '' - '' @ ci_desc ci @ [newline]) cmds)"

definition help_text :: "aenv \<Rightarrow> (string, command) smap \<Rightarrow> string" where
  "help_text a cmds = concat (map (generateCategory a cmds) [General, UsersCat, Messages, Frontend, Backends, Memory])"

definition commands_text :: "aenv \<Rightarrow> (string, command) smap \<Rightarrow> string" where
  "commands_text a cmds =
     concat (map (\<lambda>(n, c). let ci = cmd_info a c
                in if action_bits (ci_action ci) AND action_bits ActExecute = 0 then []
                   else ci_name ci @ '' - '' @ quoted (ci_desc ci) @ '' Category: '' @ getCategoryName (ci_category ci)
                        @ '' AccesMode:'' @ mode_name ci @ '' Context:'' @ context_name ci
                        @ '' Label: '' @ quoted (if ci_label ci = [] then ci_name ci else ci_label ci) @ [newline]) cmds)"

fun variables_text :: "aenv \<Rightarrow> 'd wenv \<Rightarrow> int \<Rightarrow> bool \<Rightarrow> (string, command) smap \<Rightarrow> 'd world \<Rightarrow> string option" where
  "variables_text a e uid user [] w = Some []"
| "variables_text a e uid user ((n, c) # cmds) w =
     (let ci = cmd_info a c
      in if action_bits (ci_action ci) AND action_bits ActGet = 0 then variables_text a e uid user cmds w
         else do { v \<leftarrow> cmd_handleGetRequest a e c uid user w;
                   rest \<leftarrow> variables_text a e uid user cmds w;
                   Some (ci_name ci @ '' - '' @ quoted (ci_desc ci) @ '' Value: '' @ quoted v
                     @ (if action_bits (ci_action ci) AND action_bits ActSet = 0 then '' Read-only: true'' else '' Read-only: false'')
                     @ '' Category: '' @ getCategoryName (ci_category ci) @ '' AccesMode:'' @ mode_name ci
                     @ '' Context:'' @ context_name ci @ [newline] @ rest) })"

definition args_text :: "aenv \<Rightarrow> (string, command) smap \<Rightarrow> string list \<Rightarrow> string option" where
  "args_text a cmds args =
     (case args of
        [] \<Rightarrow> None
      | n # _ \<Rightarrow>
          Some (case smap_get cmds n of
                  None \<Rightarrow> ''Error: Unknown command passed as an argument.''
                | Some c \<Rightarrow> concat (map (\<lambda>x. ar_name x @ '' - '' @ quoted (ar_label x) @ '' Example: '' @ quoted (ar_example x)
                               @ '' Type: '' @ quoted (ar_type x) @ [newline]) (ci_args (cmd_info a c)))))"

text \<open>\<open>online_users\<close> reads the name of \<open>user\<close>, which is null for a command without a user context.\<close>

definition online_users_text :: "bool \<Rightarrow> string \<Rightarrow> 'd world \<Rightarrow> string option" where
  "online_users_text user uin w =
     (if w_users w = []
      then Some (''hanzz@njs.netlab.cz '' @ quoted ''3rd-party network username:'' @ '' '' @ quoted ''me'' @ [newline])
      else if \<not> user then None
      else Some (concat (map (\<lambda>(k, u). k @ '' '' @ quoted ''3rd-party network username:'' @ '' '' @ quoted uin @ [newline]) (w_users w))))"

definition register_command :: "'d wenv \<Rightarrow> string list \<Rightarrow> 'd world \<Rightarrow> (string \<times> 'd world) option" where
  "register_command e args w =
     (if length args \<noteq> 2 \<and> length args \<noteq> 3 then Some (''Error: Bad argument count'', w)
      else do { (new, w) \<leftarrow> registerUser e ((we_uninit e)\<lparr>ui_jid := args ! 0, ui_uin := args ! 1,
                   ui_password := (if length args = 2 then [] else args ! 2), ui_language := ''en'', ui_encoding := ''utf-8'',
                   ui_vip := False\<rparr>) False w;
                Some (if new then ''User registered'' else ''Error: User is already registered'', w) })"

text \<open>The answer reads \<open>args[0]\<close>, but the user name has been taken out of \<open>args\<close>.\<close>

definition unregister_command :: "'d wenv \<Rightarrow> string \<Rightarrow> string list \<Rightarrow> 'd world \<Rightarrow> (string \<times> 'd world) option" where
  "unregister_command e ujid args w =
     do { (done, w) \<leftarrow> unregisterUser e ujid w;
          case args of
            [] \<Rightarrow> None
          | x # _ \<Rightarrow> Some ((if done then ''User '' @ sq @ x @ sq @ '' unregistered.''
                           else ''Error: User '' @ sq @ x @ sq @ '' is not registered''), w) }"

definition reload_command :: "aenv \<Rightarrow> string" where
  [simp]: "reload_command a = (if ae_reload a then ''Config reloaded'' else ''Error: Error during config reload'')"

definition has_online_user :: "'d wenv \<Rightarrow> string list \<Rightarrow> 'd world \<Rightarrow> (string \<times> 'd world) option" where
  [simp]: "has_online_user e args w =
     (case args of
        [] \<Rightarrow> Some (''Error: Missing user name as an argument'', w)
      | n # _ \<Rightarrow> do { (uo, w) \<leftarrow> um_getUser e n w; Some (if uo \<noteq> None then ''1'' else ''0'', w) })"

definition set_oauth2_code :: "aenv \<Rightarrow> string list \<Rightarrow> string" where
  [simp]: "set_oauth2_code a args =
     (if length args \<noteq> 2 then ''Error: Bad argument count''
      else if ae_setOAuth2Code a (args ! 0) (args ! 1) = [] then [] else ''OAuth2 code and state set.'')"

definition cmd_handleExecuteRequest ::
  "aenv \<Rightarrow> 'd wenv \<Rightarrow> (string, command) smap \<Rightarrow> command \<Rightarrow> userinfo \<Rightarrow> user option \<Rightarrow> string list \<Rightarrow> 'd world
    \<Rightarrow> (string \<times> 'd world) option" where
  "cmd_handleExecuteRequest a e cmds c uinfo user args w =
     (let ret = base_handleExecuteRequest (cmd_info a c) (ui_id uinfo) (user \<noteq> None) args
      in if ret \<noteq> [] then Some (ret, w)
         else case c of
           OnlineUsersCommand \<Rightarrow>
             map_option (\<lambda>t. (t, w)) (online_users_text (user \<noteq> None) (case user of None \<Rightarrow> [] | Some usr \<Rightarrow> ui_uin (u_info usr)) w)
         | ReloadCommand \<Rightarrow> Some (reload_command a, w)
         | HasOnlineUserCommand \<Rightarrow> has_online_user e args w
         | SetOAuth2CodeCommand \<Rightarrow> Some (set_oauth2_code a args, w)
         | GetOAuth2URLCommand \<Rightarrow> Some (ae_getOAuth2URL a args, w)
         | HelpCommand \<Rightarrow> Some (help_text a cmds, w)
         | ArgsCommand \<Rightarrow> map_option (\<lambda>t. (t, w)) (args_text a cmds args)
         | CommandsCommand \<Rightarrow> Some (commands_text a cmds, w)
         | VariablesCommand \<Rightarrow> map_option (\<lambda>t. (t, w)) (variables_text a e (ui_id uinfo) (user \<noteq> None) cmds w)
         | RegisterCommand \<Rightarrow> register_command e args w
         | UnregisterCommand \<Rightarrow> unregister_command e (ui_jid uinfo) args w
         | _ \<Rightarrow> Some ([], w))"

section \<open>Queries\<close>

text \<open>The user a command in user context is about: his record, if he is registered, and his object, if he is online.\<close>

definition context_user :: "'d wenv \<Rightarrow> string \<Rightarrow> 'd world \<Rightarrow> (userinfo \<times> user option \<times> 'd world) option" where
  "context_user e name w =
     (let uinfo = (case we_store e of
                     None \<Rightarrow> (we_uninit e)\<lparr>ui_id := -1\<rparr>
                   | Some st \<Rightarrow> (case st_getUser st (w_db w) name of None \<Rightarrow> (we_uninit e)\<lparr>ui_id := -1\<rparr> | Some info \<Rightarrow> info))
      in do { (uo, w) \<leftarrow> um_getUser e name w;
              case uo of
                None \<Rightarrow> Some (uinfo, None, w)
              | Some u \<Rightarrow> do { usr \<leftarrow> smap_get (w_heap w) u; Some (uinfo, Some usr, w) } })"

definition run_command ::
  "aenv \<Rightarrow> 'd wenv \<Rightarrow> (string, command) smap \<Rightarrow> action \<Rightarrow> command \<Rightarrow> userinfo \<Rightarrow> user option \<Rightarrow> string list \<Rightarrow> 'd world
    \<Rightarrow> (string \<times> 'd world) option" where
  "run_command a e cmds act c uinfo user args w =
     (case act of
        ActNone \<Rightarrow> Some (''Error: Unknown variable or command'', w)
      | ActGet \<Rightarrow> map_option (\<lambda>t. (t, w)) (cmd_handleGetRequest a e c (ui_id uinfo) (user \<noteq> None) w)
      | ActSet \<Rightarrow> Some (base_handleSetRequest (cmd_info a c) (ui_id uinfo) (user \<noteq> None) args, w)
      | ActExecute \<Rightarrow> cmd_handleExecuteRequest a e cmds c uinfo user args w)"

text \<open>The words of a query: \<open>get\<close> or \<open>set\<close> in front, the name, and the arguments.\<close>

definition query_words :: "string \<Rightarrow> action \<times> string list" where
  "query_words body =
     (let args = split_at_char CHR '' '' body
      in if args ! 0 = ''set'' then (ActSet, tl args) else if args ! 0 = ''get'' then (ActGet, tl args) else (ActNone, args))"

definition default_action :: "cmdinfo \<Rightarrow> action" where
  "default_action ci =
     (if action_bits (ci_action ci) AND action_bits ActGet \<noteq> 0 then ActGet
      else if action_bits (ci_action ci) AND action_bits ActExecute \<noteq> 0 then ActExecute else ActNone)"

definition handleQuery :: "aenv \<Rightarrow> 'd wenv \<Rightarrow> (string, command) smap \<Rightarrow> string \<Rightarrow> 'd world \<Rightarrow> (string \<times> 'd world) option" where
  "handleQuery a e cmds body w =
     (case query_words body of
        (act, []) \<Rightarrow> Some (''Error: Unknown variable or command'', w)
      | (act, name # args) \<Rightarrow>
          (case smap_get cmds name of
             None \<Rightarrow> Some (''Error: Unknown variable or command'', w)
           | Some c \<Rightarrow>
               (let ci = cmd_info a c; act = (if act = ActNone then default_action ci else act)
                in if ci_context ci = UserContext
                   then (case args of
                           [] \<Rightarrow> Some (''Error: No username given'', w)
                         | user # args \<Rightarrow>
                             do { (uinfo, usr, w) \<leftarrow> context_user e user w;
                                  run_command a e cmds act c uinfo usr args w })
                   else run_command a e cmds act c ((we_uninit e)\<lparr>ui_id := -1\<rparr>) None args w)))"

text \<open>\<open>AdminInterface::handleMessageReceived\<close>: the message itself is sent back, with the answer as its body.\<close>

definition admin_handleMessageReceived :: "aenv \<Rightarrow> 'd wenv \<Rightarrow> (string, command) smap \<Rightarrow> message \<Rightarrow> 'd world \<Rightarrow> 'd world option" where
  "admin_handleMessageReceived a e cmds m w =
     (if jid_node (m_to m) \<noteq> [] \<or> \<not> is_admin e (m_from m) then Some w
      else case m_body m of
        None \<Rightarrow> Some w
      | Some body \<Rightarrow>
          if body = [] then Some w
          else do { (answer, w) \<leftarrow> handleQuery a e cmds body w;
                    Some (emit [Eff (SendMessage (m\<lparr>m_to := m_from m, m_from := cf_jid (we_cf e), m_body := Some answer\<rparr>))] w) })"

section \<open>The invariant of the user manager\<close>

lemma context_user_inv: "um_inv {} e w \<Longrightarrow> context_user e name w = Some (i, u, w') \<Longrightarrow> um_inv {} e w'"
  by (rule getUser_inv [of "{}" e w name]) (auto simp: context_user_def Let_def bind_eq_Some_conv split: option.splits)

lemma execute_inv:
  assumes "um_inv {} e w" and "cmd_handleExecuteRequest a e cmds c uinfo user args w = Some (t, w')"
  shows "um_inv {} e w'"
proof (cases "base_handleExecuteRequest (cmd_info a c) (ui_id uinfo) (user \<noteq> None) args = []")
  case True
  obtain w1 where g: "um_getUser e (hd args) w = Some (smap_get (w_users w) (hd args), w1)" "um_inv {} e w1"
    by (rule getUser_inv [OF assms(1)])
  show ?thesis
  proof (cases c)
    case HasOnlineUserCommand
    then show ?thesis using True assms g by (cases args) (auto simp: cmd_handleExecuteRequest_def)
  next
    case RegisterCommand
    then show ?thesis using True assms registerUser_inv
      by (auto simp: cmd_handleExecuteRequest_def register_command_def bind_eq_Some_conv split: if_splits)
  next
    case UnregisterCommand
    then show ?thesis using True assms unregisterUser_inv
      by (cases args) (auto simp: cmd_handleExecuteRequest_def unregister_command_def bind_eq_Some_conv)
  qed (use True assms in \<open>auto simp: cmd_handleExecuteRequest_def split: if_splits\<close>)
qed (use assms in \<open>auto simp: cmd_handleExecuteRequest_def\<close>)

lemma run_command_inv: "um_inv {} e w \<Longrightarrow> run_command a e cmds act c uinfo user args w = Some (t, w') \<Longrightarrow> um_inv {} e w'"
  by (cases act) (auto simp: run_command_def dest: execute_inv)

lemma handleQuery_inv:
  assumes "um_inv {} e w" and "handleQuery a e cmds body w = Some (t, w')"
  shows "um_inv {} e w'"
proof -
  have u: "um_inv {} e w'" if "Option.bind (context_user e n w) (\<lambda>(i, usr, w). run_command a e cmds act c i usr args w) = Some (t, w')" for n act c args
  proof -
    from that obtain i usr w1 where "context_user e n w = Some (i, usr, w1)" "run_command a e cmds act c i usr args w1 = Some (t, w')"
      by (auto simp: bind_eq_Some_conv)
    then show ?thesis using context_user_inv [OF assms(1)] run_command_inv by blast
  qed
  show ?thesis using assms
    by (auto simp: handleQuery_def Let_def split: prod.splits list.splits option.splits if_splits
        intro: u elim: run_command_inv [rotated])
qed

lemma admin_message_keeps: "um_keeps {} e (admin_handleMessageReceived a e cmds m)"
  by (rule um_keepsI)
     (auto simp: admin_handleMessageReceived_def bind_eq_Some_conv split: if_splits option.splits
       intro!: um_inv_db elim: handleQuery_inv [rotated])

end
