(* ===== verification/Media.thy ===== *)
theory Media
  imports Stanza
begin

text \<open>
  Pictures in messages from the legacy network: \<open>wrapIncomingMedia\<close> and its helpers in
  \<open>libtransport/NetworkPluginServer.cpp\<close>. The search with \<open>boost::regex\<close> is a parameter: for a text it
  returns what precedes the first \<open><img>\<close> tag, the tag and the address in it. \<open>None\<close> is a loop that
  does not end, or the access to the body of a message that has none.
\<close>

section \<open>Trimming\<close>

definition lower_char :: "char \<Rightarrow> char" where
  "lower_char c = (if 65 \<le> (of_char c :: nat) \<and> (of_char c :: nat) \<le> 90 then char_of ((of_char c :: nat) + 32) else c)"

definition istarts_with :: "string \<Rightarrow> string \<Rightarrow> bool" where
  "istarts_with t s = is_prefix (map lower_char t) (map lower_char s)"

definition trim_tokens :: "string list" where
  "trim_tokens = ['' '', [CHR 0x0A], [CHR 0x09], ''<br>'', ''<br/>'']"

text \<open>One round of the loop tries every token once; the loop ends when no token matched.\<close>

definition strip_token :: "string \<Rightarrow> string \<Rightarrow> string" where
  "strip_token t s = (if istarts_with t s then drop (length t) s else s)"

lemma strip_tokens_shorter: "length (fold strip_token ts s) \<le> length s"
proof (induction ts arbitrary: s)
  case (Cons t ts)
  have "length (strip_token t s) \<le> length s" by (simp add: strip_token_def)
  with Cons [of "strip_token t s"] show ?case by simp
qed simp

function trim_with :: "string list \<Rightarrow> string \<Rightarrow> string" where
  "trim_with ts s =
     (let s' = fold strip_token ts s
      in if length s' < length s then trim_with ts s' else s)"
  by pat_completeness auto
termination by (relation "measure (\<lambda>(ts, s). length s)") auto

declare trim_with.simps [simp del]

definition xhtml_trim :: "string \<Rightarrow> string" where
  "xhtml_trim s = rev (trim_with (map rev trim_tokens) (rev (trim_with trim_tokens s)))"

definition is_blank :: "char \<Rightarrow> bool" where
  "is_blank c \<longleftrightarrow> c = CHR '' '' \<or> c = CHR 0x0A \<or> c = CHR 0x09"

definition plaintext_trim :: "string \<Rightarrow> string" where
  "plaintext_trim s = dropWhile is_blank (rev (dropWhile is_blank (rev s)))"

text \<open>\<open>s.find(t)\<close>.\<close>

fun find_str :: "string \<Rightarrow> string \<Rightarrow> nat option" where
  "find_str t [] = (if t = [] then Some 0 else None)"
| "find_str t (c # s) = (if is_prefix t (c # s) then Some 0 else map_option Suc (find_str t s))"

section \<open>Splitting a message\<close>

definition is_xhtml :: "payload \<Rightarrow> bool" where
  "is_xhtml p = (case p of XHTMLP _ \<Rightarrow> True | _ \<Rightarrow> False)"

definition copySwiftMessage :: "message \<Rightarrow> string \<Rightarrow> string \<Rightarrow> message" where
  "copySwiftMessage m xhtml body =
     empty_message\<lparr>m_body := Some body, m_subject := m_subject m,
       m_payloads := filter (\<lambda>p. \<not> is_xhtml p) (m_payloads m) @ [XHTMLP xhtml]\<rparr>"

text \<open>The description is not written: the \<open>desc\<close> element stays empty.\<close>

definition addOobPayload :: "string \<Rightarrow> string \<Rightarrow> message \<Rightarrow> message" where
  "addOobPayload url description m = add_payload (OobP url (description \<noteq> [])) m"

datatype oobmode = OobWrapAll | OobExclusive | OobSplit

definition oob_mode :: "bool option \<Rightarrow> bool option \<Rightarrow> oobmode" where
  "oob_mode oob_split oob_replace_body =
     (if dflt oob_split False then OobSplit else if dflt oob_replace_body False then OobExclusive else OobWrapAll)"

type_synonym img_search = "string \<Rightarrow> (string \<times> string \<times> string) option"

text \<open>The text in front of a picture, with the part of the body up to its address.\<close>

definition text_before :: "message \<Rightarrow> string \<Rightarrow> string \<Rightarrow> string \<Rightarrow> message list \<times> string" where
  "text_before m pre url body =
     (let (part, body) =
            (case find_str url body of
               None \<Rightarrow> ([], body)
             | Some i \<Rightarrow> (plaintext_trim (take i body), drop (i + length url) body))
      in (if xhtml_trim pre \<noteq> [] \<or> part \<noteq> [] then [copySwiftMessage m (xhtml_trim pre) part] else [], body))"

text \<open>
  The loop: the rest of the XHTML and of the body, the message itself (pictures are attached to it
  unless it is split), the parts so far, and the first address.
\<close>

partial_function (option) media_loop ::
  "img_search \<Rightarrow> oobmode \<Rightarrow> string \<Rightarrow> string \<Rightarrow> message \<Rightarrow> message list \<Rightarrow> string list
   \<Rightarrow> (string \<times> string \<times> message \<times> message list \<times> string list) option" where
  "media_loop img mode xhtml body m parts urls =
     (case img xhtml of
        None \<Rightarrow> Some (xhtml, body, m, parts, urls)
      | Some (pre, tag, url) \<Rightarrow>
          (let rest = drop (length pre + length tag) xhtml;
               urls = urls @ [url]
           in if mode = OobSplit
              then let (before, body) = (if pre \<noteq> [] then text_before m pre url body else ([], body))
                   in media_loop img mode rest body m
                        (parts @ before @ [addOobPayload url [] (copySwiftMessage m tag url)]) urls
              else let m = addOobPayload url [] m
                   in if mode = OobExclusive then Some (xhtml, body, m, parts, urls)
                      else media_loop img mode rest body m parts urls))"

declare media_loop.simps [code]

definition wrapIncomingMedia :: "img_search \<Rightarrow> oobmode \<Rightarrow> message \<Rightarrow> message list option" where
  "wrapIncomingMedia img mode m =
     (case xhtml_payload (m_payloads m) of
        None \<Rightarrow> Some [m]
      | Some xhtml \<Rightarrow>
          if \<not> has_infix ''<img'' xhtml then Some [m]
          else do { body \<leftarrow> m_body m;
                    (rest, body, m, parts, urls) \<leftarrow> media_loop img mode xhtml body m [] [];
                    let tail = (if rest \<noteq> [] \<and> (xhtml_trim rest \<noteq> [] \<or> plaintext_trim body \<noteq> [])
                                then [copySwiftMessage m (xhtml_trim rest) (plaintext_trim body)] else []);
                    Some (if mode = OobSplit then parts @ tail
                          else [if mode = OobExclusive \<and> urls \<noteq> [] then m\<lparr>m_body := Some (hd urls)\<rparr> else m]) })"

section \<open>Facts\<close>

text \<open>What \<open>boost::regex_search\<close> promises: the match is a part of the text, and it is not empty.\<close>

definition search_ok :: "img_search \<Rightarrow> bool" where
  "search_ok img \<longleftrightarrow> (\<forall>s pre tag url. img s = Some (pre, tag, url) \<longrightarrow> tag \<noteq> [] \<and> is_prefix (pre @ tag) s)"

lemma is_prefix_length: "is_prefix a b \<Longrightarrow> length a \<le> length b"
  by (induction a b rule: is_prefix.induct) auto

lemma search_shorter: "search_ok img \<Longrightarrow> img s = Some (pre, tag, url) \<Longrightarrow> length (drop (length pre + length tag) s) < length s"
  using is_prefix_length [of "pre @ tag" s] by (auto simp: search_ok_def) (metis add_gr_0 diff_less le_add2 length_0_conv length_greater_0_conv not_less order_trans)+

text \<open>The addresses of the pictures, in order.\<close>

function pictures :: "img_search \<Rightarrow> string \<Rightarrow> string list" where
  "pictures img s =
     (case img s of
        None \<Rightarrow> []
      | Some (pre, tag, url) \<Rightarrow>
          let rest = drop (length pre + length tag) s
          in url # (if length rest < length s then pictures img rest else []))"
  by pat_completeness auto
termination by (relation "measure (\<lambda>(img, s). length s)") auto

declare pictures.simps [simp del]

fun oob_urls :: "payload list \<Rightarrow> string list" where
  "oob_urls [] = []"
| "oob_urls (OobP url d # ps) = url # oob_urls ps"
| "oob_urls (_ # ps) = oob_urls ps"

lemma oob_urls_append [simp]: "oob_urls (ps @ qs) = oob_urls ps @ oob_urls qs"
  by (induction ps rule: oob_urls.induct) auto

lemma oob_urls_xhtml [simp]: "oob_urls (filter (\<lambda>p. \<not> is_xhtml p) ps) = oob_urls ps"
  by (induction ps rule: oob_urls.induct) (auto simp: is_xhtml_def)

text \<open>
  A part of a split message keeps subject and attachments, and is a text or a picture with nothing
  but its address in the body.
\<close>

definition part_ok :: "message \<Rightarrow> message \<Rightarrow> bool" where
  "part_ok m p \<longleftrightarrow> m_subject p = m_subject m
     \<and> (oob_urls (m_payloads p) = oob_urls (m_payloads m)
        \<or> (case m_body p of None \<Rightarrow> False | Some url \<Rightarrow> oob_urls (m_payloads p) = oob_urls (m_payloads m) @ [url]))"

definition new_pictures :: "message \<Rightarrow> message list \<Rightarrow> string list" where
  "new_pictures m ps = concat (map (\<lambda>p. drop (length (oob_urls (m_payloads m))) (oob_urls (m_payloads p))) ps)"

lemma copy_sel [simp]:
  "m_subject (copySwiftMessage m x b) = m_subject m" "m_body (copySwiftMessage m x b) = Some b"
  "oob_urls (m_payloads (copySwiftMessage m x b)) = oob_urls (m_payloads m)"
  by (simp_all add: copySwiftMessage_def)

lemma picture_part [simp]:
  "part_ok m (addOobPayload url [] (copySwiftMessage m x url))" "part_ok m (copySwiftMessage m x b)"
  by (simp_all add: part_ok_def addOobPayload_def add_payload_def)

lemma new_pictures_simps [simp]:
  "new_pictures m [] = []" "new_pictures m (ps @ qs) = new_pictures m ps @ new_pictures m qs"
  "new_pictures m (addOobPayload url [] (copySwiftMessage m x b) # ps) = url # new_pictures m ps"
  "new_pictures m (copySwiftMessage m x b # ps) = new_pictures m ps"
  by (simp_all add: new_pictures_def addOobPayload_def add_payload_def)

lemma text_before_ok: "list_all (part_ok m) (fst (text_before m pre url body)) \<and> new_pictures m (fst (text_before m pre url body)) = []"
  by (auto simp: text_before_def Let_def split_def split: option.splits)

lemma media_loop_split:
  assumes "search_ok img"
  shows "\<exists>rest body' ps. media_loop img OobSplit xhtml body m parts urls
      = Some (rest, body', m, parts @ ps, urls @ pictures img xhtml)
    \<and> list_all (part_ok m) ps \<and> new_pictures m ps = pictures img xhtml"
proof (induction xhtml arbitrary: body parts urls rule: measure_induct_rule [of length])
  case (less xhtml)
  show ?case
  proof (cases "img xhtml")
    case None
    then show ?thesis by (subst media_loop.simps) (simp add: pictures.simps)
  next
    case (Some hit)
    obtain pre tag url where hit: "hit = (pre, tag, url)" by (cases hit)
    let ?rest = "drop (length pre + length tag) xhtml"
    let ?b = "if pre \<noteq> [] then text_before m pre url body else ([], body)"
    have short: "length ?rest < length xhtml" using search_shorter [OF assms] Some hit by blast
    have b: "list_all (part_ok m) (fst ?b)" "new_pictures m (fst ?b) = []" using text_before_ok by simp_all
    have pics: "pictures img xhtml = url # pictures img ?rest"
      using short Some hit by (subst pictures.simps) (simp add: Let_def)
    from less [OF short, of "snd ?b" "parts @ fst ?b @ [addOobPayload url [] (copySwiftMessage m tag url)]" "urls @ [url]"]
    obtain rest body' ps where IH: "media_loop img OobSplit ?rest (snd ?b) m
        (parts @ fst ?b @ [addOobPayload url [] (copySwiftMessage m tag url)]) (urls @ [url])
        = Some (rest, body', m, (parts @ fst ?b @ [addOobPayload url [] (copySwiftMessage m tag url)]) @ ps, (urls @ [url]) @ pictures img ?rest)"
      "list_all (part_ok m) ps" "new_pictures m ps = pictures img ?rest" by blast
    have "media_loop img OobSplit xhtml body m parts urls
        = Some (rest, body', m, parts @ (fst ?b @ addOobPayload url [] (copySwiftMessage m tag url) # ps), urls @ pictures img xhtml)"
      using IH(1) Some hit pics by (subst media_loop.simps) (cases "pre = []"; simp add: Let_def split_def)
    moreover have "list_all (part_ok m) (fst ?b @ addOobPayload url [] (copySwiftMessage m tag url) # ps)" using b IH by simp
    moreover have "new_pictures m (fst ?b @ addOobPayload url [] (copySwiftMessage m tag url) # ps) = pictures img xhtml"
      using b IH pics by simp
    ultimately show ?thesis by blast
  qed
qed

definition attach_all :: "string list \<Rightarrow> message \<Rightarrow> message" where
  "attach_all us m = m\<lparr>m_payloads := m_payloads m @ map (\<lambda>u. OobP u False) us\<rparr>"

lemma media_loop_wrap:
  assumes "search_ok img"
  shows "\<exists>rest. media_loop img OobWrapAll xhtml body m parts urls
      = Some (rest, body, attach_all (pictures img xhtml) m, parts, urls @ pictures img xhtml)"
proof (induction xhtml arbitrary: m urls rule: measure_induct_rule [of length])
  case (less xhtml)
  show ?case
  proof (cases "img xhtml")
    case None
    then show ?thesis by (subst media_loop.simps) (simp add: pictures.simps attach_all_def)
  next
    case (Some hit)
    obtain pre tag url where hit: "hit = (pre, tag, url)" by (cases hit)
    let ?rest = "drop (length pre + length tag) xhtml"
    have short: "length ?rest < length xhtml" using search_shorter [OF assms] Some hit by blast
    have pics: "pictures img xhtml = url # pictures img ?rest"
      using short Some hit by (subst pictures.simps) (simp add: Let_def)
    show ?thesis
      using less [OF short, of "addOobPayload url [] m" "urls @ [url]"] Some hit pics
      by (subst media_loop.simps) (simp add: Let_def attach_all_def addOobPayload_def add_payload_def)
  qed
qed

lemma media_loop_exclusive:
  "\<exists>rest. media_loop img OobExclusive xhtml body m parts urls = Some (rest, body,
     attach_all (take 1 (pictures img xhtml)) m, parts, urls @ take 1 (pictures img xhtml))"
  by (subst media_loop.simps, subst (1 2) pictures.simps)
    (auto simp: Let_def attach_all_def addOobPayload_def add_payload_def split: option.splits)

section \<open>Property\<close>

text \<open>
  C38: Wrapping the pictures of a message always ends, if the search finds non-empty parts of the text.
  A message that is split becomes texts and pictures: the pictures are those of the XHTML, in order
  and each once, a picture has its address as body, and every part keeps the subject and the
  attachments. Otherwise the message stays one, with every picture attached or, in exclusive mode,
  with the first one only and its address as body.
\<close>

theorem media_wrapped:
  assumes "search_ok img" and "xhtml_payload (m_payloads m) = Some xhtml" and "has_infix ''<img'' xhtml"
    and "m_body m = Some body"
  shows "(\<exists>ms. wrapIncomingMedia img OobSplit m = Some ms \<and> new_pictures m ms = pictures img xhtml \<and> list_all (part_ok m) ms)
    \<and> wrapIncomingMedia img OobWrapAll m = Some [attach_all (pictures img xhtml) m]
    \<and> wrapIncomingMedia img OobExclusive m = Some [case pictures img xhtml of [] \<Rightarrow> m
         | u # _ \<Rightarrow> (attach_all [u] m)\<lparr>m_body := Some u\<rparr>]"
proof -
  obtain rest body' ps where split: "media_loop img OobSplit xhtml body m [] [] = Some (rest, body', m, ps, pictures img xhtml)"
    "list_all (part_ok m) ps" "new_pictures m ps = pictures img xhtml"
    using media_loop_split [OF assms(1), of xhtml body m "[]" "[]"] by auto
  obtain r1 where wrap: "media_loop img OobWrapAll xhtml body m [] [] = Some (r1, body, attach_all (pictures img xhtml) m, [], pictures img xhtml)"
    using media_loop_wrap [OF assms(1), of xhtml body m "[]" "[]"] by auto
  obtain r2 where exclusive: "media_loop img OobExclusive xhtml body m [] []
      = Some (r2, body, attach_all (take 1 (pictures img xhtml)) m, [], take 1 (pictures img xhtml))"
    using media_loop_exclusive [of img xhtml body m "[]" "[]"] by auto
  show ?thesis
    using assms(2-4) split wrap exclusive
    by (simp add: wrapIncomingMedia_def Let_def attach_all_def split: list.splits)
qed

text \<open>A search that knows one kind of tag.\<close>

definition witness_img :: img_search where
  "witness_img s = (case find_str ''<img src=a>'' s of None \<Rightarrow> None | Some i \<Rightarrow> Some (take i s, ''<img src=a>'', ''a''))"

lemma find_str_prefix: "find_str t s = Some i \<Longrightarrow> is_prefix (take i s @ t) s"
proof (induction t s arbitrary: i rule: find_str.induct)
  case (2 t c s)
  then show ?case by (cases "is_prefix t (c # s)") auto
qed (simp split: if_splits)

lemma witness_img_ok: "search_ok witness_img"
  unfolding search_ok_def witness_img_def by (auto split: option.splits dest: find_str_prefix)

theorem media_wrapped_witness:
  "(let m = empty_message\<lparr>m_body := Some ''x a'', m_payloads := [XHTMLP ''x <img src=a>'']\<rparr>
    in (\<exists>ms. wrapIncomingMedia witness_img OobSplit m = Some ms \<and> new_pictures m ms = [''a''] \<and> list_all (part_ok m) ms)
      \<and> wrapIncomingMedia witness_img OobWrapAll m = Some [attach_all [''a''] m]
      \<and> wrapIncomingMedia witness_img OobExclusive m = Some [(attach_all [''a''] m)\<lparr>m_body := Some ''a''\<rparr>])"
proof -
  let ?m = "empty_message\<lparr>m_body := Some ''x a'', m_payloads := [XHTMLP ''x <img src=a>'']\<rparr>"
  have pics: "pictures witness_img ''x <img src=a>'' = [''a'']"
    by (simp add: pictures.simps [of witness_img "''x <img src=a>''"] pictures.simps [of witness_img "[]"] witness_img_def Let_def)
  show ?thesis
    using media_wrapped [OF witness_img_ok, of ?m "''x <img src=a>''" "''x a''"] by (simp add: pics)
qed

end
