(* ===== verification/Handlers.thy ===== *)
theory Handlers
  imports Admin Media
begin

text \<open>
  The messages of the backends: the payload handlers of \<open>libtransport/NetworkPluginServer.cpp\<close> and the
  \<open>switch\<close> of its \<open>handleDataRead\<close>, on the whole transport.

  Parameters are the protobuf parsers, \<open>utf8::replace_invalid\<close>, the search for pictures, the
  parser of ISO timestamps (which throws on a malformed one: \<open>None\<close>), the parser and the serializer
  of XMPP stanzas, and the administration interface, if there is one.
\<close>

record henv =
  he_cd :: codec
  he_fix :: "string \<Rightarrow> string"
  he_img :: img_search
  he_mode :: oobmode
  he_stamp :: "string \<Rightarrow> int option"
  he_parse :: "string \<Rightarrow> stanza list"
  he_xml_iq :: "iq \<Rightarrow> string"
  he_admin :: "(aenv \<times> (string, command) smap) option"
  he_reg :: regconf

section \<open>Helpers\<close>

text \<open>\<open>getUser\<close>, and nothing if there is no such user.\<close>

definition for_user :: "'d wenv \<Rightarrow> string \<Rightarrow> (nat \<Rightarrow> 'd world \<Rightarrow> 'd world option) \<Rightarrow> 'd world \<Rightarrow> 'd world option" where
  "for_user e key f w =
     do { (uo, w) \<leftarrow> um_getUser e key w;
          case uo of None \<Rightarrow> Some w | Some u \<Rightarrow> f u w }"

text \<open>\<open>getConversation\<close>, and nothing if there is no such conversation.\<close>

definition for_conv :: "uenv \<Rightarrow> string \<Rightarrow> (cenv \<Rightarrow> conv \<Rightarrow> conv \<times> effect list) \<Rightarrow> user \<Rightarrow> user \<times> effect list" where
  "for_conv ue name f usr =
     (case getConversation (u_convs usr) name of
        None \<Rightarrow> (usr, [])
      | Some key \<Rightarrow>
          (case smap_get (u_convs usr) key of
             None \<Rightarrow> (usr, [])
           | Some c \<Rightarrow> let (c, out) = f (cenv_of ue usr) c in (usr\<lparr>u_convs := smap_put key c (u_convs usr)\<rparr>, out)))"

text \<open>\<open>new NetworkConversation\<close> and \<open>addConversation\<close> if there is none.\<close>

definition ensure_conv :: "uenv \<Rightarrow> string \<Rightarrow> user \<Rightarrow> user" where
  "ensure_conv ue name usr =
     (if getConversation (u_convs usr) name = None
      then usr\<lparr>u_convs := addConversation (new_Conversation (cenv_of ue usr) name False) (u_convs usr)\<rparr> else usr)"

section \<open>Login and logout\<close>

definition handleConnectedPayload :: "'d wenv \<Rightarrow> henv \<Rightarrow> bytes \<Rightarrow> 'd world \<Rightarrow> 'd world option" where
  "handleConnectedPayload e h d w =
     (case par_connected (he_cd h) d of
        None \<Rightarrow> Some w
      | Some user \<Rightarrow>
          for_user e user (\<lambda>u w.
            do { w \<leftarrow> user_call e u (\<lambda>ue. setConnected ue True) w;
                 srv_call e (onPasswordValid (senv_of e) (sw_parse (we_sw e) user)) w }) w)"

definition is_disconnect :: "effect \<Rightarrow> bool" where
  "is_disconnect ef = (case ef of DisconnectUser _ _ \<Rightarrow> True | _ \<Rightarrow> False)"

text \<open>
  \<open>User::handleDisconnected\<close> with \<open>XMPPUser::disconnectUser\<close>, which closes the sessions of the user in
  server mode, and the removal of the user.
\<close>

definition um_handleDisconnected :: "'d wenv \<Rightarrow> nat \<Rightarrow> string \<Rightarrow> int \<Rightarrow> 'd world \<Rightarrow> 'd world option" where
  "um_handleDisconnected e u error err w =
     do { usr \<leftarrow> smap_get (w_heap w) u;
          let (usr', efs, removed) = handleDisconnected (uenv_of e w) error err usr;
          w \<leftarrow> deliver_all e u (filter (\<lambda>ef. \<not> is_disconnect ef) efs) (w\<lparr>w_heap := smap_put u usr' (w_heap w)\<rparr>);
          if \<not> removed then Some w
          else do { w \<leftarrow> (if w_server e
                         then srv_call e (channel_finishSession (senv_of e) (u_jid usr) (Some (StreamErrorE error)) False) w
                         else Some w);
                    (uo, w) \<leftarrow> um_getUser e (bare_str e (u_jid usr)) w;
                    if uo = None then Some w else um_removeUser e u True w } }"

definition handleDisconnectedPayload :: "'d wenv \<Rightarrow> henv \<Rightarrow> bytes \<Rightarrow> 'd world \<Rightarrow> 'd world option" where
  "handleDisconnectedPayload e h d w =
     (case par_disconnected (he_cd h) d of
        None \<Rightarrow> Some w
      | Some (user, err, msg) \<Rightarrow>
          do { w \<leftarrow> srv_call e (onPasswordInvalid (senv_of e) (sw_parse (we_sw e) user) msg) w;
               for_user e user (\<lambda>u. um_handleDisconnected e u msg err) w })"

section \<open>Contacts\<close>

definition handleVCardPayload :: "henv \<Rightarrow> bytes \<Rightarrow> 'd world \<Rightarrow> 'd world option" where
  "handleVCardPayload h d w =
     (case par_vcard (he_cd h) d of
        None \<Rightarrow> Some w
      | Some v \<Rightarrow> Some (emit [VCardOut (pbv_id v) (he_fix h (pbv_fullname v)) (he_fix h (pbv_nickname v))
                              (or_empty (pbv_photo v))] w))"

text \<open>The node of a contact's address.\<close>

definition legacy_node :: "'d wenv \<Rightarrow> string \<Rightarrow> string" where
  "legacy_node e name =
     (if dflt (cf_jid_escaping (we_cf e)) True then sw_escape (we_sw e) name
      else replace_last CHR ''@'' CHR ''%'' name)"

definition handleAuthorizationPayload :: "'d wenv \<Rightarrow> henv \<Rightarrow> bytes \<Rightarrow> 'd world \<Rightarrow> 'd world option" where
  "handleAuthorizationPayload e h d w =
     (case par_buddy (he_cd h) d of
        None \<Rightarrow> Some w
      | Some b \<Rightarrow>
          for_user e (pbb_userName b) (\<lambda>u w.
            do { usr \<leftarrow> smap_get (w_heap w) u;
                 Some (emit [send_presence (u_jid usr)
                   (sw_jid (we_sw e) (legacy_node e (pbb_buddyName b)) (sw_str (we_sw e) (cf_jid (we_cf e))) None) Subscribe] w) }) w)"

definition buddy_changed :: "henv \<Rightarrow> pb_buddy \<Rightarrow> uenv \<Rightarrow> user \<Rightarrow> user \<times> effect list" where
  "buddy_changed h pb ue usr =
     (let re = renv_of ue usr;
          blocked = dflt (pbb_blocked pb) False
      in case getBuddy re (pbb_buddyName pb) (u_roster usr) of
           Some b \<Rightarrow>
             (let (r, out) = handleBuddyPayload re (he_fix h) (pbb_alias pb) (pbb_group pb) (pbb_status pb)
                               (pbb_statusMessage pb) (pbb_iconHash pb) blocked b (u_roster usr)
              in (usr\<lparr>u_roster := r\<rparr>, out))
         | None \<Rightarrow>
             (let r = touchBuddy re (pbb_buddyName pb) (u_roster usr);
                  b = new_LocalBuddy re (-1) (pbb_buddyName pb) (pbb_alias pb) (pbb_group pb)
                        (if dflt (cf_jid_escaping (ue_cf ue)) True then BUDDY_JID_ESCAPING else BUDDY_NO_FLAG)
              in if pbb_buddyName pb = ui_uin (u_info usr) \<or> \<not> isValid re b then (usr\<lparr>u_roster := r\<rparr>, [])
                 else
                  (let (r, o1) = setBuddy re (setBlocked blocked b) r;
                       b = (case getBuddy re (pbb_buddyName pb) r of None \<Rightarrow> b | Some b \<Rightarrow> b);
                       (b, o2) = setStatus re (pbb_status pb) (pbb_statusMessage pb) b;
                       (b, r, o3) = setIconHash re (pbb_iconHash pb) b r
                   in (usr\<lparr>u_roster := writeBuddy re b r\<rparr>, o1 @ o2 @ o3))))"

definition handleBuddyChangedPayload :: "'d wenv \<Rightarrow> henv \<Rightarrow> bytes \<Rightarrow> 'd world \<Rightarrow> 'd world option" where
  "handleBuddyChangedPayload e h d w =
     (case par_buddy (he_cd h) d of
        None \<Rightarrow> Some w
      | Some pb \<Rightarrow> for_user e (pbb_userName pb) (\<lambda>u. user_call e u (\<lambda>ue usr. Some (buddy_changed h pb ue usr))) w)"

definition handleBuddyRemovedPayload :: "'d wenv \<Rightarrow> henv \<Rightarrow> bytes \<Rightarrow> 'd world \<Rightarrow> 'd world option" where
  "handleBuddyRemovedPayload e h d w =
     (case par_buddy (he_cd h) d of
        None \<Rightarrow> Some w
      | Some pb \<Rightarrow>
          for_user e (pbb_userName pb) (\<lambda>u. user_call e u (\<lambda>ue usr.
            let (r, out) = removeBuddy (renv_of ue usr) (pbb_buddyName pb) (u_roster usr)
            in Some (usr\<lparr>u_roster := r\<rparr>, out))) w)"

section \<open>Rooms\<close>

definition participant_changed :: "pb_participant \<Rightarrow> uenv \<Rightarrow> user \<Rightarrow> (user \<times> effect list) option" where
  "participant_changed pb ue usr =
     (case getConversation (u_convs usr) (pbp_room pb) of
        None \<Rightarrow> Some (usr, [])
      | Some key \<Rightarrow>
          (case smap_get (u_convs usr) key of
             None \<Rightarrow> Some (usr, [])
           | Some c \<Rightarrow>
               do { (c, o1, leave) \<leftarrow> handleParticipantChanged (cenv_of ue usr) (pbp_nickname pb) (pbp_flag pb) (pbp_status pb)
                      (pbp_statusMessage pb) (pbp_newname pb) (pbp_iconHash pb) (pbp_alias pb) c;
                    let usr = usr\<lparr>u_convs := smap_put key c (u_convs usr)\<rparr>;
                    if leave
                    then do { (usr, o2) \<leftarrow> leaveRoom ue (c_legacyName c) usr; Some (usr, o1 @ o2) }
                    else Some (usr, o1) }))"

definition handleParticipantChangedPayload :: "'d wenv \<Rightarrow> henv \<Rightarrow> bytes \<Rightarrow> 'd world \<Rightarrow> 'd world option" where
  "handleParticipantChangedPayload e h d w =
     (case par_participant (he_cd h) d of
        None \<Rightarrow> Some w
      | Some pb \<Rightarrow> for_user e (pbp_userName pb) (\<lambda>u. user_call e u (participant_changed pb)) w)"

definition handleRoomChangedPayload :: "'d wenv \<Rightarrow> henv \<Rightarrow> bytes \<Rightarrow> 'd world \<Rightarrow> 'd world option" where
  "handleRoomChangedPayload e h d w =
     (case par_room (he_cd h) d of
        None \<Rightarrow> Some w
      | Some pb \<Rightarrow>
          for_user e (pbr_userName pb) (\<lambda>u. user_call e u (\<lambda>ue usr.
            Some (for_conv ue (pbr_room pb) (\<lambda>ce c. (setNickname (pbr_nickname pb) c, [])) usr))) w)"

definition handleRoomListPayload :: "'d wenv \<Rightarrow> henv \<Rightarrow> bytes \<Rightarrow> 'd world \<Rightarrow> 'd world option" where
  "handleRoomListPayload e h d w =
     (case par_roomlist (he_cd h) d of
        None \<Rightarrow> Some w
      | Some (rooms, names, user) \<Rightarrow>
          (let items = map (\<lambda>(r, n). (sw_escape (we_sw e) r @ ''@'' @ sw_str (we_sw e) (cf_jid (we_cf e)), n)) (zip rooms names)
           in if user \<noteq> [] then for_user e user (\<lambda>u w. Some (emit [RoomListOut (Some u) items] w)) w
              else Some (emit [RoomListOut None items] w)))"

section \<open>Messages\<close>

definition handleChatStatePayload :: "'d wenv \<Rightarrow> henv \<Rightarrow> bytes \<Rightarrow> chatstate \<Rightarrow> 'd world \<Rightarrow> 'd world option" where
  "handleChatStatePayload e h d t w =
     (case par_buddy (he_cd h) d of
        None \<Rightarrow> Some w
      | Some pb \<Rightarrow>
          for_user e (pbb_userName pb) (\<lambda>u. user_call e u (\<lambda>ue usr.
            Some (for_conv ue (pbb_buddyName pb)
              (\<lambda>ce. handleMessage ce (add_payload (ChatStateP t) empty_message) [] False) usr))) w)"

text \<open>The conversation a message belongs to; \<open>None\<close> when the message is rejected.\<close>

definition message_conv :: "pb_convmsg \<Rightarrow> uenv \<Rightarrow> user \<Rightarrow> (string \<times> user) option" where
  "message_conv pb ue usr =
     (let name = pbc_buddyName pb; nick = pbc_nickname pb
      in case getConversation (u_convs usr) name of
           None \<Rightarrow> if nick \<noteq> [] then None else Some (name, ensure_conv ue name usr)
         | Some key \<Rightarrow>
             if pbc_pm pb
             then let pm = name @ ''/'' @ nick
                  in (case getConversation (u_convs usr) pm of
                        Some key \<Rightarrow> Some (key, usr)
                      | None \<Rightarrow>
                          Some (pm, usr\<lparr>u_convs := addConversation (setNickname pm (setRoom name
                                 (new_Conversation (cenv_of ue usr) nick False))) (u_convs usr)\<rparr>))
             else Some (key, usr))"

definition incoming_message :: "'d wenv \<Rightarrow> henv \<Rightarrow> bool \<Rightarrow> pb_convmsg \<Rightarrow> message" where
  "incoming_message e h subject pb =
     (let m = (if subject then empty_message\<lparr>m_subject := pbc_message pb\<rparr> else empty_message\<lparr>m_body := Some (pbc_message pb)\<rparr>);
          m = (if cf_enable_xhtml (we_cf e) \<and> pbc_xhtml pb \<noteq> [] then add_payload (XHTMLP (pbc_xhtml pb)) m else m)
      in fold (\<lambda>att. addOobPayload (pba_url att) (pba_description att)) (pbc_attachment pb) m)"

definition finish_message :: "henv \<Rightarrow> pb_convmsg \<Rightarrow> message \<Rightarrow> message option" where
  "finish_message h pb m =
     (let m = (if pbc_headline pb then m\<lparr>m_type := Headline\<rparr> else m);
          m = add_payload (ChatStateP Active) m
      in if pbc_timestamp pb = [] then Some m
         else map_option (\<lambda>t. add_payload (DelayP t) m) (he_stamp h (pbc_timestamp pb)))"

fun message_parts :: "henv \<Rightarrow> pb_convmsg \<Rightarrow> string \<Rightarrow> message list \<Rightarrow> uenv \<Rightarrow> user \<Rightarrow> (user \<times> effect list) option" where
  "message_parts h pb key [] ue usr = Some (usr, [])"
| "message_parts h pb key (m # ms) ue usr =
     do { m \<leftarrow> finish_message h pb m;
          c \<leftarrow> smap_get (u_convs usr) key;
          let (c, o1) = handleMessage (cenv_of ue usr) m (pbc_nickname pb) (pbc_carbon pb) c;
          (usr, o2) \<leftarrow> message_parts h pb key ms ue (usr\<lparr>u_convs := smap_put key c (u_convs usr)\<rparr>);
          Some (usr, o1 @ o2) }"

definition conv_message_received :: "'d wenv \<Rightarrow> henv \<Rightarrow> bool \<Rightarrow> pb_convmsg \<Rightarrow> uenv \<Rightarrow> user \<Rightarrow> (user \<times> effect list) option" where
  "conv_message_received e h subject pb ue usr =
     (let usr = usr\<lparr>u_lastActivity := ue_now ue\<rparr>
      in case message_conv pb ue usr of
           None \<Rightarrow> Some (usr, [])
         | Some (key, usr) \<Rightarrow>
             do { ms \<leftarrow> wrapIncomingMedia (he_img h) (he_mode h) (incoming_message e h subject pb);
                  message_parts h pb key ms ue usr })"

text \<open>\<open>messageToXMPPSent\<close> is called unless the message was rejected.\<close>

definition handleConvMessagePayload :: "'d wenv \<Rightarrow> henv \<Rightarrow> bytes \<Rightarrow> bool \<Rightarrow> 'd world \<Rightarrow> 'd world option" where
  "handleConvMessagePayload e h d subject w =
     (case par_convmsg (he_cd h) d of
        None \<Rightarrow> Some w
      | Some pb \<Rightarrow>
          for_user e (pbc_userName pb) (\<lambda>u w.
            do { usr \<leftarrow> smap_get (w_heap w) u;
                 let accepted = (message_conv pb (uenv_of e w) usr \<noteq> None);
                 w \<leftarrow> user_call e u (conv_message_received e h subject pb) w;
                 Some (if accepted then w\<lparr>w_sentToXMPP := w_sentToXMPP w + 1\<rparr> else w) }) w)"

definition handleConvMessageAckPayload :: "'d wenv \<Rightarrow> henv \<Rightarrow> bytes \<Rightarrow> 'd world \<Rightarrow> 'd world option" where
  "handleConvMessageAckPayload e h d w =
     (case par_convmsg (he_cd h) d of
        None \<Rightarrow> Some w
      | Some pb \<Rightarrow>
          for_user e (pbc_userName pb) (\<lambda>u w.
            if pbc_id pb = [] then Some w
            else user_call e u (\<lambda>ue usr. Some (for_conv ue (pbc_buddyName pb)
                   (\<lambda>ce. handleMessage ce (add_payload (ReceiptP (pbc_id pb)) empty_message) [] False) usr)) w) w)"

definition handleAttentionPayload :: "'d wenv \<Rightarrow> henv \<Rightarrow> bytes \<Rightarrow> 'd world \<Rightarrow> 'd world option" where
  "handleAttentionPayload e h d w =
     (case par_convmsg (he_cd h) d of
        None \<Rightarrow> Some w
      | Some pb \<Rightarrow>
          for_user e (pbc_userName pb) (\<lambda>u. user_call e u (\<lambda>ue usr.
            Some (for_conv ue (pbc_buddyName pb)
              (\<lambda>ce. handleMessage ce (add_payload AttentionP (empty_message\<lparr>m_body := Some (pbc_message pb)\<rparr>)) [] False)
              (ensure_conv ue (pbc_buddyName pb) usr)))) w)"

section \<open>Stanzas of backends that speak XMPP\<close>

fun stanza_from :: "stanza \<Rightarrow> jid" where
  "stanza_from (StMessage m) = m_from m"
| "stanza_from (StPresence p) = pr_from p"
| "stanza_from (StIQ q) = iq_from q"

text \<open>The sender as the user knows him: the address of the contact, or one made from the name.\<close>

definition raw_from :: "'d wenv \<Rightarrow> buddy option \<Rightarrow> bool \<Rightarrow> jid \<Rightarrow> jid" where
  "raw_from e b isMUC from =
     (let res = (if jid_resource from = [] then None else Some (jid_resource from))
      in case b of
           Some b \<Rightarrow> sw_jid (we_sw e) (jid_node (b_jid b)) (jid_domain (b_jid b)) res
         | None \<Rightarrow>
             (let name = bare_str e from
              in sw_jid (we_sw e)
                   (if isMUC then replace_last CHR ''@'' CHR ''%'' name else legacy_node e name)
                   (sw_str (we_sw e) (cf_jid (we_cf e))) res))"

definition raw_message :: "bool \<Rightarrow> message \<Rightarrow> cenv \<Rightarrow> conv \<Rightarrow> conv \<times> effect list" where
  "raw_message server m ce c =
     (if c_muc c \<or> m_type m = Groupchat then handleRawMessage ce m c
      else
       (let delivered = getDeliveryJID ce c;
            m = m\<lparr>m_to := delivered\<rparr>;
            (c, o1) = handleRawMessage ce m c;
            (c, o2) = (if server then forwardReceivedCopies ce m delivered c else (c, []))
        in (c, o1 @ o2)))"

text \<open>What \<open>handleElement\<close> does with a stanza of each kind, once its sender is translated.\<close>

definition element_presence :: "presence \<Rightarrow> buddy option \<Rightarrow> string option \<Rightarrow> uenv \<Rightarrow> user \<Rightarrow> user \<times> effect list" where
  "element_presence p b key ue usr =
     (case b of
        Some b \<Rightarrow>
          (let b = (if \<not> isAvailable b \<and> pr_type p \<noteq> Unavailable then b\<lparr>b_status := Show_Online\<rparr> else b);
               (b, out) = buddy_handleRawPresence p b
           in (usr\<lparr>u_roster := writeBuddy (renv_of ue usr) b (u_roster usr)\<rparr>, out))
      | None \<Rightarrow>
          (case key of
             Some k \<Rightarrow> for_conv ue k (\<lambda>ce. conv_handleRawPresence p) usr
           | None \<Rightarrow> (usr, [SendPresence p])))"

definition element_iq :: "'d wenv \<Rightarrow> iq \<Rightarrow> user \<Rightarrow> 'd world \<Rightarrow> 'd world" where
  "element_iq e q usr w =
     (let key = bare_str e (iq_to q) @ iq_id q;
          (q, w) = (case smap_get (w_id2resource w) key of
                      Some res \<Rightarrow>
                        (q\<lparr>iq_to := sw_jid (we_sw e) (jid_node (iq_to q)) (jid_domain (iq_to q)) (Some res)\<rparr>,
                         w\<lparr>w_id2resource := smap_del key (w_id2resource w)\<rparr>)
                    | None \<Rightarrow>
                        (q\<lparr>iq_to := (case getHighestPriorityPresence (we_sw e) (w_orc w) (u_jid usr) of
                                       Some p \<Rightarrow> pr_from p | None \<Rightarrow> u_jid usr)\<rparr>, w))
      in if \<not> w_server e \<and> \<not> sw_valid (we_sw e) (iq_to q) then w else emit [IQOut q] w)"

definition nps_handleElement :: "'d wenv \<Rightarrow> stanza \<Rightarrow> 'd world \<Rightarrow> 'd world option" where
  "nps_handleElement e st w =
     for_user e (bare_str e (stanza_to st)) (\<lambda>u w.
       do { usr \<leftarrow> smap_get (w_heap w) u;
            let name = bare_str e (stanza_from st);
            let key = getConversation (u_convs usr) name;
            let re = renv_of (uenv_of e w) usr;
            let b = map_option (getJID re) (getBuddy re name (u_roster usr));
            let isMUC = (case key of None \<Rightarrow> False
                         | Some k \<Rightarrow> (case smap_get (u_convs usr) k of None \<Rightarrow> False | Some c \<Rightarrow> c_muc c));
            let usr = usr\<lparr>u_roster := (case b of None \<Rightarrow> touchBuddy re name (u_roster usr)
                                                | Some b \<Rightarrow> writeBuddy re b (u_roster usr))\<rparr>;
            let from = raw_from e b isMUC (stanza_from st);
            let w = w\<lparr>w_heap := smap_put u usr (w_heap w)\<rparr>;
            (case st of
               StMessage m \<Rightarrow>
                 user_call e u (\<lambda>ue usr. Some (case key of
                     None \<Rightarrow> (usr, [SendMessage (m\<lparr>m_from := from\<rparr>)])
                   | Some k \<Rightarrow> for_conv ue k (raw_message (w_server e) (m\<lparr>m_from := from\<rparr>)) usr)) w
             | StPresence p \<Rightarrow> user_call e u (\<lambda>ue usr. Some (element_presence (p\<lparr>pr_from := from\<rparr>) b key ue usr)) w
             | StIQ q \<Rightarrow> Some (element_iq e (q\<lparr>iq_from := from\<rparr>) usr w)) }) w"

fun handle_elements :: "'d wenv \<Rightarrow> stanza list \<Rightarrow> 'd world \<Rightarrow> 'd world option" where
  "handle_elements e [] w = Some w"
| "handle_elements e (st # sts) w = do { w \<leftarrow> nps_handleElement e st w; handle_elements e sts w }"

definition handleRawXML :: "'d wenv \<Rightarrow> henv \<Rightarrow> string \<Rightarrow> 'd world \<Rightarrow> 'd world option" where
  "handleRawXML e h xml = handle_elements e (he_parse h xml)"

text \<open>\<open>handleRawIQReceived\<close>: an IQ of the user for the backend; the resource that asked is remembered.\<close>

definition handleRawIQReceived :: "'d wenv \<Rightarrow> henv \<Rightarrow> iq \<Rightarrow> 'd world \<Rightarrow> 'd world option" where
  "handleRawIQReceived e h q w =
     for_user e (bare_str e (iq_from q)) (\<lambda>u w.
       if smap_get (p_data (w_pool w)) u = None then Some w
       else
        (let w = (if iq_type q = Get
                  then w\<lparr>w_id2resource := smap_put (bare_str e (iq_from q) @ iq_id q) (jid_resource (iq_from q)) (w_id2resource w)\<rparr>
                  else w)
         in pool_send (to_backend u TYPE_RAW_XML (PB_Raw (he_xml_iq h (q\<lparr>iq_to := raw_to (penv_of e w) (iq_to q)\<rparr>)))) w)) w"

section \<open>The dispatcher\<close>

definition handleQueryPayload :: "'d wenv \<Rightarrow> henv \<Rightarrow> nat \<Rightarrow> bytes \<Rightarrow> 'd world \<Rightarrow> 'd world option" where
  "handleQueryPayload e h b d w =
     (case par_backendconfig (he_cd h) d of
        None \<Rightarrow> Some w
      | Some query \<Rightarrow>
          (case he_admin h of
             None \<Rightarrow> Some w
           | Some (a, cmds) \<Rightarrow>
               do { (answer, w) \<leftarrow> handleQuery a e cmds query w;
                    Some (emit [PoolOut (ToBackend b TYPE_QUERY (PB_BackendConfig answer))] w) }))"

definition handleBackendConfigPayload :: "henv \<Rightarrow> bytes \<Rightarrow> 'd world \<Rightarrow> 'd world option" where
  "handleBackendConfigPayload h d w =
     (case par_backendconfig (he_cd h) d of
        None \<Rightarrow> Some w
      | Some config \<Rightarrow> Some (emit [ConfigOut config] w))"

definition stats_payload :: "henv \<Rightarrow> nat \<Rightarrow> bytes \<Rightarrow> 'd world \<Rightarrow> 'd world option" where
  "stats_payload h b d w =
     (case par_stats (he_cd h) d of
        None \<Rightarrow> Some w
      | Some (res, init_res, shared, i) \<Rightarrow>
          pool_call (\<lambda>P. map_option (\<lambda>P. (P, [])) (handleStatsPayload b res init_res shared i P)) w)"

text \<open>Any message counts as an answer to the last PING.\<close>

definition alive :: "nat \<Rightarrow> pool \<Rightarrow> pool" where
  "alive b P = (case smap_get (p_heap P) b of
     None \<Rightarrow> P
   | Some bk \<Rightarrow> if be_pong bk = 0 then put_backend b (bk\<lparr>be_pong := 1\<rparr>) P else P)"

definition dispatch :: "'d wenv \<Rightarrow> henv \<Rightarrow> nat \<Rightarrow> wtype \<Rightarrow> bytes \<Rightarrow> 'd world \<Rightarrow> 'd world option \<times> bool" where
  "dispatch e h b t d w =
     (let w = w\<lparr>w_pool := alive b (w_pool w)\<rparr>
      in case t of
           TYPE_CONNECTED \<Rightarrow> (handleConnectedPayload e h d w, True)
         | TYPE_DISCONNECTED \<Rightarrow> (handleDisconnectedPayload e h d w, True)
         | TYPE_BUDDY_CHANGED \<Rightarrow> (handleBuddyChangedPayload e h d w, True)
         | TYPE_CONV_MESSAGE \<Rightarrow> (handleConvMessagePayload e h d False w, True)
         | TYPE_ROOM_SUBJECT_CHANGED \<Rightarrow> (handleConvMessagePayload e h d True w, True)
         | TYPE_PONG \<Rightarrow> (pool_call (handlePongReceived (penv_of e w) b) w, True)
         | TYPE_PARTICIPANT_CHANGED \<Rightarrow> (handleParticipantChangedPayload e h d w, True)
         | TYPE_ROOM_NICKNAME_CHANGED \<Rightarrow> (handleRoomChangedPayload e h d w, True)
         | TYPE_VCARD \<Rightarrow> (handleVCardPayload h d w, True)
         | TYPE_BUDDY_TYPING \<Rightarrow> (handleChatStatePayload e h d Composing w, True)
         | TYPE_BUDDY_TYPED \<Rightarrow> (handleChatStatePayload e h d Paused w, True)
         | TYPE_BUDDY_STOPPED_TYPING \<Rightarrow> (handleChatStatePayload e h d Active w, True)
         | TYPE_AUTH_REQUEST \<Rightarrow> (handleAuthorizationPayload e h d w, True)
         | TYPE_ATTENTION \<Rightarrow> (handleAttentionPayload e h d w, True)
         | TYPE_STATS \<Rightarrow> (stats_payload h b d w, True)
         | TYPE_BUDDY_REMOVED \<Rightarrow> (handleBuddyRemovedPayload e h d w, True)
         | TYPE_QUERY \<Rightarrow> (handleQueryPayload e h b d w, True)
         | TYPE_BACKEND_CONFIG \<Rightarrow> (handleBackendConfigPayload h d w, True)
         | TYPE_ROOM_LIST \<Rightarrow> (handleRoomListPayload e h d w, True)
         | TYPE_CONV_MESSAGE_ACK \<Rightarrow> (handleConvMessageAckPayload e h d w, True)
         | TYPE_RAW_XML \<Rightarrow> (handleRawXML e h (par_raw (he_cd h) d) w, True)
         | _ \<Rightarrow> (Some w, False))"

text \<open>
  \<open>handleDataRead\<close>: the loop of \<open>Protocol\<close> with this dispatcher; the state is \<open>None\<close> after a crash. The
  rest of the bytes stays in the buffer of the backend.
\<close>

definition dispatch_alive :: "'d wenv \<Rightarrow> henv \<Rightarrow> nat \<Rightarrow> wtype \<times> bytes \<Rightarrow> 'd world option \<Rightarrow> 'd world option \<times> bool" where
  "dispatch_alive e h b td s = (case s of None \<Rightarrow> (None, False) | Some w \<Rightarrow> dispatch e h b (fst td) (snd td) w)"

definition nps_handleDataRead :: "'d wenv \<Rightarrow> henv \<Rightarrow> nat \<Rightarrow> bytes \<Rightarrow> 'd world \<Rightarrow> 'd world option" where
  "nps_handleDataRead e h b chunk w =
     do { bk \<leftarrow> smap_get (p_heap (w_pool w)) b;
          let (buf, s) = nps_read (par_wrap (he_cd h)) (dispatch_alive e h b) chunk (be_data bk, Some w);
          w \<leftarrow> s;
          bk \<leftarrow> smap_get (p_heap (w_pool w)) b;
          Some (w\<lparr>w_pool := put_backend b (bk\<lparr>be_data := buf\<rparr>) (w_pool w)\<rparr>) }"

text \<open>\<open>handleBuddyUpdated\<close>: the user has changed the alias or the groups of a contact.\<close>

definition handleBuddyUpdated :: "'d wenv \<Rightarrow> nat \<Rightarrow> string \<Rightarrow> string \<Rightarrow> string list \<Rightarrow> 'd world \<Rightarrow> 'd world option" where
  "handleBuddyUpdated e u name alias groups w =
     do { w \<leftarrow> user_call e u (\<lambda>ue usr.
            let re = renv_of ue usr
            in case getBuddy re name (u_roster usr) of
                 None \<Rightarrow> None
               | Some b \<Rightarrow>
                   (let (b, r, o1) = setAlias re alias b (u_roster usr);
                        (b, r, o2) = setGroups re groups b r
                    in Some (usr\<lparr>u_roster := writeBuddy re b r\<rparr>, o1 @ o2))) w;
          usr \<leftarrow> smap_get (w_heap w) u;
          b \<leftarrow> getBuddy (renv_of (uenv_of e w) usr) name (u_roster usr);
          pool_send (to_backend u TYPE_BUDDY_CHANGED
            (PB_Buddy (pb_of_buddy (penv_of e w) u (b_name b) (b_alias b) (b_groups b)))) w }"

section \<open>The end of a backend\<close>

fun disconnect_users :: "'d wenv \<Rightarrow> nat list \<Rightarrow> 'd world \<Rightarrow> 'd world option" where
  "disconnect_users e [] w = Some w"
| "disconnect_users e (u # us) w =
     do { w \<leftarrow> um_handleDisconnected e u ''Internal Server Error, please reconnect.'' ERROR_OTHER
               (w\<lparr>w_pool := forget_data u (w_pool w)\<rparr>);
          disconnect_users e us w }"

definition nps_handleSessionFinished :: "'d wenv \<Rightarrow> nat \<Rightarrow> 'd world \<Rightarrow> 'd world option" where
  "nps_handleSessionFinished e b w =
     do { (P, us) \<leftarrow> session_finish_begin b (w_pool w);
          w \<leftarrow> disconnect_users e us (w\<lparr>w_pool := P\<rparr>);
          pool_call (session_finish_end b) w }"

fun ignore_disconnects :: "nat list \<Rightarrow> 'd world \<Rightarrow> 'd world option" where
  "ignore_disconnects [] w = Some w"
| "ignore_disconnects (u # us) w =
     do { usr \<leftarrow> smap_get (w_heap w) u;
          ignore_disconnects us (w\<lparr>w_heap := smap_put u (setIgnoreDisconnect True usr) (w_heap w)\<rparr>) }"

fun finish_sessions :: "'d wenv \<Rightarrow> nat list \<Rightarrow> 'd world \<Rightarrow> 'd world option" where
  "finish_sessions e [] w = Some w"
| "finish_sessions e (b # bs) w = do { w \<leftarrow> nps_handleSessionFinished e b w; finish_sessions e bs w }"

definition nps_pingTimeout :: "'d wenv \<Rightarrow> 'd world \<Rightarrow> 'd world option" where
  "nps_pingTimeout e w =
     do { (P, os, ignore, remove) \<leftarrow> ping_check (penv_of e w) (w_pool w);
          w \<leftarrow> ignore_disconnects ignore (emit (map PoolOut os) (w\<lparr>w_pool := P\<rparr>));
          finish_sessions e remove w }"

section \<open>Everything that happens\<close>

text \<open>The registration exists only when there is a database.\<close>

definition with_registration :: "'d wenv \<Rightarrow> ('d world \<Rightarrow> 'd world option) \<Rightarrow> 'd world \<Rightarrow> 'd world option" where
  "with_registration e f w = (if we_store e = None then Some w else f w)"

datatype wevent =
    Presence presence
  | Message message
  | Client event
  | RemoveTimer
  | Caps jid "string list"
  | NewBackend
  | FromBackend nat bytes
  | BackendGone nat
  | PingTimer
  | RawIQ iq
  | BuddyUpdated string string string "string list"
  | RegisterGet jid string
  | RegisterSet jid string regpayload
  | RegisterAnswer roster_answer userinfo
  | UnregisterAnswer roster_answer userinfo

fun wstep :: "'d wenv \<Rightarrow> henv \<Rightarrow> wevent \<Rightarrow> 'd world \<Rightarrow> 'd world option" where
  "wstep e h (Presence p) w = presence_received e p w"
| "wstep e h (Message m) w =
     do { w \<leftarrow> um_handleMessageReceived e m w;
          case he_admin h of None \<Rightarrow> Some w | Some (a, cmds) \<Rightarrow> admin_handleMessageReceived a e cmds m w }"
| "wstep e h (Client ev) w = client_event e ev w"
| "wstep e h RemoveTimer w = um_tick e w"
| "wstep e h (Caps j info) w = um_handleDiscoInfo e j info w"
| "wstep e h NewBackend w = pool_call (\<lambda>P. Some (handleNewClientConnection P)) w"
| "wstep e h (FromBackend b d) w = nps_handleDataRead e h b d w"
| "wstep e h (BackendGone b) w = nps_handleSessionFinished e b w"
| "wstep e h PingTimer w = nps_pingTimeout e w"
| "wstep e h (RawIQ q) w = handleRawIQReceived e h q w"
| "wstep e h (BuddyUpdated user name alias groups) w =
     for_user e user (\<lambda>u. handleBuddyUpdated e u name alias groups) w"
| "wstep e h (RegisterGet from iqid) w = with_registration e (reg_handleGetRequest e (he_reg h) from iqid) w"
| "wstep e h (RegisterSet from iqid payload) w = with_registration e (reg_handleSetRequest e (he_reg h) from iqid payload) w"
| "wstep e h (RegisterAnswer answer info) w = Some (handleRegisterRemoteRosterResponse e (he_reg h) answer info w)"
| "wstep e h (UnregisterAnswer answer info) w =
     with_registration e (handleUnregisterRemoteRosterResponse e (he_reg h) answer info) w"

fun run_world :: "'d wenv \<Rightarrow> henv \<Rightarrow> wevent list \<Rightarrow> 'd world \<Rightarrow> 'd world option" where
  "run_world e h [] w = Some w"
| "run_world e h (ev # evs) w = do { w \<leftarrow> wstep e h ev w; run_world e h evs w }"

interpretation he: each_loop "nps_handleElement e" "handle_elements e" for e
  by unfold_locales simp_all

interpretation du: each_loop "\<lambda>u w. um_handleDisconnected e u ''Internal Server Error, please reconnect.'' ERROR_OTHER
    (w\<lparr>w_pool := forget_data u (w_pool w)\<rparr>)" "disconnect_users e" for e
  by unfold_locales simp_all

interpretation fs: each_loop "nps_handleSessionFinished e" "finish_sessions e" for e
  by unfold_locales simp_all

interpretation rw: each_loop "wstep e h" "run_world e h" for e h
  by unfold_locales simp_all

definition empty_world :: "'d \<Rightarrow> 'd world" where
  "empty_world db = \<lparr>w_orc = [], w_heap = [], w_next = 0, w_users = [], w_cached = None, w_slots = [], w_sentToXMPP = 0,
     w_sentToBackend = 0, w_pool = empty_pool, w_srv = empty_server, w_db = db, w_id2resource = [], w_out = []\<rparr>"

end
