(* ===== verification/HandlersInv.thy ===== *)
theory HandlersInv
  imports Handlers WorldInv
begin

text \<open>
  The payload handlers and every other event keep the invariant of the user manager; what follows
  for the cached lookup of users.
\<close>

section \<open>The invariant of the user manager\<close>

lemma for_user_keeps: "(\<And>u. um_keeps G e (f u)) \<Longrightarrow> um_keeps G e (for_user e key f)"
  by (rule um_keeps_def_of [OF for_user_def], rule um_keeps_getUser) (auto intro: um_keeps_id)

lemma um_keeps_lookup: "(\<And>usr. um_keeps G e (f usr)) \<Longrightarrow> um_keeps G e (\<lambda>w. Option.bind (smap_get (w_heap w) u) (\<lambda>usr. f usr w))"
  by (rule um_keepsI) (auto simp: bind_eq_Some_conv dest: um_keepsD)

lemma for_conv_jid [simp]: "u_jid (fst (for_conv ue name f usr)) = u_jid usr"
  by (simp add: for_conv_def split_def Let_def split: option.splits)

lemma ensure_conv_jid [simp]: "u_jid (ensure_conv ue name usr) = u_jid usr"
  by (simp add: ensure_conv_def)

lemma setConnected_jid: "keeps_jid (u_jid usr) (setConnected ue b usr)"
proof -
  have "keeps_jid (u_jid usr) (rejoin_rooms ue ps usr)" for ps usr
  proof (induction ps arbitrary: usr)
    case (Cons p ps)
    show ?case
    proof (cases "handlePresence ue p True usr")
      case (Some v)
      obtain u1 o1 where v: "v = (u1, o1)" by (cases v)
      then have "u_jid u1 = u_jid usr" using keeps_jid_D [OF handlePresence_jid] Some by blast
      then show ?thesis using Some v Cons [of u1] by (simp add: split_def)
    qed simp
  qed simp
  from this [of "usr\<lparr>u_connected := b, u_reconnectCounter := 0, u_ignoreDisconnect := False, u_lastActivity := ue_now ue\<rparr>"]
  show ?thesis by (cases b) (simp_all add: setConnected_def Let_def split_def)
qed

lemma message_conv_jid: "message_conv pb ue usr = Some (key, usr') \<Longrightarrow> u_jid usr' = u_jid usr"
  by (auto simp: message_conv_def Let_def split: option.splits if_splits)

lemma message_parts_jid: "keeps_jid (u_jid usr) (message_parts h pb key ms ue usr)"
proof (induction ms arbitrary: usr)
  case (Cons m ms)
  have "u_jid v = u_jid usr" if "message_parts h pb key ms ue (usr\<lparr>u_convs := cs\<rparr>) = Some (v, out)" for cs v out
    using keeps_jid_D [OF Cons that] by simp
  then show ?case by (auto simp: keeps_jid_def bind_eq_Some_conv Let_def split_def)
qed simp

lemma conv_message_received_jid: "keeps_jid (u_jid usr) (conv_message_received e h subject pb ue usr)"
proof -
  have "u_jid v = u_jid usr" if "message_conv pb ue (usr\<lparr>u_lastActivity := t\<rparr>) = Some (key, u1)"
    "message_parts h pb key ms ue u1 = Some (v, out)" for t key u1 ms v out
    using keeps_jid_D [OF message_parts_jid that(2)] message_conv_jid [OF that(1)] by simp
  then show ?thesis
    by (auto simp: conv_message_received_def Let_def keeps_jid_def bind_eq_Some_conv split: option.splits)
qed

lemma participant_changed_jid: "keeps_jid (u_jid usr) (participant_changed pb ue usr)"
proof -
  have "u_jid v = u_jid usr" if "leaveRoom ue room (usr\<lparr>u_convs := cs\<rparr>) = Some (v, out)" for room cs v out
    using keeps_jid_D [OF leaveRoom_jid that] by simp
  then show ?thesis
    by (auto simp: participant_changed_def keeps_jid_def bind_eq_Some_conv Let_def split: option.splits if_splits)
qed

lemma buddy_changed_jid [simp]: "u_jid (fst (buddy_changed h pb ue usr)) = u_jid usr"
  by (simp add: buddy_changed_def Let_def split_def split: option.splits)

lemma element_presence_jid [simp]: "u_jid (fst (element_presence p b key ue usr)) = u_jid usr"
  by (simp add: element_presence_def Let_def split_def split: option.splits)

lemma um_handleDisconnected_keeps: "um_keeps {} e (um_handleDisconnected e u error err)"
proof (rule um_keepsI)
  fix w w' assume ok: "um_inv {} e w" and r: "um_handleDisconnected e u error err w = Some w'"
  obtain usr where usr: "smap_get (w_heap w) u = Some usr" using r by (auto simp: um_handleDisconnected_def bind_eq_Some_conv)
  obtain usr' efs removed where hd: "handleDisconnected (uenv_of e w) error err usr = (usr', efs, removed)"
    by (cases "handleDisconnected (uenv_of e w) error err usr") auto
  then have jid: "u_jid usr' = u_jid usr" by (auto simp: handleDisconnected_def split: if_splits)
  let ?w = "w\<lparr>w_heap := smap_put u usr' (w_heap w)\<rparr>"
  have "same_users w ?w" using usr jid by (auto simp: same_users_def jids_def fun_eq_iff smap_get_put smap_ok_put)
  then have ok1: "um_inv {} e ?w" using um_inv_same [OF ok] by blast
  obtain w1 where w1: "deliver_all e u (filter (\<lambda>ef. \<not> is_disconnect ef) efs) ?w = Some w1"
    and r1: "(if \<not> removed then Some w1
      else do { w \<leftarrow> (if w_server e then srv_call e (channel_finishSession (senv_of e) (u_jid usr) (Some (StreamErrorE error)) False) w1 else Some w1);
                (uo, w) \<leftarrow> um_getUser e (bare_str e (u_jid usr)) w;
                if uo = None then Some w else um_removeUser e u True w }) = Some w'"
    using r usr hd by (auto simp: um_handleDisconnected_def bind_eq_Some_conv)
  have ok2: "um_inv {} e w1" using um_inv_same [OF ok1 deliver_all_same [OF w1]] .
  define f where "f = (\<lambda>w. if w_server e then srv_call e (channel_finishSession (senv_of e) (u_jid usr) (Some (StreamErrorE error)) False) w else Some w)"
  define g where "g = (\<lambda>w. Option.bind (um_getUser e (bare_str e (u_jid usr)) w) (\<lambda>(uo, w). if uo = None then Some w else um_removeUser e u True w))"
  have f: "um_keeps {} e f" unfolding f_def by (intro um_keeps_if srv_call_keeps um_keeps_id)
  have g: "um_keeps {} e g" unfolding g_def by (rule um_keeps_getUser) (auto intro: um_keeps_id removeUser_keeps)
  show "um_inv {} e w'"
    using r1 ok2 um_keepsD [OF um_keeps_bind [OF f g] ok2] by (auto simp: f_def g_def split: if_splits)
qed

lemma pool_call_keeps: "um_keeps G e (pool_call f)"
  by (rule um_keepsI) (rule um_inv_same [OF _ pool_call_same])

lemma pool_send_keeps: "um_keeps G e (pool_send f)"
  by (simp add: pool_send_def pool_call_keeps)

lemma handleConnectedPayload_keeps: "um_keeps {} e (handleConnectedPayload e h d)"
  by (intro um_keeps_def_of [OF handleConnectedPayload_def] um_keeps_case_option um_keeps_id for_user_keeps um_keeps_bind
      um_keeps_user_call setConnected_jid srv_call_keeps)

lemma handleDisconnectedPayload_keeps: "um_keeps {} e (handleDisconnectedPayload e h d)"
proof -
  have "um_keeps {} e (\<lambda>w. Option.bind (srv_call e (onPasswordInvalid (senv_of e) (sw_parse (we_sw e) user) msg) w)
      (for_user e user (\<lambda>u. um_handleDisconnected e u msg err)))" for user err msg
    by (intro um_keeps_bind srv_call_keeps for_user_keeps um_handleDisconnected_keeps)
  then show ?thesis
    by (intro um_keeps_def_of [OF handleDisconnectedPayload_def] um_keeps_case_option um_keeps_id) (auto simp: split_def)
qed

lemma simple_payloads_keep:
  "um_keeps G e (handleVCardPayload h d)" "um_keeps G e (handleBackendConfigPayload h d)"
  "um_keeps G e (stats_payload h b d)"
  by (intro um_keeps_def_of [OF handleVCardPayload_def] um_keeps_case_option um_keeps_id um_keeps_Some same_users_emit)
    (intro um_keeps_def_of [OF handleBackendConfigPayload_def]
       um_keeps_def_of [OF stats_payload_def] um_keeps_case_option um_keeps_id um_keeps_Some same_users_emit,
     auto simp: split_def intro: pool_call_keeps)+

lemma handleQueryPayload_keeps: "um_keeps {} e (handleQueryPayload e h b d)"
  by (rule um_keepsI)
     (auto simp: handleQueryPayload_def bind_eq_Some_conv split: option.splits prod.splits
       intro!: um_inv_db elim: handleQuery_inv [rotated])

lemma user_payloads_keep:
  shows handleBuddyChangedPayload_keeps: "um_keeps G e (handleBuddyChangedPayload e h d)"
    and handleBuddyRemovedPayload_keeps: "um_keeps G e (handleBuddyRemovedPayload e h d)"
    and handleParticipantChangedPayload_keeps: "um_keeps G e (handleParticipantChangedPayload e h d)"
    and handleRoomChangedPayload_keeps: "um_keeps G e (handleRoomChangedPayload e h d)"
    and handleChatStatePayload_keeps: "um_keeps G e (handleChatStatePayload e h d t)"
    and handleAttentionPayload_keeps: "um_keeps G e (handleAttentionPayload e h d)"
proof -
  note rules = um_keeps_case_option um_keeps_id for_user_keeps um_keeps_user_call participant_changed_jid
  show "um_keeps G e (handleBuddyChangedPayload e h d)"
    by (intro um_keeps_def_of [OF handleBuddyChangedPayload_def] rules) simp
  show "um_keeps G e (handleBuddyRemovedPayload e h d)"
    by (intro um_keeps_def_of [OF handleBuddyRemovedPayload_def] rules) (simp add: split_def Let_def)
  show "um_keeps G e (handleParticipantChangedPayload e h d)"
    by (intro um_keeps_def_of [OF handleParticipantChangedPayload_def] rules)
  show "um_keeps G e (handleRoomChangedPayload e h d)"
    by (intro um_keeps_def_of [OF handleRoomChangedPayload_def] rules) simp
  show "um_keeps G e (handleChatStatePayload e h d t)"
    by (intro um_keeps_def_of [OF handleChatStatePayload_def] rules) simp
  show "um_keeps G e (handleAttentionPayload e h d)"
    by (intro um_keeps_def_of [OF handleAttentionPayload_def] rules) simp
qed

lemma handleConvMessageAckPayload_keeps: "um_keeps G e (handleConvMessageAckPayload e h d)"
  by (intro um_keeps_def_of [OF handleConvMessageAckPayload_def] um_keeps_case_option um_keeps_id for_user_keeps um_keeps_if
      um_keeps_user_call) simp

lemma handleConvMessagePayload_keeps: "um_keeps G e (handleConvMessagePayload e h d subject)"
proof -
  have "um_keeps G e (\<lambda>w. do { usr \<leftarrow> smap_get (w_heap w) u;
      let accepted = (message_conv pb (uenv_of e w) usr \<noteq> None);
      w \<leftarrow> user_call e u (conv_message_received e h subject pb) w;
      Some (if accepted then w\<lparr>w_sentToXMPP := w_sentToXMPP w + 1\<rparr> else w) })" for u pb
  proof (rule um_keepsI)
    fix w w' assume ok: "um_inv G e w" and "do { usr \<leftarrow> smap_get (w_heap w) u;
      let accepted = (message_conv pb (uenv_of e w) usr \<noteq> None);
      w \<leftarrow> user_call e u (conv_message_received e h subject pb) w;
      Some (if accepted then w\<lparr>w_sentToXMPP := w_sentToXMPP w + 1\<rparr> else w) } = Some w'"
    then obtain w1 b where w1: "user_call e u (conv_message_received e h subject pb) w = Some w1"
      and w': "w' = (if b then w1\<lparr>w_sentToXMPP := w_sentToXMPP w1 + 1\<rparr> else w1)"
      unfolding bind_eq_Some_conv Let_def by blast
    have "um_inv G e w1" using um_keepsD [OF um_keeps_user_call [OF conv_message_received_jid] ok w1] .
    moreover have "same_users w1 w'" by (simp add: w' same_users_def)
    ultimately show "um_inv G e w'" by (rule um_inv_same)
  qed
  then show ?thesis
    by (intro um_keeps_def_of [OF handleConvMessagePayload_def] um_keeps_case_option um_keeps_id for_user_keeps)
qed

lemma handleAuthorizationPayload_keeps: "um_keeps G e (handleAuthorizationPayload e h d)"
  by (intro um_keeps_def_of [OF handleAuthorizationPayload_def] um_keeps_case_option um_keeps_id for_user_keeps
      um_keeps_lookup um_keeps_Some same_users_emit)

lemma handleRoomListPayload_keeps: "um_keeps G e (handleRoomListPayload e h d)"
proof -
  have body: "um_keeps G e (\<lambda>w. if user \<noteq> [] then for_user e user (\<lambda>u w. Some (emit [RoomListOut (Some u) items] w)) w
      else Some (emit [RoomListOut None items] w))" for items user
    by (intro um_keeps_if for_user_keeps um_keeps_Some same_users_emit)
  show ?thesis
    by (intro um_keeps_def_of [OF handleRoomListPayload_def] um_keeps_case_option um_keeps_id)
      (simp only: Let_def split_def body)
qed

subsection \<open>Stanzas of the backends\<close>

lemma element_iq_same: "same_users w (element_iq e q usr w)"
  by (auto simp: element_iq_def same_users_def Let_def emit_def jids_def split: option.splits)

lemma nps_handleElement_keeps: "um_keeps G e (nps_handleElement e st)"
proof -
  have "um_inv G e w'"
    if ok: "um_inv G e w" and usr: "smap_get (w_heap w) u = Some usr"
      and r: "(case st of
               StMessage m \<Rightarrow> user_call e u (\<lambda>ue usr. Some (f m ue usr)) (w\<lparr>w_heap := smap_put u (usr\<lparr>u_roster := ro\<rparr>) (w_heap w)\<rparr>)
             | StPresence p \<Rightarrow> user_call e u (\<lambda>ue usr. Some (g p ue usr)) (w\<lparr>w_heap := smap_put u (usr\<lparr>u_roster := ro\<rparr>) (w_heap w)\<rparr>)
             | StIQ q \<Rightarrow> Some (element_iq e (q' q) usr' (w\<lparr>w_heap := smap_put u (usr\<lparr>u_roster := ro\<rparr>) (w_heap w)\<rparr>))) = Some w'"
      and fg: "\<And>m ue usr. u_jid (fst (f m ue usr)) = u_jid usr" "\<And>p ue usr. u_jid (fst (g p ue usr)) = u_jid usr"
    for w w' u usr ro usr' and f g :: "_ \<Rightarrow> uenv \<Rightarrow> user \<Rightarrow> user \<times> effect list" and q'
  proof -
    let ?w = "w\<lparr>w_heap := smap_put u (usr\<lparr>u_roster := ro\<rparr>) (w_heap w)\<rparr>"
    have ok1: "um_inv G e ?w"
      by (rule um_inv_same [OF ok]) (use usr in \<open>auto simp: same_users_def jids_def fun_eq_iff smap_get_put smap_ok_put\<close>)
    have call: "um_inv G e w'" if "user_call e u (\<lambda>ue usr. Some (k ue usr)) ?w = Some w'" "\<And>ue usr. u_jid (fst (k ue usr)) = u_jid usr" for k
      using um_keepsD [OF um_keeps_user_call ok1 that(1)] that(2) by simp
    show ?thesis
    proof (cases st)
      case (StMessage m)
      then show ?thesis using r call [of "f m"] fg by simp
    next
      case (StPresence p)
      then show ?thesis using r call [of "g p"] fg by simp
    next
      case (StIQ q)
      then show ?thesis using r um_inv_same [OF ok1 element_iq_same] by auto
    qed
  qed note body = this
  show ?thesis
    by (intro um_keeps_def_of [OF nps_handleElement_def] for_user_keeps um_keepsI)
      (auto simp: bind_eq_Some_conv Let_def elim!: body split: option.splits)
qed

lemma handleRawXML_keeps: "um_keeps G e (handleRawXML e h xml)"
  unfolding handleRawXML_def
  by (rule um_keepsI) (rule he.run_inv [where P = "um_inv G e"], rule um_keepsD [OF nps_handleElement_keeps])

lemma handleRawIQReceived_keeps: "um_keeps G e (handleRawIQReceived e h q)"
proof -
  have ids: "same_users w (if b then w\<lparr>w_id2resource := m\<rparr> else w)" for w :: "'a world" and b m
    by (simp add: same_users_def jids_def fun_eq_iff)
  show ?thesis
    by (intro um_keeps_def_of [OF handleRawIQReceived_def] for_user_keeps um_keeps_if um_keeps_id um_keepsI)
      (auto simp: Let_def intro: um_inv_same [OF _ ids] dest!: um_keepsD [OF pool_send_keeps, rotated] split del: if_split)
qed


subsection \<open>Everything that happens\<close>

lemma um_keeps_after: "um_keeps G e f \<Longrightarrow> (\<And>w. same_users w (g w)) \<Longrightarrow> um_keeps G e (\<lambda>w. f (g w))"
  using um_inv_same um_keepsD by (blast intro: um_keepsI)

lemma same_users_pool [simp]: "same_users w (w\<lparr>w_pool := P\<rparr>)"
  by (simp add: same_users_def)

lemmas payloads_keep = handleConnectedPayload_keeps handleDisconnectedPayload_keeps simple_payloads_keep user_payloads_keep
  handleConvMessageAckPayload_keeps handleConvMessagePayload_keeps handleAuthorizationPayload_keeps handleRoomListPayload_keeps
  handleRawXML_keeps handleQueryPayload_keeps

lemma dispatch_keeps: "um_keeps {} e (\<lambda>w. fst (dispatch e h b t d w))"
proof -
  have alive: "same_users w (w\<lparr>w_pool := alive b (w_pool w)\<rparr>)" for w :: "'a world" by simp
  have pong: "um_keeps {} e (\<lambda>w. pool_call (f w) w)" for f
    by (rule um_keepsI) (rule um_inv_same [OF _ pool_call_same])
  show ?thesis
    using um_keeps_after [OF pong [of "\<lambda>w. handlePongReceived (penv_of e w) b"] alive]
    by (cases t) (simp_all add: dispatch_def Let_def um_keeps_after [OF _ alive] payloads_keep um_keeps_id um_keeps_Some)
qed

lemma nps_loop_keeps:
  assumes "\<And>td s. I s \<Longrightarrow> I (fst (handle td s))" and "I s"
  shows "I (snd (nps_loop parse handle buf s))"
  using assms(2)
proof (induction buf arbitrary: s rule: length_induct)
  case (1 buf)
  have next_frame: "I (snd (nps_loop parse handle rest s'))" if "split_frame buf = Some (f, rest)" "I s'" for f rest s'
    using 1 that by (auto dest: split_frame_shorter)
  show ?case
    using 1(2) assms(1) [of s]
    by (subst nps_loop.simps) (auto split: option.splits prod.splits intro: next_frame, (metis next_frame fst_conv)+)
qed

lemma nps_handleDataRead_keeps: "um_keeps {} e (nps_handleDataRead e h b chunk)"
proof (rule um_keepsI)
  fix w w' assume ok: "um_inv {} e w" and r: "nps_handleDataRead e h b chunk w = Some w'"
  obtain bk where bk: "smap_get (p_heap (w_pool w)) b = Some bk" using r by (auto simp: nps_handleDataRead_def bind_eq_Some_conv)
  let ?r = "nps_read (par_wrap (he_cd h)) (dispatch_alive e h b) chunk (be_data bk, Some w)"
  have "case snd ?r of None \<Rightarrow> True | Some w \<Rightarrow> um_inv {} e w"
    unfolding nps_read_def fst_conv snd_conv
    by (rule nps_loop_keeps)
      (auto simp: dispatch_alive_def ok split: option.splits dest: um_keepsD [OF dispatch_keeps])
  moreover obtain w1 bk1 where "snd ?r = Some w1" "w' = w1\<lparr>w_pool := put_backend b (bk1\<lparr>be_data := fst ?r\<rparr>) (w_pool w1)\<rparr>"
    using r bk by (auto simp: nps_handleDataRead_def bind_eq_Some_conv split_def Let_def)
  ultimately show "um_inv {} e w'" using um_inv_same [OF _ same_users_pool] by simp
qed

lemma handleBuddyUpdated_keeps: "um_keeps G e (handleBuddyUpdated e u name alias groups)"
proof -
  have call: "um_keeps G e (user_call e u (\<lambda>ue usr.
            let re = renv_of ue usr
            in case getBuddy re name (u_roster usr) of
                 None \<Rightarrow> None
               | Some b \<Rightarrow>
                   (let (b, r, o1) = setAlias re alias b (u_roster usr);
                        (b, r, o2) = setGroups re groups b r
                    in Some (usr\<lparr>u_roster := writeBuddy re b r\<rparr>, o1 @ o2))))"
    by (rule um_keeps_user_call) (auto simp: Let_def split_def split: option.splits)
  have send: "um_keeps G e (\<lambda>w. Option.bind (smap_get (w_heap w) u) (\<lambda>usr. Option.bind (getBuddy (renv_of (uenv_of e w) usr) name (u_roster usr))
      (\<lambda>b. pool_send (to_backend u TYPE_BUDDY_CHANGED (PB_Buddy (pb_of_buddy (penv_of e w) u (b_name b) (b_alias b) (b_groups b)))) w)))"
    by (rule um_keepsI) (auto simp: bind_eq_Some_conv dest: um_keepsD [OF pool_send_keeps])
  show ?thesis by (intro um_keeps_def_of [OF handleBuddyUpdated_def] um_keeps_bind call send)
qed

lemma disconnect_users_keeps: "um_keeps {} e (disconnect_users e us)"
  by (rule um_keepsI)
    (rule du.run_inv [where P = "um_inv {} e"], rule um_keepsD [OF um_keeps_after [OF um_handleDisconnected_keeps same_users_pool]])

lemma nps_handleSessionFinished_keeps: "um_keeps {} e (nps_handleSessionFinished e b)"
  by (rule um_keepsI)
    (auto simp: nps_handleSessionFinished_def bind_eq_Some_conv
      dest: um_keepsD [OF pool_call_keeps] um_keepsD [OF disconnect_users_keeps um_inv_same [OF _ same_users_pool]])

lemma nps_pingTimeout_keeps: "um_keeps {} e (nps_pingTimeout e)"
proof -
  have fin: "um_keeps {} e (finish_sessions e bs)" for bs
    by (rule um_keepsI) (rule fs.run_inv [where P = "um_inv {} e"], rule um_keepsD [OF nps_handleSessionFinished_keeps])
  have ign: "same_users w w'" if "ignore_disconnects us w = Some w'" for us and w w' :: "'a world"
    using that
  proof (induction us arbitrary: w)
    case (Cons u us)
    then obtain usr where usr: "smap_get (w_heap w) u = Some usr"
      and r: "ignore_disconnects us (w\<lparr>w_heap := smap_put u (setIgnoreDisconnect True usr) (w_heap w)\<rparr>) = Some w'"
      by (auto simp: bind_eq_Some_conv)
    have "same_users w (w\<lparr>w_heap := smap_put u (setIgnoreDisconnect True usr) (w_heap w)\<rparr>)"
      using usr by (auto simp: same_users_def jids_def fun_eq_iff smap_get_put smap_ok_put setIgnoreDisconnect_def)
    then show ?case using Cons.IH [OF r] by (rule same_users_trans)
  qed simp
  show ?thesis
  proof (rule um_keepsI)
    fix w w' assume ok: "um_inv {} e w" and "nps_pingTimeout e w = Some w'"
    then obtain P os us bs w1 where w1: "ignore_disconnects us (emit (map PoolOut os) (w\<lparr>w_pool := P\<rparr>)) = Some w1"
      and r: "finish_sessions e bs w1 = Some w'"
      by (auto simp: nps_pingTimeout_def bind_eq_Some_conv)
    have "same_users w w1" using same_users_trans [OF same_users_trans [OF same_users_pool same_users_emit] ign [OF w1]] .
    then show "um_inv {} e w'" using um_keepsD [OF fin um_inv_same [OF ok] r] by blast
  qed
qed

lemma wstep_keeps: "um_keeps {} e (wstep e h ev)"
proof -
  have at: "um_keeps {} e f \<Longrightarrow> (\<And>w. wstep e h ev w = f w) \<Longrightarrow> um_keeps {} e (wstep e h ev)" for f
    by (rule um_keeps_def_of)
  have reg: "um_keeps {} e f \<Longrightarrow> um_keeps {} e (with_registration e f)" for f
    by (intro um_keeps_def_of [OF with_registration_def] um_keeps_if um_keeps_id)
  have msg: "um_keeps {} e (\<lambda>w. Option.bind (um_handleMessageReceived e m w)
      (\<lambda>w. case he_admin h of None \<Rightarrow> Some w | Some (a, cmds) \<Rightarrow> admin_handleMessageReceived a e cmds m w))" for m
    by (intro um_keeps_bind handleMessageReceived_keeps um_keeps_case_option um_keeps_id)
       (auto simp: split_def intro: admin_message_keeps)
  have answer: "um_keeps {} e (\<lambda>w. Some (handleRegisterRemoteRosterResponse e rc x info w))" for rc x info
    by (intro um_keeps_Some) (simp add: handleRegisterRemoteRosterResponse_def)
  show ?thesis
    by (cases ev; rule at)
      (auto intro: presence_received_keeps msg reg reg_handleGetRequest_keeps reg_handleSetRequest_keeps answer
        handleUnregisterRemoteRosterResponse_keeps client_event_keeps tick_keeps um_handleDiscoInfo_keeps
        pool_call_keeps nps_handleDataRead_keeps nps_handleSessionFinished_keeps nps_pingTimeout_keeps handleRawIQReceived_keeps
        for_user_keeps handleBuddyUpdated_keeps)
qed

lemma run_world_keeps: "um_keeps {} e (run_world e h evs)"
  by (rule um_keepsI) (rule rw.run_inv [where P = "um_inv {} e"], rule um_keepsD [OF wstep_keeps])

lemma empty_world_inv: "um_inv {} e (empty_world db)"
  by (simp add: um_inv_def um_ok_def empty_world_def jids_def)

end
