(* ===== verification/Responders.thy ===== *)
theory Responders
  imports Disco Admin HandlersInv "HOL-Library.Multiset"
begin

text \<open>
  The queries of clients that the XMPP frontend answers (\<open>spectrum/src/frontends/xmpp\<close>): contact lists
  (\<open>rosterresponder.cpp\<close>), VCards (\<open>vcardresponder.cpp\<close>), gateway addresses (\<open>gatewayresponder.cpp\<close>), private
  storage (\<open>storageresponder.cpp\<close>), blocking, carbons, statistics, and the discovery of \<open>Disco\<close>, as
  \<open>XMPPUserManager.cpp\<close> starts them. A handler returns whether it has handled the query; the router
  of Swiften answers one that is not handled. \<open>None\<close> is a null or dangling pointer.
\<close>

section \<open>VCards\<close>

text \<open>Requests that wait for the legacy network, by a number that is an \<open>unsigned int\<close>.\<close>

record vcarddata =
  vd_from :: jid
  vd_to :: jid
  vd_id :: string
  vd_received :: int

record vcards =
  vq_queries :: "(32 word, vcarddata) smap"
  vq_id :: "32 word"

definition new_VCardResponder :: vcards where
  "new_VCardResponder = \<lparr>vq_queries = [], vq_id = 0\<rparr>"

definition vcard_answer :: "vcarddata \<Rightarrow> vcard \<Rightarrow> iqout" where
  "vcard_answer v vc = IqResult (vd_from v) (Some (vd_to v)) (vd_id v) (IqVCard vc)"

definition sendVCard :: "32 word \<Rightarrow> vcard \<Rightarrow> vcards \<Rightarrow> vcards \<times> iqout list" where
  "sendVCard i vc q =
     (case smap_get (vq_queries q) i of
        None \<Rightarrow> (q, [])
      | Some v \<Rightarrow> (q\<lparr>vq_queries := smap_del i (vq_queries q)\<rparr>, [vcard_answer v vc]))"

fun send_empty :: "32 word list \<Rightarrow> vcards \<Rightarrow> vcards \<times> iqout list" where
  "send_empty [] q = (q, [])"
| "send_empty (i # is) q =
     (let (q, o1) = sendVCard i empty_vcard q; (q, o2) = send_empty is q in (q, o1 @ o2))"

definition collectTimeouted :: "int \<Rightarrow> vcards \<Rightarrow> vcards \<times> iqout list" where
  "collectTimeouted now q = send_empty (map fst (filter (\<lambda>(i, v). now - vd_received v > 40) (vq_queries q))) q"

text \<open>The name that the backend is asked for; \<open>getBuddy\<close> leaves a null entry in the contact list.\<close>

definition vcard_subject :: "swiften \<Rightarrow> jid \<Rightarrow> user \<Rightarrow> jid" where
  "vcard_subject sw to usr = (if sw_unescape sw (jid_node to) = [] then u_jid usr else to)"

definition touch_contact :: "'d wenv \<Rightarrow> nat \<Rightarrow> jid \<Rightarrow> 'd world \<Rightarrow> 'd world option" where
  "touch_contact e u j = user_call e u (\<lambda>ue usr.
     Some (usr\<lparr>u_roster := touchBuddy (renv_of ue usr) (node_to_legacy (ue_sw ue) (jid_node j)) (u_roster usr)\<rparr>, []))"

definition legacy_name :: "'d wenv \<Rightarrow> jid \<Rightarrow> user \<Rightarrow> 'd world \<Rightarrow> string" where
  "legacy_name e j usr w = JIDToLegacyName (we_sw e) (roster_name (renv_of (uenv_of e w) usr) (u_roster usr)) j"

definition vcard_handleGetRequest ::
  "'d wenv \<Rightarrow> jid \<Rightarrow> jid \<Rightarrow> string \<Rightarrow> vcards \<Rightarrow> 'd world \<Rightarrow> (bool \<times> vcards \<times> 'd world) option" where
  "vcard_handleGetRequest e from to i q w =
     do { (uo, w) \<leftarrow> um_getUser e (bare_str e from) w;
          case uo of
            None \<Rightarrow> Some (False, q, w)
          | Some u \<Rightarrow>
              do { usr \<leftarrow> smap_get (w_heap w) u;
                   let to' = vcard_subject (we_sw e) to usr;
                   let name = legacy_name e to' usr w;
                   w \<leftarrow> touch_contact e u to' w;
                   let name = (if jid_resource to \<noteq> [] then name @ ''/'' @ jid_resource to else name);
                   let q' = \<lparr>vq_queries = smap_put (vq_id q)
                               \<lparr>vd_from = from, vd_to = to, vd_id = i, vd_received = we_now e\<rparr> (vq_queries q),
                             vq_id = vq_id q + 1\<rparr>;
                   w \<leftarrow> pool_send (handleVCardRequired (penv_of e w) u name (sint (vq_id q))) w;
                   Some (True, q', w) } }"

definition vcard_handleSetRequest :: "'d wenv \<Rightarrow> jid \<Rightarrow> jid \<Rightarrow> string \<Rightarrow> vcard \<Rightarrow> 'd world \<Rightarrow> (bool \<times> 'd world) option" where
  "vcard_handleSetRequest e from to i vc w =
     (if jid_node to \<noteq> [] \<and> bare_str e from \<noteq> bare_str e to then Some (False, w)
      else do { (uo, w) \<leftarrow> um_getUser e (bare_str e from) w;
                case uo of
                  None \<Rightarrow> Some (False, w)
                | Some u \<Rightarrow>
                    do { w \<leftarrow> pool_send (handleVCardUpdated (penv_of e w) u (Some (vc_photo vc, vc_nickname vc))) w;
                         Some (True, emit [IqAnswer (IqResult from None i (IqVCard empty_vcard))] w) } })"

section \<open>Contact lists\<close>

definition roster_handleGetRequest :: "'d wenv \<Rightarrow> jid \<Rightarrow> string \<Rightarrow> 'd world \<Rightarrow> 'd world option" where
  "roster_handleGetRequest e from i w =
     do { (uo, w) \<leftarrow> um_getUser e (bare_str e from) w;
          case uo of
            None \<Rightarrow> Some (emit [IqAnswer (IqResult from None i (IqRoster []))] w)
          | Some u \<Rightarrow>
              do { usr \<leftarrow> smap_get (w_heap w) u;
                   let items = generateRosterPayload (renv_of (uenv_of e w) usr) (u_roster usr);
                   let w = emit [IqAnswer (IqResult from None i (IqRoster items))] w;
                   user_call e u (\<lambda>ue usr. let (r, out) = sendCurrentPresences (renv_of ue usr) from (u_roster usr)
                                           in Some (usr\<lparr>u_roster := r\<rparr>, out)) w } }"

text \<open>A contact that is not in the list yet. \<open>createBuddy\<close> returns null for a name that gives no address.\<close>

definition new_contact :: "'d wenv \<Rightarrow> rosteritem \<Rightarrow> user \<Rightarrow> 'd world \<Rightarrow> buddyinfo" where
  "new_contact e item usr w =
     \<lparr>bi_id = -1, bi_alias = ri_name item, bi_legacyName = legacy_name e (ri_jid item) usr w, bi_subscription = ''both'',
      bi_groups = [], bi_settings = [], bi_flags = buddyFlagsFromJID (we_sw e) (ri_jid item)\<rparr>"

definition add_contact :: "'d wenv \<Rightarrow> nat \<Rightarrow> rosteritem \<Rightarrow> 'd world \<Rightarrow> 'd world option" where
  "add_contact e u item w =
     do { usr \<leftarrow> smap_get (w_heap w) u;
          b \<leftarrow> createBuddy (renv_of (uenv_of e w) usr) (new_contact e item usr w);
          w \<leftarrow> user_call e u (\<lambda>ue usr. let (r, out) = setBuddy (renv_of ue usr) b (u_roster usr)
                                      in Some (usr\<lparr>u_roster := r\<rparr>, out)) w;
          handleBuddyUpdated e u (b_name b) (ri_name item) (ri_groups item) w }"

definition change_contact :: "'d wenv \<Rightarrow> nat \<Rightarrow> rosteritem list \<Rightarrow> rosteritem \<Rightarrow> buddy \<Rightarrow> 'd world \<Rightarrow> 'd world option" where
  "change_contact e u items item b w =
     (if ri_sub item = ItemRemove
      then do { w \<leftarrow> pool_send (nps_handleBuddyRemoved (penv_of e w) u (b_name b) (b_alias b) (b_groups b)) w;
                usr \<leftarrow> smap_get (w_heap w) u;
                Some (emit [IqAnswer (IqRosterPush (jid_bare (u_jid usr)) items)] w) }
      else handleBuddyUpdated e u (b_name b) (ri_name item) (ri_groups item) w)"

definition roster_handleSetRequest :: "'d wenv \<Rightarrow> jid \<Rightarrow> string \<Rightarrow> rosteritem list \<Rightarrow> 'd world \<Rightarrow> 'd world option" where
  "roster_handleSetRequest e from i items w =
     do { let w = emit [IqAnswer (IqResult from None i (IqRoster []))] w;
          (uo, w) \<leftarrow> um_getUser e (bare_str e from) w;
          case (uo, items) of
            (Some u, item # _) \<Rightarrow>
              if jid_node (ri_jid item) = [] then Some w
              else do { usr \<leftarrow> smap_get (w_heap w) u;
                        let bo = JIDToBuddy (renv_of (uenv_of e w) usr) (ri_jid item) (u_roster usr);
                        w \<leftarrow> touch_contact e u (ri_jid item) w;
                        case bo of
                          Some b \<Rightarrow> change_contact e u items item b w
                        | None \<Rightarrow> if ri_sub item = ItemRemove then Some w else add_contact e u item w }
          | _ \<Rightarrow> Some w }"

section \<open>Gateway addresses\<close>

definition gateway_node :: "'d wenv \<Rightarrow> string \<Rightarrow> string" where
  "gateway_node e prompt = (if find_str (CHR 0x5C # ''40'') prompt \<noteq> None then prompt else legacy_node e prompt)"

definition gateway_address :: "'d wenv \<Rightarrow> string \<Rightarrow> string" where
  "gateway_address e prompt = gateway_node e prompt @ ''@'' @ bare_str e (cf_jid (we_cf e))"

definition gateway_handleGetRequest :: "rconfig \<Rightarrow> jid \<Rightarrow> string \<Rightarrow> 'd world \<Rightarrow> 'd world" where
  "gateway_handleGetRequest rc from i w =
     emit [IqAnswer (IqResult from None i (IqGateway jid_none (rc_gateway_label rc) (rc_gateway_prompt rc)))] w"

definition gateway_handleSetRequest :: "'d wenv \<Rightarrow> jid \<Rightarrow> string \<Rightarrow> string \<Rightarrow> 'd world \<Rightarrow> 'd world" where
  "gateway_handleSetRequest e from i prompt w =
     emit [IqAnswer (IqResult from None i (IqGateway (sw_parse (we_sw e) (gateway_address e prompt)) [] []))] w"

section \<open>Private storage\<close>

text \<open>
  The payload of a request to store is the serialized \<open>Storage\<close> element (\<open>StorageSerializer\<close> of Swiften), or
  nothing for another element. The responder exists only with a storage backend.
\<close>

definition storage_handleGetRequest :: "'d wenv \<Rightarrow> jid \<Rightarrow> string \<Rightarrow> 'd world \<Rightarrow> (bool \<times> 'd world) option" where
  "storage_handleGetRequest e from i w =
     (case we_store e of
        None \<Rightarrow> Some (False, w)
      | Some st \<Rightarrow>
          do { (uo, w) \<leftarrow> um_getUser e (bare_str e from) w;
               case uo of
                 None \<Rightarrow> Some (True, emit [IqAnswer (IqError from i NotAcceptable)] w)
               | Some u \<Rightarrow>
                   do { usr \<leftarrow> smap_get (w_heap w) u;
                        let (v, db) = st_getUserSetting st (ui_id (u_info usr)) ''storage'' [] (w_db w);
                        Some (True, emit [IqAnswer (IqResult from None i (IqPrivate v))] (w\<lparr>w_db := db\<rparr>)) } })"

definition storage_handleSetRequest :: "'d wenv \<Rightarrow> jid \<Rightarrow> string \<Rightarrow> string option \<Rightarrow> 'd world \<Rightarrow> (bool \<times> 'd world) option" where
  "storage_handleSetRequest e from i payload w =
     (case we_store e of
        None \<Rightarrow> Some (False, w)
      | Some st \<Rightarrow>
          do { (uo, w) \<leftarrow> um_getUser e (bare_str e from) w;
               case (uo, payload) of
                 (Some u, Some v) \<Rightarrow>
                   do { usr \<leftarrow> smap_get (w_heap w) u;
                        let w = w\<lparr>w_db := st_updateUserSetting st (ui_id (u_info usr)) ''storage'' v (w_db w)\<rparr>;
                        Some (True, emit [IqAnswer (IqResult from None i IqNoPayload)] w) }
               | _ \<Rightarrow> Some (True, emit [IqAnswer (IqError from i NotAcceptable)] w) })"

section \<open>Blocking, carbons and statistics\<close>

text \<open>
  \<open>BlockResponder\<close> with \<open>NetworkPluginServer::handleBlockToggled\<close> on its signal. It sends no answer, and no
  part of the program creates it.
\<close>

definition block_handleSetRequest :: "'d wenv \<Rightarrow> jid \<Rightarrow> jid \<Rightarrow> 'd world \<Rightarrow> 'd world option" where
  "block_handleSetRequest e from to w =
     do { (uo, w) \<leftarrow> um_getUser e (bare_str e from) w;
          case uo of
            None \<Rightarrow> Some w
          | Some u \<Rightarrow>
              do { usr \<leftarrow> smap_get (w_heap w) u;
                   let bo = JIDToBuddy (renv_of (uenv_of e w) usr) to (u_roster usr);
                   w \<leftarrow> touch_contact e u to w;
                   case bo of
                     None \<Rightarrow> Some w
                   | Some b \<Rightarrow> pool_send (handleBlockToggled (penv_of e w) u b) w } }"

definition carbons_enable :: "jid \<Rightarrow> jid \<Rightarrow> string \<Rightarrow> 'd world \<Rightarrow> 'd world" where
  "carbons_enable from to i w = emit [IqAnswer (IqResult from (Some to) i IqNoPayload)] w"

definition carbons_disable :: "jid \<Rightarrow> string \<Rightarrow> 'd world \<Rightarrow> 'd world" where
  "carbons_disable from i w = emit [IqAnswer (IqError from i FeatureNotImplemented)] w"

text \<open>
  \<open>StatsResponder\<close>: the counts over the contact lists, in which \<open>getBuddy\<close> has left null entries, and
  the values that the administration interface reports too. \<open>None\<close> is a dangling user or backend.
\<close>

fun users_of :: "'d world \<Rightarrow> (string \<times> nat) list \<Rightarrow> user list option" where
  "users_of w [] = Some []"
| "users_of w ((k, u) # us) = do { usr \<leftarrow> smap_get (w_heap w) u; usrs \<leftarrow> users_of w us; Some (usr # usrs) }"

definition contacts_total :: "user list \<Rightarrow> int" where
  "contacts_total usrs = sum_list (map (\<lambda>usr. int (length (r_buddies (u_roster usr)))) usrs)"

definition contacts_online :: "bool \<Rightarrow> user list \<Rightarrow> int" where
  "contacts_online rawxml usrs =
     (if rawxml then 0
      else sum_list (map (\<lambda>usr. int (length (filter (\<lambda>(k, bo). case bo of None \<Rightarrow> False | Some b \<Rightarrow> isAvailable b)
                                                   (r_buddies (u_roster usr))))) usrs))"

definition stats_names :: "string list" where
  "stats_names = [''uptime'', ''users/online'', ''contacts/online'', ''contacts/total'', ''messages/from-xmpp'',
     ''messages/to-xmpp'', ''backends/running'', ''backends/crashed'', ''memory-usage'']"

definition stats_value :: "aenv \<Rightarrow> 'd wenv \<Rightarrow> user list \<Rightarrow> string \<Rightarrow> 'd world \<Rightarrow> statitem list option" where
  "stats_value a e usrs name w =
     (let item = (\<lambda>units. map_option (\<lambda>v. [(name, units, v)]))
      in if name = ''uptime'' then item ''seconds'' (get_Uptime a e)
         else if name = ''users/online'' then item ''users'' (get_OnlineUsersCount w)
         else if name = ''backends/running'' then item ''backends'' (get_BackendsCount w)
         else if name = ''backends/crashed'' then item ''backends'' (get_CrashedBackendsCount w)
         else if name = ''memory-usage'' then item ''KB'' (get_UsedMemory a w)
         else if name = ''contacts/online''
           then item ''contacts'' (Some (int_str (contacts_online (dflt (cf_rawxml (we_cf e)) False) usrs)))
         else if name = ''contacts/total'' then item ''contacts'' (Some (int_str (contacts_total usrs)))
         else if name = ''messages/from-xmpp'' then item ''messages'' (get_MessagesFromXMPP w)
         else if name = ''messages/to-xmpp'' then item ''messages'' (get_MessagesToXMPP w)
         else Some [])"

fun stats_values :: "aenv \<Rightarrow> 'd wenv \<Rightarrow> user list \<Rightarrow> string list \<Rightarrow> 'd world \<Rightarrow> statitem list option" where
  "stats_values a e usrs [] w = Some []"
| "stats_values a e usrs (n # ns) w =
     do { v \<leftarrow> stats_value a e usrs n w; vs \<leftarrow> stats_values a e usrs ns w; Some (v @ vs) }"

definition stats_handleGetRequest :: "aenv \<Rightarrow> 'd wenv \<Rightarrow> jid \<Rightarrow> string \<Rightarrow> string list \<Rightarrow> 'd world \<Rightarrow> 'd world option" where
  "stats_handleGetRequest a e from i names w =
     do { items \<leftarrow> (if names = [] then Some (map (\<lambda>n. (n, [], [])) stats_names)
                    else do { usrs \<leftarrow> users_of w (w_users w); stats_values a e usrs names w });
          Some (emit [IqAnswer (IqResult from None i (IqStats items))] w) }"

section \<open>The responders together\<close>

record resp =
  rs_disco :: disco
  rs_vcards :: vcards

datatype iqquery =
    RosterGet
  | RosterSet "rosteritem list"
  | VCardGet
  | VCardSet vcard
  | GatewayGet
  | GatewaySet string
  | PrivateGet
  | PrivateSet "string option"
  | DiscoInfoGet string
  | DiscoItemsGet string
  | CarbonsEnable
  | CarbonsDisable

text \<open>
  The responders that \<open>XMPPUserManager::XMPPUserManager\<close> and \<open>XMPPFrontend::init\<close> register at the router; the
  registration and the ad-hoc commands are in \<open>Registration\<close> and \<open>AdHoc\<close>.
\<close>

fun handle_query ::
  "rconfig \<Rightarrow> 'd wenv \<Rightarrow> iqquery \<Rightarrow> jid \<Rightarrow> jid \<Rightarrow> string \<Rightarrow> resp \<Rightarrow> 'd world \<Rightarrow> (bool \<times> resp \<times> 'd world) option" where
  "handle_query rc e RosterGet from to i s w = map_option (\<lambda>w. (True, s, w)) (roster_handleGetRequest e from i w)"
| "handle_query rc e (RosterSet items) from to i s w = map_option (\<lambda>w. (True, s, w)) (roster_handleSetRequest e from i items w)"
| "handle_query rc e VCardGet from to i s w =
     map_option (\<lambda>(b, q, w). (b, s\<lparr>rs_vcards := q\<rparr>, w)) (vcard_handleGetRequest e from to i (rs_vcards s) w)"
| "handle_query rc e (VCardSet vc) from to i s w =
     map_option (\<lambda>(b, w). (b, s, w)) (vcard_handleSetRequest e from to i vc w)"
| "handle_query rc e GatewayGet from to i s w = Some (True, s, gateway_handleGetRequest rc from i w)"
| "handle_query rc e (GatewaySet prompt) from to i s w = Some (True, s, gateway_handleSetRequest e from i prompt w)"
| "handle_query rc e PrivateGet from to i s w = map_option (\<lambda>(b, w). (b, s, w)) (storage_handleGetRequest e from i w)"
| "handle_query rc e (PrivateSet p) from to i s w = map_option (\<lambda>(b, w). (b, s, w)) (storage_handleSetRequest e from i p w)"
| "handle_query rc e (DiscoInfoGet node) from to i s w =
     map_option (\<lambda>w. (True, s, w)) (info_handleGetRequest e from to i node (rs_disco s) w)"
| "handle_query rc e (DiscoItemsGet node) from to i s w =
     map_option (\<lambda>w. (True, s, w)) (items_handleGetRequest e from to i node (rs_disco s) w)"
| "handle_query rc e CarbonsEnable from to i s w = Some (True, s, carbons_enable from to i w)"
| "handle_query rc e CarbonsDisable from to i s w = Some (True, s, carbons_disable from i w)"

text \<open>
  What the network plugin server sends to the frontend: a VCard that has arrived and a list of rooms.
  The id of a VCard is a signed number on the wire.
\<close>

fun frontend_call :: "rconfig \<Rightarrow> 'd wenv \<Rightarrow> wout \<Rightarrow> resp \<times> 'd world \<Rightarrow> resp \<times> 'd world" where
  "frontend_call rc e (VCardOut i fullname nickname photo) (s, w) =
     (let (q, out) = sendVCard (word_of_int i) \<lparr>vc_fullname = fullname, vc_nickname = nickname, vc_photo = photo\<rparr> (rs_vcards s)
      in (s\<lparr>rs_vcards := q\<rparr>, emit (map IqAnswer out) w))"
| "frontend_call rc e (RoomListOut uo items) (s, w) = (s\<lparr>rs_disco := room_list (we_sw e) rc uo items (rs_disco s)\<rparr>, w)"
| "frontend_call rc e _ (s, w) = (s, w)"

definition vcard_tick :: "'d wenv \<Rightarrow> resp \<times> 'd world \<Rightarrow> resp \<times> 'd world" where
  "vcard_tick e sw = (case sw of (s, w) \<Rightarrow>
     let (q, out) = collectTimeouted (we_now e) (rs_vcards s) in (s\<lparr>rs_vcards := q\<rparr>, emit (map IqAnswer out) w))"

end
