(* ===== verification/AdminProps.thy ===== *)
theory AdminProps
  imports Admin
begin

text \<open>
  What queries to the administration interface do: which commands there are, which queries end the
  program, and that everything but \<open>register\<close> and \<open>unregister\<close> only reads.
\<close>

section \<open>The table of commands\<close>

lemma fold_addCommand:
  "distinct (map (\<lambda>c. ci_name (cmd_info a c)) cs) \<Longrightarrow>
   smap_get (fold (addCommand a) cs m) n
     = (case find (\<lambda>c. ci_name (cmd_info a c) = n) cs of None \<Rightarrow> smap_get m n | Some c \<Rightarrow> Some c)"
proof (induction cs arbitrary: m)
  case (Cons c cs)
  then have "ci_name (cmd_info a c) = n \<Longrightarrow> find (\<lambda>c. ci_name (cmd_info a c) = n) cs = None"
    by (auto simp: find_None_iff image_iff)
  then show ?case using Cons by (auto simp: addCommand_def smap_get_put split: option.splits)
qed simp

lemmas info_defs = variable_info_def command_info_def

lemma names_distinct: "distinct (map (\<lambda>c. ci_name (cmd_info a c)) (added_commands a))"
  by (cases "ae_registration a") (simp_all add: added_commands_def info_defs)

lemma table_get:
  assumes "new_AdminInterface a = Some cmds"
  shows "smap_get cmds n = Some c \<longleftrightarrow> c \<in> set (added_commands a) \<and> ci_name (cmd_info a c) = n"
proof -
  have "cmds = fold (addCommand a) (added_commands a) []" using assms by (simp add: new_AdminInterface_def split: if_splits)
  then have "smap_get cmds n = find (\<lambda>c. ci_name (cmd_info a c) = n) (added_commands a)"
    by (simp add: fold_addCommand [OF names_distinct] split: option.splits)
  then show ?thesis by (simp add: find_distinct_Some_iff [OF names_distinct])
qed

lemma table_command:
  assumes "new_AdminInterface a = Some cmds" and "smap_get cmds n = Some c"
  shows "ci_name (cmd_info a c) = n" and "c \<in> {RegisterCommand, UnregisterCommand} \<Longrightarrow> ae_registration a"
  using assms by (auto simp: table_get added_commands_def split: if_splits)

section \<open>Actions\<close>

lemma command_action: "ci_action (cmd_info a c) \<in> {ActGet, ActExecute}"
  by (cases c) (simp_all add: info_defs)

lemma command_context: "ci_context (cmd_info a c) = UserContext \<longleftrightarrow> c = UnregisterCommand"
  by (cases c) (simp_all add: info_defs)

lemma no_command_can_be_set: "base_handleSetRequest (cmd_info a c) uid user args = ''Error: This variable cannot be set.''"
  using command_action [of a c] by (auto simp: base_handleSetRequest_def)

text \<open>The right to use a command is never checked: \<open>AdminMode\<close> is zero.\<close>

lemma rights_never_checked: "\<not> no_rights ci user"
  by (simp add: no_rights_def)

lemma default_action_command: "default_action (cmd_info a c) = ci_action (cmd_info a c)"
  using command_action [of a c] by (auto simp: default_action_def)

section \<open>Queries that end the program\<close>

text \<open>What keeps the other commands from following a dangling pointer.\<close>

definition admin_ok :: "aenv \<Rightarrow> 'd wenv \<Rightarrow> 'd world \<Rightarrow> bool" where
  "admin_ok a e w \<longleftrightarrow> getBackends w \<noteq> None \<and> (ae_registration a \<longrightarrow> we_store e \<noteq> None)"

definition registered_or_online :: "'d wenv \<Rightarrow> string \<Rightarrow> 'd world \<Rightarrow> bool" where
  "registered_or_online e name w \<longleftrightarrow>
     smap_get (w_users w) name \<noteq> None
     \<or> (case we_store e of None \<Rightarrow> False
        | Some st \<Rightarrow> (case st_getUser st (w_db w) name of None \<Rightarrow> False | Some info \<Rightarrow> ui_id info \<noteq> -1))"

definition crash_query :: "aenv \<Rightarrow> 'd wenv \<Rightarrow> string \<Rightarrow> 'd world \<Rightarrow> bool" where
  "crash_query a e body w \<longleftrightarrow>
     query_words body = (ActNone, [''online_users'']) \<and> w_users w \<noteq> []
     \<or> ae_registration a \<and> (\<exists>name. query_words body = (ActNone, [''unregister'', name]) \<and> registered_or_online e name w)"

lemma variable_value_Some: "getBackends w \<noteq> None \<Longrightarrow> variable_value a e c w \<noteq> None"
  by (cases c) (auto simp: average_memory_def)

lemma get_request_Some: "getBackends w \<noteq> None \<Longrightarrow> cmd_handleGetRequest a e c uid user w \<noteq> None"
  using variable_value_Some [of w a e c] by (simp add: cmd_handleGetRequest_def Let_def)

lemma variables_text_Some: "getBackends w \<noteq> None \<Longrightarrow> variables_text a e uid user cmds w \<noteq> None"
proof (induction cmds)
  case (Cons x cmds)
  obtain v t where "cmd_handleGetRequest a e (snd x) uid user w = Some v" "variables_text a e uid user cmds w = Some t"
    using Cons get_request_Some [OF Cons.prems, of a e "snd x" uid user] by auto
  then show ?case by (cases x) (simp add: Let_def)
qed simp

lemma execute_base:
  "base_handleExecuteRequest (cmd_info a c) uid user args = []
    \<longleftrightarrow> ci_action (cmd_info a c) = ActExecute \<and> (c = UnregisterCommand \<longrightarrow> user \<or> uid \<noteq> -1) \<and> length args = length (ci_args (cmd_info a c))"
  using command_action [of a c] command_context [of a c]
  by (cases "ci_context (cmd_info a c)")
     (auto simp: base_handleExecuteRequest_def rights_never_checked no_user_def)

lemma execute_None:
  assumes "um_inv {} e w" and "admin_ok a e w" and "c \<in> {RegisterCommand, UnregisterCommand} \<Longrightarrow> ae_registration a"
    and "c \<noteq> UnregisterCommand"
  shows "cmd_handleExecuteRequest a e cmds c uinfo None args w = None \<longleftrightarrow> c = OnlineUsersCommand \<and> args = [] \<and> w_users w \<noteq> []"
proof (cases "base_handleExecuteRequest (cmd_info a c) (ui_id uinfo) False args = []")
  case True
  obtain w1 where g: "um_getUser e (hd args) w = Some (smap_get (w_users w) (hd args), w1)" by (rule getUser_inv [OF assms(1)])
  have alive: "getBackends w \<noteq> None" using assms(2) by (simp add: admin_ok_def)
  have len: "length args = length (ci_args (cmd_info a c))" using True by (simp add: execute_base)
  show ?thesis
  proof (cases c)
    case OnlineUsersCommand
    then show ?thesis using True len by (simp add: cmd_handleExecuteRequest_def online_users_text_def info_defs)
  next
    case HasOnlineUserCommand
    then show ?thesis using True g len by (cases args) (simp_all add: cmd_handleExecuteRequest_def info_defs)
  next
    case ArgsCommand
    then show ?thesis using True len by (cases args) (simp_all add: cmd_handleExecuteRequest_def args_text_def info_defs)
  next
    case VariablesCommand
    then show ?thesis using True variables_text_Some [OF alive] by (simp add: cmd_handleExecuteRequest_def)
  next
    case RegisterCommand
    then obtain st where "we_store e = Some st" using assms(2,3) by (auto simp: admin_ok_def)
    then show ?thesis using True RegisterCommand
      by (simp add: cmd_handleExecuteRequest_def register_command_def registerUser_def)
  qed (use True assms(4) in \<open>simp_all add: cmd_handleExecuteRequest_def\<close>)
next
  case False
  then have "\<not> (c = OnlineUsersCommand \<and> args = [])" unfolding execute_base by (auto simp: info_defs)
  then show ?thesis using False by (auto simp: cmd_handleExecuteRequest_def)
qed

lemma unregister_None:
  "cmd_handleExecuteRequest a e cmds UnregisterCommand uinfo user args w = None \<longleftrightarrow> args = [] \<and> (user \<noteq> None \<or> ui_id uinfo \<noteq> -1)"
proof (cases "args = [] \<and> (user \<noteq> None \<or> ui_id uinfo \<noteq> -1)")
  case True
  then have "base_handleExecuteRequest (cmd_info a UnregisterCommand) (ui_id uinfo) (user \<noteq> None) args = []"
    unfolding execute_base by (auto simp: info_defs)
  moreover have "unregister_command e (ui_jid uinfo) [] w = None"
    by (cases "unregisterUser e (ui_jid uinfo) w") (auto simp: unregister_command_def)
  ultimately show ?thesis using True by (simp add: cmd_handleExecuteRequest_def)
next
  case False
  then have "base_handleExecuteRequest (cmd_info a UnregisterCommand) (ui_id uinfo) (user \<noteq> None) args \<noteq> []"
    unfolding execute_base by (auto simp: info_defs)
  then show ?thesis using False by (simp add: cmd_handleExecuteRequest_def)
qed

lemma context_user_Some:
  assumes "um_inv {} e w"
  obtains i usr w1 where "context_user e name w = Some (i, usr, w1)" and "(usr \<noteq> None \<or> ui_id i \<noteq> -1) = registered_or_online e name w"
proof -
  obtain w1 where g: "um_getUser e name w = Some (smap_get (w_users w) name, w1)" "um_inv {} e w1" "w_users w1 = w_users w"
    by (rule getUser_inv [OF assms])
  show ?thesis
  proof (cases "smap_get (w_users w) name")
    case None
    then show ?thesis using g that
      by (auto simp: context_user_def registered_or_online_def Let_def split: option.splits)
  next
    case (Some u)
    then obtain usr where "smap_get (w_heap w1) u = Some usr" using g by (force simp: um_inv_def um_ok_iff jids_def)
    then show ?thesis using g that Some
      by (auto simp: context_user_def registered_or_online_def Let_def)
  qed
qed

lemma run_command_None:
  "run_command a e cmds act c uinfo usr args w = None
    \<longleftrightarrow> act = ActGet \<and> cmd_handleGetRequest a e c (ui_id uinfo) (usr \<noteq> None) w = None
      \<or> act = ActExecute \<and> cmd_handleExecuteRequest a e cmds c uinfo usr args w = None"
  by (cases act) (simp_all add: run_command_def)

lemma execute_action: "cmd_handleExecuteRequest a e cmds c uinfo usr args w = None \<Longrightarrow> ci_action (cmd_info a c) = ActExecute"
  by (rule ccontr) (use execute_base [of a c "ui_id uinfo" "usr \<noteq> None" args] in \<open>simp add: cmd_handleExecuteRequest_def\<close>)

lemma query_words_action: "fst (query_words body) \<noteq> ActExecute"
  by (simp add: query_words_def Let_def)

text \<open>The action of a query, after \<open>get\<close> and \<open>set\<close> have been taken off.\<close>

lemma executed:
  "query_words body = (act, ws) \<Longrightarrow> (if act = ActNone then default_action (cmd_info a c) else act) = ActExecute
    \<longleftrightarrow> act = ActNone \<and> ci_action (cmd_info a c) = ActExecute"
  using query_words_action [of body] by (simp add: default_action_command)

lemma global_query:
  assumes "um_inv {} e w" and "admin_ok a e w" and "c \<noteq> UnregisterCommand" and "c = RegisterCommand \<Longrightarrow> ae_registration a"
    and "query_words body = (act, ws)"
  shows "run_command a e cmds (if act = ActNone then default_action (cmd_info a c) else act) c i None args w = None
    \<longleftrightarrow> act = ActNone \<and> c = OnlineUsersCommand \<and> args = [] \<and> w_users w \<noteq> []"
proof -
  have g: "cmd_handleGetRequest a e c (ui_id i) False w \<noteq> None" using get_request_Some [of w] assms(2) unfolding admin_ok_def by blast
  have x: "cmd_handleExecuteRequest a e cmds c i None args w = None \<longleftrightarrow> c = OnlineUsersCommand \<and> args = [] \<and> w_users w \<noteq> []"
    using assms by (intro execute_None) auto
  have "ci_action (cmd_info a OnlineUsersCommand) = ActExecute" by (simp add: info_defs)
  then show ?thesis using g x by (auto simp: run_command_None executed [OF assms(5)])
qed

lemma get_unregister: "cmd_handleGetRequest a e UnregisterCommand i u w \<noteq> None"
  by (simp add: cmd_handleGetRequest_def Let_def)

lemma unregister_query:
  assumes "query_words body = (act, ws)"
  shows "run_command a e cmds (if act = ActNone then default_action (cmd_info a UnregisterCommand) else act) UnregisterCommand i usr args w1 = None
    \<longleftrightarrow> act = ActNone \<and> args = [] \<and> (usr \<noteq> None \<or> ui_id i \<noteq> -1)"
proof -
  have d: "default_action (cmd_info a UnregisterCommand) = ActExecute" by (simp add: default_action_command [unfolded cmd_info.simps] info_defs default_action_def)
  then show ?thesis using query_words_action [of body] assms get_unregister
    by (cases act) (simp_all only: d run_command_None unregister_None action.simps if_True if_False simp_thms fst_conv not_False_eq_True)
qed

lemma name_OnlineUsers: "ci_name (cmd_info a c) = ''online_users'' \<longleftrightarrow> c = OnlineUsersCommand"
  "ci_name (cmd_info a c) = ''unregister'' \<longleftrightarrow> c = UnregisterCommand"
  by (cases c; simp add: info_defs)+

lemma query_crashes_iff:
  assumes "new_AdminInterface a = Some cmds" and "um_inv {} e w" and "admin_ok a e w"
  shows "handleQuery a e cmds body w = None \<longleftrightarrow> crash_query a e body w"
proof -
  obtain act ws where q: "query_words body = (act, ws)" by (cases "query_words body")
  show ?thesis
  proof (cases ws)
    case (Cons name args)
    show ?thesis
    proof (cases "smap_get cmds name")
      case None
      have "OnlineUsersCommand \<in> set (added_commands a)" "ae_registration a \<Longrightarrow> UnregisterCommand \<in> set (added_commands a)"
        by (simp_all add: added_commands_def)
      then have "name \<noteq> ''online_users''" "ae_registration a \<Longrightarrow> name \<noteq> ''unregister''"
        using table_get [OF assms(1), of name] None name_OnlineUsers by force+
      then show ?thesis using q Cons None by (auto simp: handleQuery_def crash_query_def)
    next
      case (Some c)
      note c = table_command [OF assms(1) Some]
      show ?thesis
      proof (cases "c = UnregisterCommand")
        case True
        then have name: "name = ''unregister''" "ae_registration a" using c by (auto simp: info_defs)
        show ?thesis
        proof (cases args)
          case Nil
          then show ?thesis using q Cons Some True name by (auto simp: handleQuery_def crash_query_def command_context)
        next
          case (Cons user args')
          obtain i usr w1 where u: "context_user e user w = Some (i, usr, w1)" "(usr \<noteq> None \<or> ui_id i \<noteq> -1) = registered_or_online e user w"
            by (rule context_user_Some [OF assms(2)])
          have "handleQuery a e cmds body w = run_command a e cmds (if act = ActNone then default_action (cmd_info a c) else act) c i usr args' w1"
            using q \<open>ws = name # args\<close> Cons Some True u(1) by (simp add: handleQuery_def command_context)
          then have "handleQuery a e cmds body w = None \<longleftrightarrow> act = ActNone \<and> args' = [] \<and> registered_or_online e user w"
            using unregister_query [OF q, of a e cmds i usr args' w1] True u(2) by (simp only:)
          then show ?thesis using q \<open>ws = name # args\<close> Cons name by (auto simp: crash_query_def)
        qed
      next
        case False
        then have "handleQuery a e cmds body w = run_command a e cmds (if act = ActNone then default_action (cmd_info a c) else act) c
            ((we_uninit e)\<lparr>ui_id := -1\<rparr>) None args w"
          using q Cons Some by (simp add: handleQuery_def command_context)
        moreover have "name = ''online_users'' \<longleftrightarrow> c = OnlineUsersCommand" "name \<noteq> ''unregister''"
          using c(1) False name_OnlineUsers by metis+
        ultimately show ?thesis using global_query [OF assms(2,3) False _ q] c(2) q Cons by (auto simp: crash_query_def)
      qed
    qed
  qed (use q in \<open>auto simp: handleQuery_def crash_query_def\<close>)
qed

section \<open>Queries only read\<close>

text \<open>Everything but the cached lookup of the user manager and the settings it has read again.\<close>

definition same_state :: "'d world \<Rightarrow> 'd world \<Rightarrow> bool" where
  "same_state w w' \<longleftrightarrow> w_db w' = w_db w \<and> w_users w' = w_users w \<and> jids w' = jids w \<and> w_pool w' = w_pool w
     \<and> w_srv w' = w_srv w \<and> w_orc w' = w_orc w \<and> w_out w' = w_out w \<and> w_slots w' = w_slots w"

lemma same_state_refl [simp]: "same_state w w"
  by (simp add: same_state_def)

lemma um_lookup_same_state: "um_lookup e key w = Some (uo, w') \<Longrightarrow> same_state w w'"
  by (auto simp: um_lookup_def same_state_def bind_eq_Some_conv jids_def fun_eq_iff smap_get_put split: option.splits)

lemma um_getUser_same_state: "um_getUser e key w = Some (uo, w') \<Longrightarrow> same_state w w'"
  by (auto simp: um_getUser_def bind_eq_Some_conv um_lookup_same_state split: option.splits if_splits)

lemma execute_reads:
  assumes "cmd_handleExecuteRequest a e cmds c uinfo usr args w = Some (t, w')" and "c \<notin> {RegisterCommand, UnregisterCommand}"
  shows "same_state w w'"
  using assms
  by (auto simp: cmd_handleExecuteRequest_def Let_def bind_eq_Some_conv um_getUser_same_state
      split: if_splits command.splits list.splits)

lemma run_command_reads:
  "run_command a e cmds act c uinfo usr args w = Some (t, w') \<Longrightarrow> c \<notin> {RegisterCommand, UnregisterCommand} \<Longrightarrow> same_state w w'"
  by (cases act) (auto simp: run_command_def dest: execute_reads)

lemma query_reads:
  assumes "new_AdminInterface a = Some cmds" and "handleQuery a e cmds body w = Some (t, w')"
    and "list_all (\<lambda>name. name \<noteq> ''register'' \<and> name \<noteq> ''unregister'') (take 1 (snd (query_words body)))"
  shows "same_state w w'"
proof -
  obtain act ws where q: "query_words body = (act, ws)" by (cases "query_words body")
  show ?thesis
  proof (cases ws)
    case (Cons name args)
    show ?thesis
    proof (cases "smap_get cmds name")
      case (Some c)
      have "c \<notin> {RegisterCommand, UnregisterCommand}"
        using table_command(1) [OF assms(1) Some] assms(3) q Cons by (auto simp: info_defs)
      moreover from this have "ci_context (cmd_info a c) \<noteq> UserContext" by (simp add: command_context)
      ultimately show ?thesis using assms(2) q Cons Some
        by (auto simp: handleQuery_def Let_def dest: run_command_reads)
    qed (use assms q Cons in \<open>simp add: handleQuery_def\<close>)
  qed (use assms q in \<open>simp add: handleQuery_def\<close>)
qed

end
