(* ===== verification/Shutdown.thy ===== *)
theory Shutdown
  imports HandlersInv
begin

text \<open>
  \<open>UserManager::removeAllUsers\<close>, the loop of the program's exit, in gateway mode: what one round needs
  to return, what it leaves as it was, and that the loop ends.
\<close>

section \<open>Signals that always arrive\<close>

text \<open>What the destructors of a user emit: database writes and presences.\<close>

fun quiet :: "effect \<Rightarrow> bool" where
  "quiet DbBegin = True"
| "quiet DbCommit = True"
| "quiet (DbAddBuddy b) = True"
| "quiet (DbUpdateBuddy b) = True"
| "quiet (SendPresence p) = True"
| "quiet _ = False"

text \<open>The parts of the world the loop depends on.\<close>

definition same_core :: "'d world \<Rightarrow> 'd world \<Rightarrow> bool" where
  "same_core w w' \<longleftrightarrow> w_users w' = w_users w \<and> w_cached w' = w_cached w \<and> w_heap w' = w_heap w \<and> w_pool w' = w_pool w"

lemma same_core_refl [simp]: "same_core w w"
  by (simp add: same_core_def)

lemma same_core_trans: "same_core w w1 \<Longrightarrow> same_core w1 w2 \<Longrightarrow> same_core w w2"
  by (simp add: same_core_def)

lemma same_core_db_call [simp]: "same_core w (db_call e f w)"
  by (simp add: same_core_def db_call_def split: option.splits)

lemma deliver_quiet: "quiet ef \<Longrightarrow> \<exists>w'. deliver e u ef w = Some w' \<and> same_core w w'"
  by (cases ef) (auto simp: same_core_def emit_def db_call_def split: option.splits)

lemma deliver_all_quiet: "list_all quiet efs \<Longrightarrow> \<exists>w'. deliver_all e u efs w = Some w' \<and> same_core w w'"
  by (rule da.run_total [where Q = quiet]) (auto intro: deliver_quiet same_core_trans)

section \<open>The destructors\<close>

lemma store_loop_Some:
  assumes "\<forall>k \<in> snd ` set q. \<exists>b. smap_get bs k = Some (Some b)"
  shows "\<exists>bs' efs. store_loop ids q bs = Some (bs', efs) \<and> list_all quiet efs"
  using assms
proof (induction q arbitrary: bs)
  case (Cons x q)
  obtain n k where x: "x = (n, k)" by (cases x)
  obtain b where b: "smap_get bs k = Some (Some b)" using Cons.prems x by auto
  have all: "\<forall>k' \<in> snd ` set q. \<exists>b. smap_get (smap_put k (Some b') bs) k' = Some (Some b)" for b'
    using Cons.prems by (auto simp: smap_get_put)
  show ?case
    using b x Cons.IH [OF all, of b] Cons.IH [OF all, of "b\<lparr>b_id := ids (b_name b)\<rparr>"]
    by (auto simp: smap_get_or_def)
qed simp

lemma storeBuddies_Some:
  assumes "roster_ok e r"
  shows "\<exists>r' efs. storeBuddies ids r = Some (r', efs) \<and> list_all quiet efs"
proof -
  have "\<forall>k \<in> snd ` set (r_queue r). \<exists>b. smap_get (r_buddies r) k = Some (Some b)"
    using assms by (fastforce simp: roster_ok_def bq_ok_def smap_get_iff [of "r_queue r", symmetric])
  from store_loop_Some [OF this, of ids] show ?thesis by (auto simp: storeBuddies_def)
qed

lemma presences_loop_quiet: "(\<And>b. list_all quiet (snd (f b))) \<Longrightarrow> list_all quiet (snd (presences_loop f bs))"
proof (induction bs)
  case (Cons x bs)
  then show ?case by (cases x; cases "snd x") (auto simp: split_def Let_def)
qed simp

lemma sendUnavailablePresences_quiet: "list_all quiet (snd (sendUnavailablePresences re j r))"
proof -
  have "list_all quiet (snd (unavailable_presences re j b))" for b
    by (simp add: unavailable_presences_def Let_def list_all_iff)
  then have "list_all quiet (snd (presences_loop (unavailable_presences re j) (r_buddies r)))" by (rule presences_loop_quiet)
  then show ?thesis by (simp add: sendUnavailablePresences_def split_def Let_def)
qed

lemma deleteAllConversations_quiet: "list_all quiet (snd (deleteAllConversations ce cs))"
  by (auto simp: deleteAllConversations_def destroyRoom_def Let_def list_all_iff)

lemma delete_user_gateway:
  assumes "\<not> w_server e" and "smap_get (w_heap w) u = Some usr" and "roster_ok re (u_roster usr)"
  shows "\<exists>w'. delete_user e u w = Some w' \<and> w_users w' = w_users w \<and> w_cached w' = w_cached w
    \<and> w_heap w' = smap_del u (w_heap w) \<and> w_pool w' = forget_data u (w_pool w)"
proof -
  define ids :: "string \<Rightarrow> int" where "ids = (\<lambda>_. 0)"
  obtain r o1 where r: "(if r_storage (u_roster usr) then storeBuddies ids (u_roster usr) else Some (u_roster usr, [])) = Some (r, o1)"
    and o1: "list_all quiet o1"
    using storeBuddies_Some [OF assms(3), of ids] by (cases "r_storage (u_roster usr)") auto
  define efs where "efs = o1 @ snd (sendUnavailablePresences (renv_of (uenv_of e w) usr) (jid_bare (u_jid usr)) r)
      @ snd (deleteAllConversations (cenv_of (uenv_of e w) usr) (u_convs usr))"
  have "list_all quiet efs"
    using o1 sendUnavailablePresences_quiet deleteAllConversations_quiet by (simp add: efs_def)
  then obtain w1 where w1: "deliver_all e u efs w = Some w1" "same_core w w1" using deliver_all_quiet by blast
  have "delete_user e u w = Some (w1\<lparr>w_heap := smap_del u (w_heap w1), w_pool := forget_data u (w_pool w1)\<rparr>)"
    using assms(1,2) w1(1) by (simp add: delete_user_def r [unfolded ids_def] efs_def split_def Let_def split del: if_split)
  then show ?thesis using w1(2) by (simp add: same_core_def)
qed

section \<open>One round\<close>

text \<open>
  The backend a user points to exists, and his contacts are in order: the two things that the
  removal of a user depends on besides the invariant of the user manager.
\<close>

definition backends_alive :: "pool \<Rightarrow> bool" where
  "backends_alive P \<longleftrightarrow> list_all (\<lambda>(u, b). smap_get (p_heap P) b \<noteq> None) (p_data P)"

definition rosters_ok :: "'d wenv \<Rightarrow> 'd world \<Rightarrow> bool" where
  "rosters_ok e w \<longleftrightarrow> list_all (\<lambda>(u, usr). roster_ok (renv_of (uenv_of e w) usr) (u_roster usr)) (w_heap w)"

definition removable :: "'d wenv \<Rightarrow> 'd world \<Rightarrow> bool" where
  "removable e w \<longleftrightarrow> pool_ok (penv_of e w) (w_pool w) \<and> backends_alive (w_pool w) \<and> rosters_ok e w"

lemma roster_ok_env: "re_low re = re_low re' \<Longrightarrow> roster_ok re r = roster_ok re' r"
  by (simp add: roster_ok_def)

lemma pool_ok_env: "pe_cf e = pe_cf e' \<Longrightarrow> pool_ok e P = pool_ok e' P"
  by (simp add: pool_ok_def backend_ok_def)

lemma rosters_okD: "rosters_ok e w \<Longrightarrow> smap_get (w_heap w) u = Some usr \<Longrightarrow> roster_ok (renv_of (uenv_of e w) usr) (u_roster usr)"
  by (force simp: rosters_ok_def list_all_iff dest: smap_get_SomeD)

lemma rosters_ok_del: "rosters_ok e w \<Longrightarrow> w_heap w' = smap_del u (w_heap w) \<Longrightarrow> rosters_ok e w'"
  unfolding rosters_ok_def list_all_iff
  by (auto simp: smap_del_def renv_of_def uenv_of_def roster_ok_def)

lemma forget_data_ok:
  assumes "pool_ok e P" and "place P u = Nowhere"
  shows "pool_ok e (forget_data u P) \<and> place (forget_data u P) = place P"
proof -
  have off: "\<not> on_backend P u b" for b using assms place_Nowhere by blast
  then have users: "u \<notin> set (be_users bk)" if "smap_get (p_heap P) b = Some bk" for b bk
    using that by (auto simp: on_backend_def)
  have "place (forget_data u P) v = place P v" for v
    using assms(2) off by (auto simp: place_def forget_data_def smap_get_del on_backend_def split: option.splits if_splits)
  moreover have "pool_ok e (forget_data u P)"
    using assms(1) users
    by (auto simp: pool_ok_def forget_data_def backend_ok_def on_backend_def smap_ok_del smap_get_del)
  ultimately show ?thesis by (auto simp: fun_eq_iff)
qed

lemma destroy_alive:
  assumes "backends_alive P"
  shows "\<exists>P' out. handleUserDestroyed e u P = Some (P', out) \<and> backends_alive P'"
proof (cases "smap_get (p_data P) u")
  case (Some b)
  then have "smap_get (p_heap P) b \<noteq> None" using assms by (auto simp: backends_alive_def list_all_iff dest: smap_get_SomeD)
  then show ?thesis using assms Some by (auto simp: handleUserDestroyed_def backends_alive_def list_all_iff smap_get_put Let_def)
qed (use assms in \<open>simp add: handleUserDestroyed_def backends_alive_def\<close>)

lemma forget_alive: "backends_alive P \<Longrightarrow> backends_alive (forget_data u P)"
  by (auto simp: backends_alive_def forget_data_def list_all_iff smap_del_def)

lemma removeUser_round:
  assumes "\<not> w_server e" and "um_inv {} e w" and "removable e w" and "smap_get (w_users w) k = Some u"
  shows "\<exists>w'. um_removeUser e u b w = Some w' \<and> um_inv {} e w' \<and> removable e w' \<and> w_users w' = smap_del k (w_users w)
    \<and> place (w_pool w') = (place (w_pool w))(u := Nowhere)"
proof -
  obtain usr where usr: "smap_get (w_heap w) u = Some usr" "bare_str e (u_jid usr) = k"
  proof -
    have "um_ok e w" using assms(2) by (simp add: um_inv_def)
    then have "\<exists>j. jids w u = Some j \<and> bare_str e j = k" using assms(4) unfolding um_ok_iff by blast
    then show ?thesis using that by (auto simp: jids_def)
  qed
  define w1 where "w1 = (let w1 = (erase_user e u usr w)\<lparr>w_orc := clearPresences (jid_bare (u_jid usr)) (w_orc w)\<rparr>
    in if b then db_call e (\<lambda>st. st_setUserOnline st (ui_id (u_info usr)) False) w1 else w1)"
  have w1: "w_users w1 = smap_del k (w_users w)" "w_heap w1 = w_heap w" "w_pool w1 = w_pool w"
    by (simp_all add: w1_def erase_user_def usr(2) db_call_def Let_def split: option.splits)
  have rm: "um_removeUser e u b w = Option.bind (deliver e u OnUserDestroyed w1) (delete_user e u)"
    using assms(1) usr(1) by (simp add: um_removeUser_def w1_def erase_user_def Let_def)
  have ok: "pool_ok (penv_of e w1) (w_pool w)" using assms(3) pool_ok_env [of "penv_of e w1" "penv_of e w"]
    by (simp add: removable_def penv_of_def)
  obtain P out where P: "handleUserDestroyed (penv_of e w1) u (w_pool w) = Some (P, out)" "backends_alive P"
    using destroy_alive assms(3) removable_def by blast
  then have place: "pool_ok (penv_of e w1) P" "place P = (place (w_pool w))(u := Nowhere)"
    using handleUserDestroyed_cases [OF ok] by blast+
  define w2 where "w2 = emit (map PoolOut out) (w1\<lparr>w_pool := P\<rparr>)"
  have w2: "deliver e u OnUserDestroyed w1 = Some w2" using P w1 by (simp add: pool_call_def w2_def)
  have "smap_get (w_heap w2) u = Some usr" using usr w1 by (simp add: w2_def emit_def)
  moreover have "roster_ok (renv_of (uenv_of e w) usr) (u_roster usr)"
    using assms(3) usr by (auto simp: removable_def intro: rosters_okD)
  ultimately obtain w' where w': "delete_user e u w2 = Some w'" "w_users w' = w_users w2" "w_heap w' = smap_del u (w_heap w2)"
    "w_pool w' = forget_data u (w_pool w2)"
    using delete_user_gateway [OF assms(1)] by blast
  have r: "um_removeUser e u b w = Some w'" using rm w2 w' by simp
  have pool: "w_pool w' = forget_data u P" and heap: "w_heap w' = smap_del u (w_heap w)"
    and users: "w_users w' = smap_del k (w_users w)"
    using w' w1 by (simp_all add: w2_def emit_def)
  have F: "pool_ok (penv_of e w1) (forget_data u P)" "place (forget_data u P) = place P"
    using forget_data_ok [OF place(1), of u] place(2) by simp_all
  have "pool_ok (penv_of e w') (w_pool w')"
    using F(1) pool pool_ok_env [of "penv_of e w'" "penv_of e w1"] by (simp add: penv_of_def)
  then have "removable e w'"
    using assms(3) P(2) pool rosters_ok_del [OF _ heap] by (simp add: removable_def forget_alive)
  then show ?thesis
    using r removeUser_inv [OF assms(2) _ r] users F(2) place(2) pool by auto
qed

section \<open>The loop\<close>

lemma removeAllUsers_loop:
  assumes "\<not> w_server e" and "um_inv {} e w" and "removable e w" and "length (w_users w) \<le> n"
  shows "\<exists>w'. um_removeAllUsers e b n w = Some w' \<and> um_inv {} e w' \<and> w_users w' = []
    \<and> (\<forall>u. place (w_pool w') u = (if u \<in> snd ` set (w_users w) then Nowhere else place (w_pool w) u))"
  using assms(2-)
proof (induction n arbitrary: w)
  case (Suc n)
  show ?case
  proof (cases "w_users w")
    case (Cons x us)
    obtain k u where x: "x = (k, u)" by (cases x)
    have "smap_ok (w_users w)" using Suc.prems(1) by (simp add: um_inv_def um_ok_def)
    then have del: "smap_del k (w_users w) = us"
      using Cons x by (force simp: smap_ok_def smap_del_def filter_id_conv split_beta)
    have "smap_get (w_users w) k = Some u" using Cons x by (simp add: smap_get_Cons)
    from removeUser_round [OF assms(1) Suc.prems(1,2) this, of b] obtain w1
      where w1: "um_removeUser e u b w = Some w1" "um_inv {} e w1" "removable e w1" "w_users w1 = us"
        "place (w_pool w1) = (place (w_pool w))(u := Nowhere)" by (auto simp: del)
    moreover have "length (w_users w1) \<le> n" using w1(4) Suc.prems(3) Cons by simp
    ultimately obtain w2 where "um_removeAllUsers e b n w1 = Some w2" "um_inv {} e w2" "w_users w2 = []"
      "\<forall>v. place (w_pool w2) v = (if v \<in> snd ` set us then Nowhere else place (w_pool w1) v)"
      using Suc.IH [of w1] by auto
    then show ?thesis using w1 Cons x by auto
  qed (use Suc.prems in simp)
qed simp

lemma no_users_no_objects: "um_inv {} e w \<Longrightarrow> w_users w = [] \<Longrightarrow> w_heap w = [] \<and> w_cached w = None"
proof -
  assume inv: "um_inv {} e w" and none: "w_users w = []"
  then have gone: "smap_get (w_heap w) u = None" for u
    by (cases "smap_get (w_heap w) u") (auto simp: um_inv_def jids_def)
  have "w_heap w = []"
  proof (cases "w_heap w")
    case (Cons x xs)
    then show ?thesis using gone [of "fst x"] by (cases x) (simp add: smap_get_Cons)
  qed
  moreover have "w_cached w = None" using inv none by (auto simp: um_inv_def um_ok_iff)
  ultimately show ?thesis by simp
qed

end
