(* ===== verification/RespondersProps.thy ===== *)
theory RespondersProps
  imports Responders AdminProps Shutdown
begin

text \<open>
  What the responders guarantee: every query is answered once, VCard requests are answered or wait, a
  contact that a client stores is in the list it gets.
\<close>

section \<open>Effects that only send stanzas\<close>

fun plain_effect :: "effect \<Rightarrow> bool" where
  "plain_effect (SendPresence p) = True"
| "plain_effect (SendRosterPush to j n gs) = True"
| "plain_effect _ = False"

lemma deliver_plain: "plain_effect ef \<Longrightarrow> deliver e u ef w = Some (emit [Eff ef] w)"
  by (cases ef) simp_all

lemma deliver_all_plain: "list_all plain_effect efs \<Longrightarrow> deliver_all e u efs w = Some (emit (map Eff efs) w)"
  by (induction efs arbitrary: w) (simp_all add: deliver_plain emit_def)

lemma touch_all_plain: "list_all plain_effect efs \<Longrightarrow> touch_all re efs r = r"
proof (induction efs)
  case (Cons ef efs)
  then show ?case by (cases ef) simp_all
qed simp

lemma user_call_plain:
  assumes "smap_get (w_heap w) u = Some usr" and "f (uenv_of e w) usr = Some (usr', efs)" and "list_all plain_effect efs"
  shows "user_call e u f w = Some (emit (map Eff efs) (w\<lparr>w_heap := smap_put u usr' (w_heap w)\<rparr>))"
  using assms by (simp add: user_call_def deliver_all_plain settle_def touch_all_plain)

lemma rosterPush_plain: "list_all plain_effect (snd (snd (sendBuddyRosterPush e b r)))"
  by (simp add: sendBuddyRosterPush_def list_all_iff Let_def)

lemma doAddBuddy_plain: "list_all plain_effect (snd (snd (doAddBuddy e b r)))"
  by (simp add: doAddBuddy_def rosterPush_plain)

lemma setBuddy_plain: "list_all plain_effect (snd (setBuddy e b r))"
  using doAddBuddy_plain [of e b "writeBuddy e b r"] by (simp add: setBuddy_def split_def Let_def)

lemma doUpdateBuddy_plain: "list_all plain_effect (snd (snd (doUpdateBuddy e b r)))"
  by (simp add: doUpdateBuddy_def rosterPush_plain)

lemma setAlias_plain: "list_all plain_effect (snd (snd (setAlias e alias b r)))"
  using doUpdateBuddy_plain [of e "b\<lparr>b_alias := alias\<rparr>" r] by (simp add: setAlias_def split_def Let_def)

lemma setGroups_plain: "list_all plain_effect (snd (snd (setGroups e groups b r)))"
  using doUpdateBuddy_plain [of e "b\<lparr>b_groups := groups\<rparr>" r] by (simp add: setGroups_def split_def Let_def)

lemma presences_loop_plain:
  "(\<And>b. list_all plain_effect (snd (f b))) \<Longrightarrow> list_all plain_effect (snd (presences_loop f bs))"
proof (induction bs)
  case (Cons kb bs)
  then show ?case by (cases kb; cases "snd kb") (simp_all add: split_def Let_def)
qed simp

lemma sendCurrentPresences_plain: "list_all plain_effect (snd (sendCurrentPresences e to r))"
proof -
  have "list_all plain_effect (snd (sendBuddyPresences e to b))" for b
    by (simp add: sendBuddyPresences_def Let_def list_all_iff)
  from presences_loop_plain [OF this] show ?thesis by (simp add: sendCurrentPresences_def split_def Let_def)
qed

section \<open>Answers\<close>

definition said :: "wout list \<Rightarrow> iqout list" where
  "said os = List.map_filter (\<lambda>out. case out of IqAnswer a \<Rightarrow> Some a | _ \<Rightarrow> None) os"

lemma said_simps [simp]:
  "said [] = []" "said (xs @ ys) = said xs @ said ys" "said (IqAnswer a # xs) = a # said xs"
  "said (map Eff efs) = []" "said (map PoolOut ps) = []" "said (map IqAnswer as) = as"
  by (simp_all add: said_def map_filter_def filter_map o_def)

text \<open>
  A step of a responder: it appends these answers to the log and leaves the backends and the
  addresses of the users as they are.
\<close>

definition resp_step :: "'d wenv \<Rightarrow> 'd world \<Rightarrow> iqout list \<Rightarrow> 'd world \<Rightarrow> bool" where
  "resp_step e w as w' \<longleftrightarrow> said (w_out w') = said (w_out w) @ as \<and> w_pool w' = w_pool w \<and> um_inv {} e w'
     \<and> w_orc w' = w_orc w \<and> w_users w' = w_users w"

lemma resp_step_trans: "resp_step e w as w1 \<Longrightarrow> resp_step e w1 bs w2 \<Longrightarrow> resp_step e w (as @ bs) w2"
  by (simp add: resp_step_def)

lemma resp_step_quiet [trans]: "resp_step e w as w1 \<Longrightarrow> resp_step e w1 [] w2 \<Longrightarrow> resp_step e w as w2"
  using resp_step_trans [of e w as w1 "[]" w2] by simp

lemma resp_step_emit: "um_inv {} e w \<Longrightarrow> resp_step e w (said os) (emit os w)"
  using um_inv_same [OF _ same_users_emit] by (simp add: resp_step_def emit_def)

lemma resp_step_db: "resp_step e w as w1 \<Longrightarrow> resp_step e w as (w1\<lparr>w_db := db\<rparr>)"
  using um_inv_same [of "{}" e w1 "w1\<lparr>w_db := db\<rparr>"] by (auto simp: resp_step_def same_users_def)

text \<open>\<open>getUser\<close>: nothing is said, and the user it returns differs at most in his settings.\<close>

definition same_user :: "user \<Rightarrow> user \<Rightarrow> bool" where
  "same_user usr usr1 \<longleftrightarrow> (\<exists>ss. usr1 = usr\<lparr>u_info := (u_info usr)\<lparr>ui_settings := ss\<rparr>\<rparr>)"

lemma same_user_sel: "same_user usr usr1 \<Longrightarrow> u_roster usr1 = u_roster usr" "same_user usr usr1 \<Longrightarrow> u_jid usr1 = u_jid usr"
  "same_user usr usr1 \<Longrightarrow> renv_of ue usr1 = renv_of ue usr" "same_user usr usr1 \<Longrightarrow> ui_id (u_info usr1) = ui_id (u_info usr)"
  by (auto simp: same_user_def renv_of_def)

lemma getUser_step:
  assumes "um_inv {} e w"
  shows "\<exists>w1. um_getUser e key w = Some (smap_get (w_users w) key, w1) \<and> resp_step e w [] w1 \<and> w_db w1 = w_db w
    \<and> (\<forall>u. smap_get (w_users w) key = Some u \<longrightarrow>
         (\<exists>usr usr1. smap_get (w_heap w) u = Some usr \<and> smap_get (w_heap w1) u = Some usr1 \<and> same_user usr usr1))"
proof -
  obtain w1 where g: "um_getUser e key w = Some (smap_get (w_users w) key, w1)" and i: "um_inv {} e w1"
    and us: "w_users w1 = w_users w" by (rule getUser_inv [OF assms])
  have "resp_step e w [] w1" using um_getUser_same_state [OF g] i by (simp add: resp_step_def same_state_def)
  moreover have "\<exists>usr usr1. smap_get (w_heap w) u = Some usr \<and> smap_get (w_heap w1) u = Some usr1 \<and> same_user usr usr1"
    if u: "smap_get (w_users w) key = Some u" for u
  proof -
    obtain usr where usr: "smap_get (w_heap w) u = Some usr" using assms u by (force simp: um_inv_def um_ok_iff jids_def)
    have refl: "same_user usr usr" by (auto simp: same_user_def intro: exI [of _ "ui_settings (u_info usr)"])
    have "same_user usr (usr\<lparr>u_info := (u_info usr)\<lparr>ui_settings := ss\<rparr>\<rparr>)" for ss by (auto simp: same_user_def)
    then show ?thesis using refl usr g u
      by (auto simp: um_getUser_def um_lookup_def Let_def bind_eq_Some_conv smap_get_put split: option.splits if_splits)
  qed
  moreover have "w_db w1 = w_db w" using um_getUser_same_state [OF g] by (simp add: same_state_def)
  ultimately show ?thesis using g by blast
qed

text \<open>A member function of the user that only sends stanzas.\<close>

lemma user_call_step:
  assumes "um_inv {} e w" and "smap_get (w_heap w) u = Some usr" and "f (uenv_of e w) usr = Some (usr', efs)"
    and "list_all plain_effect efs" and "u_jid usr' = u_jid usr"
  obtains w' where "user_call e u f w = Some w'" and "resp_step e w [] w'" and "smap_get (w_heap w') u = Some usr'"
proof
  let ?w = "w\<lparr>w_heap := smap_put u usr' (w_heap w)\<rparr>"
  show "user_call e u f w = Some (emit (map Eff efs) ?w)" using user_call_plain [where f = f] assms(2-4) by blast
  have "same_users w ?w" using assms(2,5) by (auto simp: same_users_def jids_def fun_eq_iff smap_get_put smap_ok_put)
  then have "um_inv {} e (emit (map Eff efs) ?w)" using um_inv_same [OF assms(1)] same_users_trans [OF _ same_users_emit] by blast
  then show "resp_step e w [] (emit (map Eff efs) ?w)" by (simp add: resp_step_def emit_def)
  show "smap_get (w_heap (emit (map Eff efs) ?w)) u = Some usr'" by (simp add: emit_def smap_get_put)
qed

lemma roster_call_step:
  assumes "um_inv {} e w" and "smap_get (w_heap w) u = Some usr" and "\<And>re r. list_all plain_effect (snd (g re r))"
  shows "\<exists>w'. user_call e u (\<lambda>ue usr. let (r, out) = g (renv_of ue usr) (u_roster usr) in Some (usr\<lparr>u_roster := r\<rparr>, out)) w = Some w'
    \<and> resp_step e w [] w'
    \<and> smap_get (w_heap w') u = Some (usr\<lparr>u_roster := fst (g (renv_of (uenv_of e w) usr) (u_roster usr))\<rparr>)"
proof -
  let ?f = "\<lambda>ue usr. let (r, out) = g (renv_of ue usr) (u_roster usr) in Some (usr\<lparr>u_roster := r\<rparr>, out)"
  let ?x = "g (renv_of (uenv_of e w) usr) (u_roster usr)"
  have f: "?f (uenv_of e w) usr = Some (usr\<lparr>u_roster := fst ?x\<rparr>, snd ?x)" by (simp add: split_def Let_def)
  show ?thesis by (rule user_call_step [where f = ?f, OF assms(1,2) f]) (auto simp: assms(3))
qed

text \<open>A message to the backend of the user, which exists.\<close>

lemma to_backend_alive:
  assumes "backends_alive P"
  obtains ps where "to_backend u t m P = Some ps"
proof (cases "smap_get (p_data P) u")
  case (Some b)
  then have "smap_get (p_heap P) b \<noteq> None" using assms by (auto simp: backends_alive_def list_all_iff dest: smap_get_SomeD)
  then show ?thesis using that [of "[ToBackend b t m]"] Some by (auto simp: to_backend_def)
qed (use that in \<open>simp add: to_backend_def\<close>)

lemma pool_send_step:
  assumes "um_inv {} e w" and "backends_alive (w_pool w)" and "f = to_backend u t m"
  shows "\<exists>w'. pool_send f w = Some w' \<and> resp_step e w [] w' \<and> w_heap w' = w_heap w"
proof -
  obtain ps where "to_backend u t m (w_pool w) = Some ps" by (rule to_backend_alive [OF assms(2)])
  then have "pool_send f w = Some (emit (map PoolOut ps) w)" using assms(3) by (simp add: pool_send_def pool_call_def)
  moreover have "resp_step e w [] (emit (map PoolOut ps) w)" using resp_step_emit [OF assms(1), of "map PoolOut ps"] by simp
  ultimately show ?thesis by (simp add: emit_def)
qed

lemma vcard_messages:
  "handleVCardRequired pe u name i = to_backend u TYPE_VCARD
     (PB_VCard \<lparr>pbv_userName = pu_bare (pe_user pe u), pbv_buddyName = name, pbv_id = i, pbv_fullname = [],
        pbv_nickname = [], pbv_photo = None\<rparr>)"
  "handleVCardUpdated pe u (Some (photo, nickname)) = to_backend u TYPE_VCARD
     (PB_VCard \<lparr>pbv_userName = pu_bare (pe_user pe u), pbv_buddyName = [], pbv_id = 0, pbv_fullname = [],
        pbv_nickname = nickname, pbv_photo = Some photo\<rparr>)"
  by (simp_all add: fun_eq_iff handleVCardRequired_def handleVCardUpdated_def)

lemma resp_stepD: "resp_step e w as w' \<Longrightarrow> um_inv {} e w'" "resp_step e w as w' \<Longrightarrow> w_pool w' = w_pool w"
  "resp_step e w as w' \<Longrightarrow> uenv_of e w' = uenv_of e w"
  by (simp_all add: resp_step_def uenv_of_def)

section \<open>Every query\<close>

lemma touch_contact_step:
  assumes "um_inv {} e w" and "smap_get (w_heap w) u = Some usr"
  shows "\<exists>w'. touch_contact e u j w = Some w' \<and> resp_step e w [] w'
    \<and> smap_get (w_heap w') u = Some (usr\<lparr>u_roster := touchBuddy (renv_of (uenv_of e w) usr)
           (node_to_legacy (we_sw e) (jid_node j)) (u_roster usr)\<rparr>)"
proof -
  have sw: "ue_sw (uenv_of e w) = we_sw e" by (simp add: uenv_of_def)
  let ?f = "\<lambda>ue usr. Some (usr\<lparr>u_roster := touchBuddy (renv_of ue usr) (node_to_legacy (ue_sw ue) (jid_node j)) (u_roster usr)\<rparr>, [] :: effect list)"
  show ?thesis unfolding touch_contact_def
    by (rule user_call_step [OF assms, of ?f]) (auto simp: sw)
qed

lemma vcard_get_step:
  assumes "um_inv {} e w" and "backends_alive (w_pool w)"
  shows "\<exists>b q' w'. vcard_handleGetRequest e from to i q w = Some (b, q', w') \<and> resp_step e w [] w'"
proof -
  obtain w1 where g: "um_getUser e (bare_str e from) w = Some (smap_get (w_users w) (bare_str e from), w1)" and s1: "resp_step e w [] w1"
    and l: "\<And>u. smap_get (w_users w) (bare_str e from) = Some u \<Longrightarrow> smap_get (w_heap w1) u \<noteq> None"
    using getUser_step [OF assms(1)] by fastforce
  show ?thesis
  proof (cases "smap_get (w_users w) (bare_str e from)")
    case None
    then show ?thesis using g s1 by (auto simp: vcard_handleGetRequest_def)
  next
    case (Some u)
    then obtain usr where usr: "smap_get (w_heap w1) u = Some usr" using l by blast
    define j where "j = vcard_subject (we_sw e) to usr"
    obtain w2 where t: "touch_contact e u j w1 = Some w2" and s2: "resp_step e w1 [] w2"
      using touch_contact_step [OF resp_stepD(1) [OF s1] usr] by blast
    note s12 = resp_step_quiet [OF s1 s2]
    have alive: "backends_alive (w_pool w2)" using assms(2) resp_stepD(2) [OF s12] by simp
    let ?f = "handleVCardRequired (penv_of e w2) u (let name = legacy_name e j usr w1 in
        if jid_resource to \<noteq> [] then name @ ''/'' @ jid_resource to else name) (sint (vq_id q))"
    obtain w3 where p: "pool_send ?f w2 = Some w3" and s3: "resp_step e w2 [] w3"
      using pool_send_step [OF resp_stepD(1) [OF s12] alive vcard_messages(1)] by blast
    show ?thesis
      using resp_step_quiet [OF s12 s3] g Some usr t p by (auto simp: vcard_handleGetRequest_def j_def Let_def)
  qed
qed

lemma vcard_set_step:
  assumes "um_inv {} e w" and "backends_alive (w_pool w)"
  shows "\<exists>b w'. vcard_handleSetRequest e from to i v w = Some (b, w')
    \<and> resp_step e w (if b then [IqResult from None i (IqVCard empty_vcard)] else []) w'"
proof (cases "jid_node to \<noteq> [] \<and> bare_str e from \<noteq> bare_str e to")
  case True
  then show ?thesis using resp_step_emit [OF assms(1), of "[]"] by (auto simp: vcard_handleSetRequest_def emit_def)
next
  case False
  obtain w1 where g: "um_getUser e (bare_str e from) w = Some (smap_get (w_users w) (bare_str e from), w1)" and s1: "resp_step e w [] w1"
    using getUser_step [OF assms(1)] by blast
  show ?thesis
  proof (cases "smap_get (w_users w) (bare_str e from)")
    case None
    then show ?thesis using g s1 False by (auto simp: vcard_handleSetRequest_def)
  next
    case (Some u)
    have alive: "backends_alive (w_pool w1)" using assms(2) resp_stepD(2) [OF s1] by simp
    obtain w2 where p: "pool_send (handleVCardUpdated (penv_of e w1) u (Some (vc_photo v, vc_nickname v))) w1 = Some w2" and s2: "resp_step e w1 [] w2"
      using pool_send_step [OF resp_stepD(1) [OF s1] alive vcard_messages(2)] by blast
    note s12 = resp_step_quiet [OF s1 s2]
    show ?thesis
      using resp_step_trans [OF s12 resp_step_emit [OF resp_stepD(1) [OF s12], of "[IqAnswer (IqResult from None i (IqVCard empty_vcard))]"]]
        g Some p False by (auto simp: vcard_handleSetRequest_def)
  qed
qed

lemma roster_get_step:
  assumes "um_inv {} e w"
  shows "\<exists>items w'. roster_handleGetRequest e from i w = Some w' \<and> resp_step e w [IqResult from None i (IqRoster items)] w'
    \<and> (\<forall>u usr. smap_get (w_users w) (bare_str e from) = Some u \<and> smap_get (w_heap w) u = Some usr
         \<longrightarrow> items = generateRosterPayload (renv_of (uenv_of e w) usr) (u_roster usr))"
proof -
  obtain w1 where g: "um_getUser e (bare_str e from) w = Some (smap_get (w_users w) (bare_str e from), w1)" and s1: "resp_step e w [] w1"
    and l: "\<forall>u. smap_get (w_users w) (bare_str e from) = Some u \<longrightarrow>
         (\<exists>usr usr1. smap_get (w_heap w) u = Some usr \<and> smap_get (w_heap w1) u = Some usr1 \<and> same_user usr usr1)"
    using getUser_step [OF assms(1)] by blast
  define say :: "(jid \<times> string \<times> string list) list \<Rightarrow> 'a world \<Rightarrow> 'a world"
    where "say = (\<lambda>items. emit [IqAnswer (IqResult from None i (IqRoster items))])"
  have say: "resp_step e w [IqResult from None i (IqRoster items)] (say items w1)" for items
    using resp_step_trans [OF s1 resp_step_emit [OF resp_stepD(1) [OF s1], of "[IqAnswer (IqResult from None i (IqRoster items))]"]]
    by (simp add: say_def)
  show ?thesis
  proof (cases "smap_get (w_users w) (bare_str e from)")
    case None
    then show ?thesis using g say [of "[]"] by (auto simp: roster_handleGetRequest_def say_def)
  next
    case (Some u)
    then obtain usr0 usr where usr0: "smap_get (w_heap w) u = Some usr0" and usr: "smap_get (w_heap w1) u = Some usr" and same: "same_user usr0 usr"
      using l by blast
    define items where "items = generateRosterPayload (renv_of (uenv_of e w1) usr) (u_roster usr)"
    have usr2: "smap_get (w_heap (say items w1)) u = Some usr" using usr by (simp add: say_def emit_def)
    let ?f = "\<lambda>ue usr. let (r, out) = sendCurrentPresences (renv_of ue usr) from (u_roster usr) in Some (usr\<lparr>u_roster := r\<rparr>, out)"
    obtain w2 where c: "user_call e u ?f (say items w1) = Some w2" and s2: "resp_step e (say items w1) [] w2"
      using roster_call_step [OF resp_stepD(1) [OF say] usr2, of "\<lambda>re. sendCurrentPresences re from"] sendCurrentPresences_plain
      by blast
    have items: "items = generateRosterPayload (renv_of (uenv_of e w) usr0) (u_roster usr0)"
      using same_user_sel [OF same] resp_stepD(3) [OF s1] by (simp add: items_def)
    show ?thesis
      using resp_step_quiet [OF say s2] g Some usr c usr0 items
      by (auto simp: roster_handleGetRequest_def say_def items_def Let_def)
  qed
qed

lemma buddy_updated_step:
  assumes "um_inv {} e w" and "backends_alive (w_pool w)" and "smap_get (w_heap w) u = Some usr"
    and "getBuddy (renv_of (uenv_of e w) usr) name (u_roster usr) = Some b" and "b_name b = name"
  shows "\<exists>w' usr' b'. handleBuddyUpdated e u name alias groups w = Some w' \<and> resp_step e w [] w'
    \<and> smap_get (w_heap w') u = Some usr' \<and> usr' = usr\<lparr>u_roster := u_roster usr'\<rparr>
    \<and> getBuddy (renv_of (uenv_of e w) usr) name (u_roster usr') = Some b' \<and> b_alias b' = alias \<and> b_groups b' = groups
    \<and> (sw_valid (we_sw e) (b_jid b) \<and> jid_node (b_jid b) \<noteq> [] \<longrightarrow> b_jid b' = b_jid b)"
proof -
  define re where "re = renv_of (uenv_of e w) usr"
  have sw: "re_sw re = we_sw e" by (simp add: re_def renv_of_def uenv_of_def)
  obtain b1 r1 o1 where a: "setAlias re alias b (u_roster usr) = (b1, r1, o1)" by (metis prod_cases3)
  obtain b2 r2 o2 where g: "setGroups re groups b1 r1 = (b2, r2, o2)" by (metis prod_cases3)
  let ?usr = "usr\<lparr>u_roster := writeBuddy re b2 r2\<rparr>"
  have b1: "b_name b1 = b_name b" "b_alias b1 = alias"
    "sw_valid (we_sw e) (b_jid b) \<and> jid_node (b_jid b) \<noteq> [] \<longrightarrow> b_jid b1 = b_jid b" using a sw
    by (auto simp: setAlias_def doUpdateBuddy_def sendBuddyRosterPush_def getJID_def generateJID_def Let_def split: if_splits prod.splits)
  have b2: "b_name b2 = b_name b1" "b_alias b2 = b_alias b1" "b_groups b2 = groups"
    "sw_valid (we_sw e) (b_jid b1) \<and> jid_node (b_jid b1) \<noteq> [] \<longrightarrow> b_jid b2 = b_jid b1" using g sw
    by (auto simp: setGroups_def doUpdateBuddy_def sendBuddyRosterPush_def getJID_def generateJID_def Let_def split: if_splits prod.splits)
  let ?f = "\<lambda>ue usr. let re = renv_of ue usr
            in case getBuddy re name (u_roster usr) of
                 None \<Rightarrow> None
               | Some b \<Rightarrow>
                   (let (b, r, o1) = setAlias re alias b (u_roster usr);
                        (b, r, o2) = setGroups re groups b r
                    in Some (usr\<lparr>u_roster := writeBuddy re b r\<rparr>, o1 @ o2))"
  have f: "?f (uenv_of e w) usr = Some (?usr, o1 @ o2)" using assms(4) a g by (simp add: re_def [symmetric] Let_def)
  have plain: "list_all plain_effect (o1 @ o2)" using setAlias_plain [of re "alias" b "u_roster usr"] setGroups_plain [of re groups b1 r1] a g by simp
  obtain w1 where c: "user_call e u ?f w = Some w1" and s1: "resp_step e w [] w1" and usr1: "smap_get (w_heap w1) u = Some ?usr"
    by (rule user_call_step [where f = ?f, OF assms(1,3) f plain]) auto
  have re1: "renv_of (uenv_of e w1) ?usr = re" using resp_stepD(3) [OF s1] by (simp add: re_def renv_of_def)
  have get: "getBuddy re name (writeBuddy re b2 r2) = Some b2"
    using b1 b2 assms(5) by (simp add: getBuddy_def writeBuddy_def smap_get_or_def smap_get_put)
  obtain w2 where p: "pool_send (to_backend u TYPE_BUDDY_CHANGED (PB_Buddy (pb_of_buddy (penv_of e w1) u (b_name b2) (b_alias b2) (b_groups b2)))) w1 = Some w2"
    and s2: "resp_step e w1 [] w2" and h2: "w_heap w2 = w_heap w1"
    using pool_send_step [OF resp_stepD(1) [OF s1] _ refl] assms(2) resp_stepD(2) [OF s1] by metis
  have "handleBuddyUpdated e u name alias groups w = Some w2"
    using c usr1 re1 get p by (simp add: handleBuddyUpdated_def)
  moreover have "sw_valid (we_sw e) (b_jid b) \<and> jid_node (b_jid b) \<noteq> [] \<longrightarrow> b_jid b2 = b_jid b" using b1(3) b2(4) by simp
  ultimately show ?thesis using resp_step_quiet [OF s1 s2] usr1 h2 get b1 b2 by (auto simp: re_def)
qed

text \<open>A new contact whose address the JID library accepts.\<close>

lemma createBuddy_addr_ok:
  assumes "addr_ok re j"
  shows "\<exists>b. createBuddy re \<lparr>bi_id = i, bi_alias = alias, bi_legacyName = node_to_legacy (re_sw re) (jid_node j),
      bi_subscription = ''both'', bi_groups = groups, bi_settings = [], bi_flags = buddyFlagsFromJID (re_sw re) j\<rparr> = Some b
    \<and> b_name b = node_to_legacy (re_sw re) (jid_node j) \<and> b_alias b = alias \<and> b_groups b = groups \<and> b_subscription b = Both
    \<and> b_jid b = sw_jid (re_sw re) (jid_node j) (sw_str (re_sw re) (cf_jid (re_cf re))) (Some JID_DEFAULT_RESOURCE)"
proof -
  define n where "n = node_to_legacy (re_sw re) (jid_node j)"
  have sn: "safe_name (re_sw re) (buddyFlagsFromJID (re_sw re) j) n = jid_node j"
    using assms unfolding n_def by (intro safe_name_node) (auto simp: addr_ok_def Let_def)
  define b where "b = new_LocalBuddy re i n alias groups (buddyFlagsFromJID (re_sw re) j)"
  have jid: "b_jid b = sw_jid (re_sw re) (jid_node j) (sw_str (re_sw re) (cf_jid (re_cf re))) (Some JID_DEFAULT_RESOURCE)"
    using assms sn by (simp add: b_def new_LocalBuddy_def generateJID_def getSafeName_def addr_ok_def Let_def)
  with assms have "isValid re b" by (simp add: isValid_def getSafeName_def addr_ok_def Let_def)
  then show ?thesis
    unfolding n_def [symmetric]
    using jid by (simp add: createBuddy_def Let_def b_def [symmetric] smap_get_def) (simp add: b_def new_LocalBuddy_def generateJID_def Let_def)
qed

lemma setBuddy_get:
  "\<exists>b'. getBuddy re (b_name b) (fst (setBuddy re b r)) = Some b' \<and> b_name b' = b_name b
    \<and> (sw_valid (re_sw re) (b_jid b) \<and> jid_node (b_jid b) \<noteq> [] \<longrightarrow> b_jid b' = b_jid b)"
proof -
  obtain b1 r1 o1 where d: "doAddBuddy re b (writeBuddy re b r) = (b1, r1, o1)" by (metis prod_cases3)
  then have "b_name b1 = b_name b" "sw_valid (re_sw re) (b_jid b) \<and> jid_node (b_jid b) \<noteq> [] \<longrightarrow> b_jid b1 = b_jid b"
    by (auto simp: doAddBuddy_def sendBuddyRosterPush_def getJID_def generateJID_def Let_def split: if_splits)
  then show ?thesis
    using d by (auto simp: setBuddy_def getBuddy_def storeBuddy_def writeBuddy_def smap_get_or_def smap_get_put)
qed

definition listed_jid :: "'d wenv \<Rightarrow> jid \<Rightarrow> jid" where
  "listed_jid e j = sw_jid (we_sw e) (jid_node j) (sw_str (we_sw e) (cf_jid (we_cf e))) (Some JID_DEFAULT_RESOURCE)"

lemma add_contact_step:
  assumes "um_inv {} e w" and "backends_alive (w_pool w)" and "smap_get (w_heap w) u = Some usr"
    and "addr_ok (renv_of (uenv_of e w) usr) (ri_jid item)"
    and "JIDToBuddy (renv_of (uenv_of e w) usr) (ri_jid item) (u_roster usr) = None" and "jid_node (ri_jid item) \<noteq> []"
  shows "\<exists>w' usr' b'. add_contact e u item w = Some w' \<and> resp_step e w [] w' \<and> smap_get (w_heap w') u = Some usr'
    \<and> usr' = usr\<lparr>u_roster := u_roster usr'\<rparr>
    \<and> JIDToBuddy (renv_of (uenv_of e w) usr) (ri_jid item) (u_roster usr') = Some b'
    \<and> b_alias b' = ri_name item \<and> b_groups b' = ri_groups item \<and> b_jid b' = listed_jid e (ri_jid item)"
proof -
  define re where "re = renv_of (uenv_of e w) usr"
  have cf: "re_cf re = we_cf e" by (simp add: re_def renv_of_def uenv_of_def)
  have sw: "re_sw re = we_sw e" by (simp add: re_def renv_of_def uenv_of_def)
  define n where "n = node_to_legacy (we_sw e) (jid_node (ri_jid item))"
  have "getBuddy re n (u_roster usr) = None" using assms(5) sw by (simp add: JIDToBuddy_def n_def re_def)
  then have name: "legacy_name e (ri_jid item) usr w = n"
    by (simp add: legacy_name_def JIDToLegacyName_def roster_name_def n_def re_def)
  obtain b where b: "createBuddy re (new_contact e item usr w) = Some b" and bn: "b_name b = n"
    and bj: "b_jid b = listed_jid e (ri_jid item)"
    using createBuddy_addr_ok [OF assms(4) [folded re_def], of "-1" "ri_name item" "[]"] name sw n_def cf
    by (auto simp: new_contact_def listed_jid_def)
  have valid: "sw_valid (we_sw e) (b_jid b) \<and> jid_node (b_jid b) \<noteq> []"
    using assms(4) [folded re_def] assms(6) bj sw cf by (simp add: addr_ok_def listed_jid_def Let_def)
  obtain w1 where c: "user_call e u (\<lambda>ue usr. let (r, out) = setBuddy (renv_of ue usr) b (u_roster usr) in Some (usr\<lparr>u_roster := r\<rparr>, out)) w = Some w1"
    and s1: "resp_step e w [] w1" and usr1: "smap_get (w_heap w1) u = Some (usr\<lparr>u_roster := fst (setBuddy re b (u_roster usr))\<rparr>)"
    using roster_call_step [OF assms(1,3), of "\<lambda>re. setBuddy re b"] setBuddy_plain unfolding re_def by blast
  let ?usr = "usr\<lparr>u_roster := fst (setBuddy re b (u_roster usr))\<rparr>"
  have re1: "renv_of (uenv_of e w1) ?usr = re" using resp_stepD(3) [OF s1] by (simp add: re_def renv_of_def)
  obtain b1 where g: "getBuddy (renv_of (uenv_of e w1) ?usr) n (u_roster ?usr) = Some b1" "b_name b1 = n"
    and j1: "b_jid b1 = b_jid b"
    using setBuddy_get [of re b "u_roster usr"] bn re1 valid sw by auto
  have alive: "backends_alive (w_pool w1)" using assms(2) resp_stepD(2) [OF s1] by simp
  obtain w2 usr2 b2 where u: "handleBuddyUpdated e u n (ri_name item) (ri_groups item) w1 = Some w2" and s2: "resp_step e w1 [] w2"
    and r2: "smap_get (w_heap w2) u = Some usr2" "usr2 = ?usr\<lparr>u_roster := u_roster usr2\<rparr>"
      "getBuddy re n (u_roster usr2) = Some b2" "b_alias b2 = ri_name item" "b_groups b2 = ri_groups item" "b_jid b2 = b_jid b1"
    using buddy_updated_step [OF resp_stepD(1) [OF s1] alive usr1 g] re1 valid j1 by metis
  have "add_contact e u item w = Some w2" using assms(3) b c u bn by (simp add: add_contact_def re_def)
  moreover have "JIDToBuddy re (ri_jid item) (u_roster usr2) = Some b2" using r2 sw by (simp add: JIDToBuddy_def n_def)
  moreover have "usr2 = usr\<lparr>u_roster := u_roster usr2\<rparr>" using r2(2) by simp
  ultimately show ?thesis using resp_step_quiet [OF s1 s2] r2(1,4,5) r2(6) [unfolded j1 bj] unfolding re_def by blast
qed

lemma roster_ok_found: "roster_ok re r \<Longrightarrow> getBuddy re n r = Some b \<Longrightarrow> getBuddy re (b_name b) r = Some b"
proof -
  assume ok: "roster_ok re r" and g: "getBuddy re n r = Some b"
  then have "smap_get (r_buddies r) (re_low re n) = Some (Some b)" by (auto simp: getBuddy_def smap_get_or_def split: option.splits)
  moreover from this ok have "re_low re n = re_low re (b_name b)" by (auto simp: roster_ok_def bq_ok_def)
  ultimately show ?thesis by (simp add: getBuddy_def smap_get_or_def)
qed

text \<open>The first item of the request names an address that the JID library accepts.\<close>

definition items_ok :: "'d wenv \<Rightarrow> rosteritem list \<Rightarrow> 'd world \<Rightarrow> bool" where
  "items_ok e items w \<longleftrightarrow> (case items of [] \<Rightarrow> True
     | item # _ \<Rightarrow> list_all (\<lambda>(u, usr). addr_ok (renv_of (uenv_of e w) usr) (ri_jid item)) (w_heap w))"

lemma roster_set_cases:
  assumes "um_inv {} e w" and "smap_get (w_users w) (bare_str e from) = Some u" and "smap_get (w_heap w) u = Some usr"
    and "jid_node (ri_jid item) \<noteq> []"
  obtains w1 usr1 where "resp_step e w [IqResult from None i (IqRoster [])] w1"
    and "smap_get (w_heap w1) u = Some usr1" and "renv_of (uenv_of e w1) usr1 = renv_of (uenv_of e w) usr"
    and "\<And>n. getBuddy (renv_of (uenv_of e w) usr) n (u_roster usr1) = getBuddy (renv_of (uenv_of e w) usr) n (u_roster usr)"
    and "roster_handleSetRequest e from i (item # items) w =
      (case JIDToBuddy (renv_of (uenv_of e w) usr) (ri_jid item) (u_roster usr) of
         Some b \<Rightarrow> change_contact e u (item # items) item b w1
       | None \<Rightarrow> if ri_sub item = ItemRemove then Some w1 else add_contact e u item w1)"
proof -
  define w0 where "w0 = emit [IqAnswer (IqResult from None i (IqRoster []))] w"
  have s0: "resp_step e w [IqResult from None i (IqRoster [])] w0"
    using resp_step_emit [OF assms(1), of "[IqAnswer (IqResult from None i (IqRoster []))]"] by (simp add: w0_def)
  have us: "w_users w0 = w_users w" "w_heap w0 = w_heap w" by (simp_all add: w0_def emit_def)
  obtain wa usra where g: "um_getUser e (bare_str e from) w0 = Some (Some u, wa)" and sa: "resp_step e w0 [] wa"
    and usra: "smap_get (w_heap wa) u = Some usra" "same_user usr usra"
    using getUser_step [OF resp_stepD(1) [OF s0], of "bare_str e from"] assms(2,3) us by auto
  note s1 = resp_step_quiet [OF s0 sa]
  note rea = same_user_sel(3) [OF usra(2), of "uenv_of e w"] resp_stepD(3) [OF s1]
  obtain w1 where t: "touch_contact e u (ri_jid item) wa = Some w1" and st: "resp_step e wa [] w1"
    and u1: "smap_get (w_heap w1) u = Some (usra\<lparr>u_roster := touchBuddy (renv_of (uenv_of e wa) usra) (node_to_legacy (we_sw e) (jid_node (ri_jid item))) (u_roster usra)\<rparr>)"
    using touch_contact_step [OF resp_stepD(1) [OF s1] usra(1)] by blast
  note s2 = resp_step_quiet [OF s1 st]
  show ?thesis
  proof (rule that [OF s2 u1])
    show "renv_of (uenv_of e w1) (usra\<lparr>u_roster := touchBuddy (renv_of (uenv_of e wa) usra) (node_to_legacy (we_sw e) (jid_node (ri_jid item))) (u_roster usra)\<rparr>)
        = renv_of (uenv_of e w) usr"
      using rea resp_stepD(3) [OF s2] by (simp add: renv_of_def)
    show "getBuddy (renv_of (uenv_of e w) usr) n (u_roster (usra\<lparr>u_roster := touchBuddy (renv_of (uenv_of e wa) usra)
        (node_to_legacy (we_sw e) (jid_node (ri_jid item))) (u_roster usra)\<rparr>)) = getBuddy (renv_of (uenv_of e w) usr) n (u_roster usr)" for n
      using rea same_user_sel(1) [OF usra(2)] by simp
    show "roster_handleSetRequest e from i (item # items) w =
      (case JIDToBuddy (renv_of (uenv_of e w) usr) (ri_jid item) (u_roster usr) of
         Some b \<Rightarrow> change_contact e u (item # items) item b w1
       | None \<Rightarrow> if ri_sub item = ItemRemove then Some w1 else add_contact e u item w1)"
      using g t usra(1) assms(4) rea same_user_sel(1) [OF usra(2)] by (simp add: roster_handleSetRequest_def w0_def [symmetric] Let_def)
  qed
qed

lemma roster_set_new:
  assumes "um_inv {} e w" and "smap_get (w_users w) (bare_str e from) = Some u" and "smap_get (w_heap w) u = Some usr"
    and "jid_node (ri_jid item) \<noteq> []" and "ri_sub item \<noteq> ItemRemove"
    and "JIDToBuddy (renv_of (uenv_of e w) usr) (ri_jid item) (u_roster usr) = None"
  shows "\<exists>w1 usr1. resp_step e w [IqResult from None i (IqRoster [])] w1 \<and> smap_get (w_heap w1) u = Some usr1
    \<and> renv_of (uenv_of e w1) usr1 = renv_of (uenv_of e w) usr
    \<and> (\<forall>n. getBuddy (renv_of (uenv_of e w) usr) n (u_roster usr1) = getBuddy (renv_of (uenv_of e w) usr) n (u_roster usr))
    \<and> roster_handleSetRequest e from i (item # items) w = add_contact e u item w1"
proof (rule roster_set_cases [OF assms(1-4), of i items])
  fix w1 usr1
  assume "resp_step e w [IqResult from None i (IqRoster [])] w1" and "smap_get (w_heap w1) u = Some usr1"
    and "renv_of (uenv_of e w1) usr1 = renv_of (uenv_of e w) usr"
    and "\<And>n. getBuddy (renv_of (uenv_of e w) usr) n (u_roster usr1) = getBuddy (renv_of (uenv_of e w) usr) n (u_roster usr)"
    and "roster_handleSetRequest e from i (item # items) w =
      (case JIDToBuddy (renv_of (uenv_of e w) usr) (ri_jid item) (u_roster usr) of
         Some b \<Rightarrow> change_contact e u (item # items) item b w1
       | None \<Rightarrow> if ri_sub item = ItemRemove then Some w1 else add_contact e u item w1)"
  then show ?thesis using assms(5,6) by (intro exI [of _ w1] exI [of _ usr1]) simp
qed

lemma change_contact_step:
  assumes "um_inv {} e w" and "backends_alive (w_pool w)" and "smap_get (w_heap w) u = Some usr"
    and "getBuddy (renv_of (uenv_of e w) usr) (b_name b) (u_roster usr) = Some b"
  shows "\<exists>w' pushes. change_contact e u items item b w = Some w' \<and> resp_step e w pushes w'
    \<and> (\<forall>a \<in> set pushes. \<exists>to. a = IqRosterPush to items)"
proof (cases "ri_sub item = ItemRemove")
  case True
  have eq: "nps_handleBuddyRemoved (penv_of e w) u (b_name b) (b_alias b) (b_groups b)
      = to_backend u TYPE_BUDDY_REMOVED (PB_Buddy (pb_of_buddy (penv_of e w) u (b_name b) (b_alias b) (b_groups b)))"
    by (simp add: fun_eq_iff nps_handleBuddyRemoved_def)
  obtain w1 where p: "pool_send (nps_handleBuddyRemoved (penv_of e w) u (b_name b) (b_alias b) (b_groups b)) w = Some w1"
    and s1: "resp_step e w [] w1" and h: "w_heap w1 = w_heap w"
    using pool_send_step [OF assms(1,2) eq] by blast
  let ?push = "[IqAnswer (IqRosterPush (jid_bare (u_jid usr)) items)]"
  have "change_contact e u items item b w = Some (emit ?push w1)" using True p h assms(3) by (simp add: change_contact_def)
  moreover have "resp_step e w [IqRosterPush (jid_bare (u_jid usr)) items] (emit ?push w1)"
    using resp_step_trans [OF s1 resp_step_emit [OF resp_stepD(1) [OF s1], of ?push]] by simp
  ultimately show ?thesis by fastforce
next
  case False
  obtain w1 where "handleBuddyUpdated e u (b_name b) (ri_name item) (ri_groups item) w = Some w1" and "resp_step e w [] w1"
    using buddy_updated_step [OF assms refl] by blast
  then show ?thesis using False by (fastforce simp: change_contact_def)
qed

lemma roster_set_step:
  assumes "um_inv {} e w" and "backends_alive (w_pool w)" and "rosters_ok e w" and "items_ok e items w"
  shows "\<exists>w' pushes. roster_handleSetRequest e from i items w = Some w'
    \<and> resp_step e w (IqResult from None i (IqRoster []) # pushes) w' \<and> (\<forall>a \<in> set pushes. \<exists>to. a = IqRosterPush to items)"
proof (cases "\<exists>u item rest. smap_get (w_users w) (bare_str e from) = Some u \<and> items = item # rest \<and> jid_node (ri_jid item) \<noteq> []")
  case False
  define w0 where "w0 = emit [IqAnswer (IqResult from None i (IqRoster []))] w"
  have s0: "resp_step e w [IqResult from None i (IqRoster [])] w0"
    using resp_step_emit [OF assms(1), of "[IqAnswer (IqResult from None i (IqRoster []))]"] by (simp add: w0_def)
  have us: "w_users w0 = w_users w" by (simp add: w0_def emit_def)
  obtain wa where g: "um_getUser e (bare_str e from) w0 = Some (smap_get (w_users w) (bare_str e from), wa)" and sa: "resp_step e w0 [] wa"
    using getUser_step [OF resp_stepD(1) [OF s0], of "bare_str e from"] us by auto
  have "roster_handleSetRequest e from i items w = Some wa"
    using g False by (auto simp: roster_handleSetRequest_def w0_def [symmetric] Let_def split: option.splits list.splits)
  then show ?thesis using resp_step_quiet [OF s0 sa] by fastforce
next
  case True
  then obtain u item rest where u: "smap_get (w_users w) (bare_str e from) = Some u" and items: "items = item # rest"
    and node: "jid_node (ri_jid item) \<noteq> []" by blast
  obtain usr where usr: "smap_get (w_heap w) u = Some usr" using assms(1) u by (force simp: um_inv_def um_ok_iff jids_def)
  define re where "re = renv_of (uenv_of e w) usr"
  obtain w1 usr1 where s1: "resp_step e w [IqResult from None i (IqRoster [])] w1" and usr1: "smap_get (w_heap w1) u = Some usr1"
    and re1: "renv_of (uenv_of e w1) usr1 = re" and get: "\<And>n. getBuddy re n (u_roster usr1) = getBuddy re n (u_roster usr)"
    and r: "roster_handleSetRequest e from i (item # rest) w = (case JIDToBuddy re (ri_jid item) (u_roster usr) of
         Some b \<Rightarrow> change_contact e u (item # rest) item b w1
       | None \<Rightarrow> if ri_sub item = ItemRemove then Some w1 else add_contact e u item w1)"
    using roster_set_cases [OF assms(1) u usr node] unfolding re_def by metis
  have alive: "backends_alive (w_pool w1)" using assms(2) resp_stepD(2) [OF s1] by simp
  note i1 = resp_stepD(1) [OF s1]
  show ?thesis
  proof (cases "JIDToBuddy re (ri_jid item) (u_roster usr)")
    case (Some b)
    then have "getBuddy re (b_name b) (u_roster usr) = Some b"
      using roster_ok_found rosters_okD [OF assms(3) usr] by (auto simp: JIDToBuddy_def re_def)
    then obtain w2 pushes where "change_contact e u (item # rest) item b w1 = Some w2" "resp_step e w1 pushes w2"
      "\<forall>a \<in> set pushes. \<exists>to. a = IqRosterPush to (item # rest)"
      using change_contact_step [OF i1 alive usr1, of b "item # rest" item] re1 get by auto
    then show ?thesis using resp_step_trans [OF s1] r Some items by fastforce
  next
    case None
    have "addr_ok re (ri_jid item)" using assms(4) usr by (force simp: items_ok_def items list_all_iff re_def dest: smap_get_SomeD)
    then obtain w2 where "add_contact e u item w1 = Some w2" "resp_step e w1 [] w2"
      using add_contact_step [OF i1 alive usr1, of item] None re1 get node by (auto simp: JIDToBuddy_def)
    then show ?thesis using resp_step_quiet [OF s1] s1 r None items by fastforce
  qed
qed

lemma answer_step: "um_inv {} e w \<Longrightarrow> resp_step e w [a] (emit [IqAnswer a] w)"
  using resp_step_emit [of e w "[IqAnswer a]"] by simp

text \<open>Private storage is the setting \<open>storage\<close> of the user.\<close>

lemma storage_set_eq:
  assumes "um_inv {} e w" and "we_store e = Some st" and "smap_get (w_users w) (bare_str e from) = Some u" and "smap_get (w_heap w) u = Some usr"
  shows "\<exists>w' usr'. storage_handleSetRequest e from i (Some v) w = Some (True, w') \<and> resp_step e w [IqResult from None i IqNoPayload] w'
    \<and> w_db w' = st_updateUserSetting st (ui_id (u_info usr)) ''storage'' v (w_db w)
    \<and> smap_get (w_heap w') u = Some usr' \<and> ui_id (u_info usr') = ui_id (u_info usr)"
proof -
  obtain w1 usr1 where g: "um_getUser e (bare_str e from) w = Some (Some u, w1)" and s1: "resp_step e w [] w1" and d: "w_db w1 = w_db w"
    and u: "smap_get (w_heap w1) u = Some usr1" "same_user usr usr1"
    using getUser_step [OF assms(1), of "bare_str e from"] assms(3,4) by auto
  let ?w = "w1\<lparr>w_db := st_updateUserSetting st (ui_id (u_info usr)) ''storage'' v (w_db w)\<rparr>"
  have s2: "resp_step e w [] ?w" by (rule resp_step_db [OF s1])
  have "storage_handleSetRequest e from i (Some v) w = Some (True, emit [IqAnswer (IqResult from None i IqNoPayload)] ?w)"
    using g u assms(2) d same_user_sel(4) [OF u(2)] by (simp add: storage_handleSetRequest_def Let_def)
  then show ?thesis
    using resp_step_trans [OF s2 answer_step [OF resp_stepD(1) [OF s2]]] u(1) same_user_sel(4) [OF u(2)] by (simp add: emit_def)
qed

lemma storage_get_eq:
  assumes "um_inv {} e w" and "we_store e = Some st" and "smap_get (w_users w) (bare_str e from) = Some u" and "smap_get (w_heap w) u = Some usr"
  shows "\<exists>w'. storage_handleGetRequest e from i w = Some (True, w')
    \<and> resp_step e w [IqResult from None i (IqPrivate (fst (st_getUserSetting st (ui_id (u_info usr)) ''storage'' [] (w_db w))))] w'"
proof -
  obtain w1 usr1 where g: "um_getUser e (bare_str e from) w = Some (Some u, w1)" and s1: "resp_step e w [] w1" and d: "w_db w1 = w_db w"
    and u: "smap_get (w_heap w1) u = Some usr1" "same_user usr usr1"
    using getUser_step [OF assms(1), of "bare_str e from"] assms(3,4) by auto
  obtain v db where vd: "st_getUserSetting st (ui_id (u_info usr)) ''storage'' [] (w_db w) = (v, db)" by fastforce
  have s2: "resp_step e w [] (w1\<lparr>w_db := db\<rparr>)" by (rule resp_step_db [OF s1])
  show ?thesis
    using g u assms(2) d vd same_user_sel(4) [OF u(2)] resp_step_trans [OF s2 answer_step [OF resp_stepD(1) [OF s2]]]
    by (simp add: storage_handleGetRequest_def)
qed

text \<open>The other responders answer after at most one lookup of the user.\<close>

lemma storage_get_step:
  assumes "um_inv {} e w"
  shows "\<exists>b as w'. storage_handleGetRequest e from i w = Some (b, w') \<and> resp_step e w as w'
    \<and> (if b then as = [IqError from i NotAcceptable] \<or> (\<exists>v. as = [IqResult from None i (IqPrivate v)]) else as = [])"
proof (cases "we_store e")
  case None
  then show ?thesis using resp_step_emit [OF assms, of "[]"] by (fastforce simp: storage_handleGetRequest_def emit_def)
next
  case (Some st)
  obtain w1 where g: "um_getUser e (bare_str e from) w = Some (smap_get (w_users w) (bare_str e from), w1)" and s1: "resp_step e w [] w1"
    and l: "\<And>u. smap_get (w_users w) (bare_str e from) = Some u \<Longrightarrow> smap_get (w_heap w1) u \<noteq> None"
    using getUser_step [OF assms(1)] by fastforce
  have say: "resp_step e w [a] (emit [IqAnswer a] (w1\<lparr>w_db := db\<rparr>))" for a db
    using resp_step_trans [OF resp_step_db [OF s1] answer_step [OF resp_stepD(1) [OF resp_step_db [OF s1]]]] by simp
  have "resp_step e w [IqError from i NotAcceptable] (emit [IqAnswer (IqError from i NotAcceptable)] w1)"
    using say [of "IqError from i NotAcceptable" "w_db w1"] by simp
  then show ?thesis
    using g Some l say by (cases "smap_get (w_users w) (bare_str e from)") (fastforce simp: storage_handleGetRequest_def split: prod.splits)+
qed

lemma storage_set_step:
  assumes "um_inv {} e w"
  shows "\<exists>b as w'. storage_handleSetRequest e from i p w = Some (b, w') \<and> resp_step e w as w'
    \<and> (if b then as = [IqError from i NotAcceptable] \<or> as = [IqResult from None i IqNoPayload] else as = [])"
proof (cases "we_store e")
  case None
  then show ?thesis using resp_step_emit [OF assms, of "[]"] by (fastforce simp: storage_handleSetRequest_def emit_def)
next
  case (Some st)
  obtain w1 where g: "um_getUser e (bare_str e from) w = Some (smap_get (w_users w) (bare_str e from), w1)" and s1: "resp_step e w [] w1"
    and l: "\<And>u. smap_get (w_users w) (bare_str e from) = Some u \<Longrightarrow> smap_get (w_heap w1) u \<noteq> None"
    using getUser_step [OF assms(1)] by fastforce
  have say: "resp_step e w [a] (emit [IqAnswer a] (w1\<lparr>w_db := db\<rparr>))" for a db
    using resp_step_trans [OF resp_step_db [OF s1] answer_step [OF resp_stepD(1) [OF resp_step_db [OF s1]]]] by simp
  have "resp_step e w [IqError from i NotAcceptable] (emit [IqAnswer (IqError from i NotAcceptable)] w1)"
    using say [of "IqError from i NotAcceptable" "w_db w1"] by simp
  then show ?thesis
    using g Some l say by (cases "smap_get (w_users w) (bare_str e from)"; cases p) (fastforce simp: storage_handleSetRequest_def)+
qed

lemma answer_after_lookup:
  assumes "um_inv {} e w"
  shows "\<exists>uo w1. um_getUser e key w = Some (uo, w1) \<and> resp_step e w [f uo] (emit [IqAnswer (f uo)] w1)"
  using getUser_step [OF assms, of key] resp_step_trans [of e w "[]"] answer_step [OF resp_stepD(1)] by fastforce

text \<open>\<open>a\<close> answers the query \<open>i\<close> of the client \<open>from\<close>.\<close>

fun answer_to :: "jid \<Rightarrow> string \<Rightarrow> iqout \<Rightarrow> bool" where
  "answer_to from i (IqResult to s j p) \<longleftrightarrow> to = from \<and> j = i"
| "answer_to from i (IqError to j c) \<longleftrightarrow> to = from \<and> j = i"
| "answer_to from i (IqRosterPush to items) \<longleftrightarrow> False"

lemma transport_disco_answers: "answer_to from i (transport_disco from to i node d)"
  by (simp add: transport_disco_def split: option.splits)

lemma contact_disco_answers: "answer_to from i (contact_disco sw from to i node uo d)"
  by (simp add: contact_disco_def split: option.splits)

lemma info_get_step:
  assumes "um_inv {} e w"
  shows "\<exists>a w'. info_handleGetRequest e from to i node d w = Some w' \<and> resp_step e w [a] w' \<and> answer_to from i a"
proof -
  obtain uo w1 where g: "um_getUser e (bare_str e from) w = Some (uo, w1)"
    and s: "resp_step e w [contact_disco (we_sw e) from to i node uo d] (emit [IqAnswer (contact_disco (we_sw e) from to i node uo d)] w1)"
    using answer_after_lookup [OF assms, of "bare_str e from" "\<lambda>uo. contact_disco (we_sw e) from to i node uo d"] by blast
  then show ?thesis
    using answer_step [OF assms] transport_disco_answers contact_disco_answers
    by (fastforce simp: info_handleGetRequest_def split: option.splits)
qed

lemma items_get_step:
  assumes "um_inv {} e w"
  shows "\<exists>a w'. items_handleGetRequest e from to i node d w = Some w' \<and> resp_step e w [a] w' \<and> answer_to from i a"
proof -
  let ?a = "\<lambda>uo. IqResult from None i (IqDiscoItems [] (ds_rooms d @ (case uo of None \<Rightarrow> [] | Some u \<Rightarrow> getRoomList u d)))"
  obtain uo w1 where "um_getUser e (bare_str e from) w = Some (uo, w1)" and "resp_step e w [?a uo] (emit [IqAnswer (?a uo)] w1)"
    using answer_after_lookup [OF assms, of "bare_str e from" ?a] by blast
  then show ?thesis using answer_step [OF assms] by (fastforce simp: items_handleGetRequest_def)
qed

text \<open>All of them together.\<close>

definition one_answer :: "jid \<Rightarrow> string \<Rightarrow> iqout list \<Rightarrow> bool" where
  "one_answer from i as \<longleftrightarrow> length (filter (answer_to from i) as) = 1"

fun query_ok :: "'d wenv \<Rightarrow> iqquery \<Rightarrow> 'd world \<Rightarrow> bool" where
  "query_ok e (RosterSet items) w = items_ok e items w"
| "query_ok e _ w = True"

lemma one_answer_pushes:
  "\<forall>a \<in> set pushes. \<exists>to. a = IqRosterPush to items \<Longrightarrow> one_answer from i (IqResult from s i p # pushes)"
  by (auto simp: one_answer_def filter_empty_conv)

lemma handle_query_step:
  assumes "um_inv {} e w" and "backends_alive (w_pool w)" and "rosters_ok e w" and "query_ok e q w"
  shows "\<exists>b s' w' as. handle_query rc e q from to i s w = Some (b, s', w') \<and> resp_step e w as w'
    \<and> (if b \<and> q \<noteq> VCardGet then one_answer from i as else as = [])"
proof (cases q)
  case RosterGet
  then show ?thesis using roster_get_step [OF assms(1), of "from" i] by (fastforce simp: one_answer_def)
next
  case (RosterSet items)
  then show ?thesis
    using roster_set_step [OF assms(1-3), of items "from" i] assms(4) one_answer_pushes [of _ items "from" i None "IqRoster []"] by fastforce
next
  case VCardGet
  then show ?thesis using vcard_get_step [OF assms(1,2), of "from" to i "rs_vcards s"] by fastforce
next
  case (VCardSet v)
  obtain b w' where "vcard_handleSetRequest e from to i v w = Some (b, w')"
    "resp_step e w (if b then [IqResult from None i (IqVCard empty_vcard)] else []) w'"
    using vcard_set_step [OF assms(1,2)] by blast
  with VCardSet show ?thesis by (cases b) (auto simp: one_answer_def intro!: exI)
next
  case PrivateGet
  obtain b as w' where "storage_handleGetRequest e from i w = Some (b, w')" "resp_step e w as w'"
    "if b then as = [IqError from i NotAcceptable] \<or> (\<exists>v. as = [IqResult from None i (IqPrivate v)]) else as = []"
    using storage_get_step [OF assms(1)] by blast
  with PrivateGet show ?thesis by (cases b) (auto simp: one_answer_def intro!: exI)
next
  case (PrivateSet p)
  obtain b as w' where "storage_handleSetRequest e from i p w = Some (b, w')" "resp_step e w as w'"
    "if b then as = [IqError from i NotAcceptable] \<or> as = [IqResult from None i IqNoPayload] else as = []"
    using storage_set_step [OF assms(1)] by blast
  with PrivateSet show ?thesis by (cases b) (auto simp: one_answer_def intro!: exI)
next
  case (DiscoInfoGet node)
  then show ?thesis using info_get_step [OF assms(1), of "from" to i node "rs_disco s"] by (fastforce simp: one_answer_def)
next
  case (DiscoItemsGet node)
  then show ?thesis using items_get_step [OF assms(1), of "from" to i node "rs_disco s"] by (fastforce simp: one_answer_def)
qed (use answer_step [OF assms(1)] in \<open>fastforce simp: one_answer_def gateway_handleGetRequest_def gateway_handleSetRequest_def
      carbons_enable_def carbons_disable_def\<close>)+

end
