(* ===== verification/VCards.thy ===== *)
theory VCards
  imports RespondersProps
begin

text \<open>
  The life of VCard requests: whatever happens in the rest of the transport between them, every
  request that was accepted is answered once or still waits, and it does not wait for ever.
\<close>

section \<open>Runs\<close>

text \<open>
  A client asks (in some state of the transport), a VCard arrives under a number, the timer of
  \<open>collectTimeouted\<close> ticks. A step says which requests it accepts and which answers it sends.
\<close>

datatype 'd vevent =
    VGet "'d wenv" "'d world" jid jid string
  | VArrived int vcard
  | VTick int

type_synonym vrequest = "jid \<times> jid \<times> string"

fun vstep :: "'d vevent \<Rightarrow> vcards \<Rightarrow> (vcards \<times> vrequest list \<times> iqout list) option" where
  "vstep (VGet e w from to i) q =
     map_option (\<lambda>(b, q, w). (q, if b then [(from, to, i)] else [], [])) (vcard_handleGetRequest e from to i q w)"
| "vstep (VArrived i v) q = (let (q, out) = sendVCard (word_of_int i) v q in Some (q, [], out))"
| "vstep (VTick now) q = (let (q, out) = collectTimeouted now q in Some (q, [], out))"

fun vrun :: "'d vevent list \<Rightarrow> vcards \<Rightarrow> (vcards \<times> vrequest list \<times> iqout list) option" where
  "vrun [] q = Some (q, [], [])"
| "vrun (ev # evs) q =
     do { (q, asked, out) \<leftarrow> vstep ev q;
          (q, asked', out') \<leftarrow> vrun evs q;
          Some (q, asked @ asked', out @ out') }"

fun answered_request :: "iqout \<Rightarrow> vrequest" where
  "answered_request (IqResult to (Some from) i p) = (to, from, i)"
| "answered_request _ = (jid_none, jid_none, [])"

definition request_of :: "vcarddata \<Rightarrow> vrequest" where
  "request_of v = (vd_from v, vd_to v, vd_id v)"

definition waiting :: "vcards \<Rightarrow> vrequest multiset" where
  "waiting q = mset (map (request_of \<circ> snd) (vq_queries q))"

section \<open>Numbers of requests\<close>

definition vq_inv :: "nat \<Rightarrow> vcards \<Rightarrow> bool" where
  "vq_inv n q \<longleftrightarrow> smap_ok (vq_queries q) \<and> vq_id q = word_of_nat n \<and> (\<forall>i \<in> fst ` set (vq_queries q). unat i < n)"

lemma smap_put_fresh: "smap_get m k = None \<Longrightarrow> mset (smap_put k v m) = add_mset (k, v) (mset m)"
  by (induction k v m rule: smap_put.induct) (auto simp: smap_get_Cons split: if_splits)

lemma smap_del_mset: "smap_ok m \<Longrightarrow> smap_get m k = Some v \<Longrightarrow> mset m = add_mset (k, v) (mset (smap_del k m))"
proof (induction m)
  case (Cons kv m)
  obtain k' v' where kv: "kv = (k', v')" by (cases kv)
  have ok: "smap_ok m" "k' \<notin> fst ` set m" using Cons.prems(1) by (auto simp: smap_ok_def kv)
  show ?case
  proof (cases "k = k'")
    case True
    then have "filter (\<lambda>(x, y). x \<noteq> k) m = m" using ok(2) by (intro filter_True) force
    then show ?thesis using True Cons.prems(2) by (simp add: kv smap_del_def smap_get_Cons)
  next
    case False
    then show ?thesis using Cons ok by (simp add: kv smap_del_def smap_get_Cons)
  qed
qed simp

lemma sendVCard_waiting:
  assumes "vq_inv n q" and "sendVCard i v q = (q', out)"
  shows "vq_inv n q' \<and> waiting q = mset (map answered_request out) + waiting q'"
proof (cases "smap_get (vq_queries q) i")
  case (Some d)
  then have "mset (vq_queries q) = add_mset (i, d) (mset (smap_del i (vq_queries q)))"
    using assms(1) smap_del_mset by (auto simp: vq_inv_def)
  from this [THEN arg_cong, of "image_mset (request_of \<circ> snd)"]
  have "waiting q = add_mset (request_of d) (waiting (q\<lparr>vq_queries := smap_del i (vq_queries q)\<rparr>))"
    by (simp add: waiting_def)
  moreover have "vq_inv n (q\<lparr>vq_queries := smap_del i (vq_queries q)\<rparr>)"
    using assms(1) smap_ok_del [of "vq_queries q" i] by (auto simp: vq_inv_def smap_del_def)
  ultimately show ?thesis using assms(2) Some by (auto simp: sendVCard_def vcard_answer_def request_of_def)
qed (use assms in \<open>simp add: sendVCard_def waiting_def\<close>)

lemma send_empty_waiting:
  "vq_inv n q \<Longrightarrow> send_empty is q = (q', out) \<Longrightarrow> vq_inv n q' \<and> waiting q = mset (map answered_request out) + waiting q'"
proof (induction "is" arbitrary: q q' out)
  case (Cons i "is")
  obtain q1 o1 where s: "sendVCard i empty_vcard q = (q1, o1)" by (cases "sendVCard i empty_vcard q")
  obtain q2 o2 where r: "send_empty is q1 = (q2, o2)" by (cases "send_empty is q1")
  have "vq_inv n q1 \<and> waiting q = mset (map answered_request o1) + waiting q1" by (rule sendVCard_waiting [OF Cons.prems(1) s])
  moreover from this have "vq_inv n q2 \<and> waiting q1 = mset (map answered_request o2) + waiting q2" using Cons.IH [OF _ r] by blast
  ultimately show ?case using Cons.prems(2) s r by auto
qed simp

lemma get_request:
  assumes "vq_inv n q" and "n < 2 ^ 32" and "vcard_handleGetRequest e from to i q w = Some (True, q', w')"
  shows "vq_inv (Suc n) q' \<and> waiting q' = add_mset (from, to, i) (waiting q)"
proof -
  define d where "d = \<lparr>vd_from = from, vd_to = to, vd_id = i, vd_received = we_now e\<rparr>"
  have q': "q' = \<lparr>vq_queries = smap_put (vq_id q) d (vq_queries q), vq_id = vq_id q + 1\<rparr>"
    using assms(3) by (auto simp: vcard_handleGetRequest_def bind_eq_Some_conv Let_def d_def split: option.splits)
  have id: "unat (vq_id q) = n" using assms(1,2) by (simp add: vq_inv_def unat_of_nat take_bit_nat_eq_self)
  then have "smap_get (vq_queries q) (vq_id q) = None"
    using assms(1) by (fastforce simp: vq_inv_def smap_get_None_iff)
  then have "mset (vq_queries q') = add_mset (vq_id q, d) (mset (vq_queries q))" using q' smap_put_fresh by simp
  from this [THEN arg_cong, of "image_mset (request_of \<circ> snd)"]
  have "waiting q' = add_mset (from, to, i) (waiting q)" by (simp add: waiting_def d_def request_of_def)
  moreover have "vq_inv (Suc n) q'"
    using assms(1) id q' by (auto simp: vq_inv_def smap_ok_put smap_keys_put add.commute less_Suc_eq)
  ultimately show ?thesis by blast
qed

lemma get_request_refused: "vcard_handleGetRequest e from to i q w = Some (False, q', w') \<Longrightarrow> q' = q"
  by (auto simp: vcard_handleGetRequest_def bind_eq_Some_conv Let_def split: option.splits)

lemma vstep_waiting:
  assumes "vq_inv n q" and "n + length asked \<le> 2 ^ 32" and "vstep ev q = Some (q', asked, out)"
  shows "vq_inv (n + length asked) q' \<and> mset asked + waiting q = mset (map answered_request out) + waiting q'"
proof (cases ev)
  case (VGet e w "from" to i)
  then obtain b w' where g: "vcard_handleGetRequest e from to i q w = Some (b, q', w')" and a: "asked = (if b then [(from, to, i)] else [])" "out = []"
    using assms(3) by auto
  show ?thesis
  proof (cases b)
    case True
    then have "vcard_handleGetRequest e from to i q w = Some (True, q', w')" using g by simp
    then show ?thesis using get_request [OF assms(1)] True a assms(2) by force
  next
    case False
    then have "q' = q" using get_request_refused [of e "from" to i q w q' w'] g by simp
    then show ?thesis using False a assms(1) by simp
  qed
next
  case (VArrived i v)
  then show ?thesis using assms sendVCard_waiting [OF assms(1)] by (auto split: prod.splits)
next
  case (VTick now)
  then show ?thesis using assms send_empty_waiting [OF assms(1)] by (auto simp: collectTimeouted_def split: prod.splits)
qed

lemma vrun_waiting:
  "vq_inv n q \<Longrightarrow> n + length asked \<le> 2 ^ 32 \<Longrightarrow> vrun evs q = Some (q', asked, out)
    \<Longrightarrow> vq_inv (n + length asked) q' \<and> mset asked + waiting q = mset (map answered_request out) + waiting q'"
proof (induction evs arbitrary: n q asked out)
  case (Cons ev evs)
  obtain q1 a1 o1 a2 o2 where s: "vstep ev q = Some (q1, a1, o1)" and r: "vrun evs q1 = Some (q', a2, o2)"
    and ao: "asked = a1 @ a2" "out = o1 @ o2"
    using Cons.prems(3) by (auto simp: bind_eq_Some_conv)
  have s1: "vq_inv (n + length a1) q1" "mset a1 + waiting q = mset (map answered_request o1) + waiting q1"
    using vstep_waiting [OF Cons.prems(1) _ s] Cons.prems(2) ao by auto
  then have "vq_inv (n + length a1 + length a2) q'" and "mset a2 + waiting q1 = mset (map answered_request o2) + waiting q'"
    using Cons.IH [OF s1(1) _ r] Cons.prems(2) ao by simp_all
  then show ?case using s1(2) ao by (simp add: algebra_simps) (metis (no_types, lifting) add.assoc add.commute)
qed simp

section \<open>Time\<close>

lemma send_empty_all:
  "smap_ok (vq_queries q) \<Longrightarrow> distinct is \<Longrightarrow> set is \<subseteq> fst ` set (vq_queries q)
    \<Longrightarrow> send_empty is q = (q\<lparr>vq_queries := filter (\<lambda>(i, v). i \<notin> set is) (vq_queries q)\<rparr>,
          map (\<lambda>i. vcard_answer (the (smap_get (vq_queries q) i)) empty_vcard) is)"
proof (induction "is" arbitrary: q)
  case (Cons i "is")
  then obtain v where v: "smap_get (vq_queries q) i = Some v" by (cases "smap_get (vq_queries q) i") (auto simp: smap_get_None_iff)
  let ?q = "q\<lparr>vq_queries := smap_del i (vq_queries q)\<rparr>"
  have s: "sendVCard i empty_vcard q = (?q, [vcard_answer v empty_vcard])" using v by (simp add: sendVCard_def)
  have "set is \<subseteq> fst ` set (vq_queries ?q)" using Cons.prems(2,3) by (force simp: smap_del_def)
  then have "send_empty is ?q = (?q\<lparr>vq_queries := filter (\<lambda>(j, v). j \<notin> set is) (vq_queries ?q)\<rparr>,
      map (\<lambda>j. vcard_answer (the (smap_get (vq_queries ?q) j)) empty_vcard) is)"
    using Cons.IH [of ?q] Cons.prems(1,2) by (simp add: smap_ok_del)
  moreover have "filter (\<lambda>(j, v). j \<notin> set is) (smap_del i (vq_queries q)) = filter (\<lambda>(j, v). j \<notin> set (i # is)) (vq_queries q)"
    by (auto simp: smap_del_def intro!: filter_cong)
  moreover have "map (\<lambda>j. vcard_answer (the (smap_get (smap_del i (vq_queries q)) j)) empty_vcard) is
      = map (\<lambda>j. vcard_answer (the (smap_get (vq_queries q) j)) empty_vcard) is"
    using Cons.prems(2) by (auto simp: smap_get_del)
  ultimately show ?case using s v by simp
qed (simp add: split_def)

text \<open>The timer answers exactly the requests older than 40 seconds, with an empty VCard.\<close>

lemma collectTimeouted_exact:
  assumes "smap_ok (vq_queries q)"
  shows "collectTimeouted now q = (q\<lparr>vq_queries := filter (\<lambda>(i, v). now - vd_received v \<le> 40) (vq_queries q)\<rparr>,
    map (\<lambda>(i, v). vcard_answer v empty_vcard) (filter (\<lambda>(i, v). now - vd_received v > 40) (vq_queries q)))"
proof -
  let ?old = "filter (\<lambda>(i, v). now - vd_received v > 40) (vq_queries q)"
  have d: "distinct (map fst (vq_queries q))" using assms by (simp add: smap_ok_def strict_sorted_iff)
  then have "distinct (map fst ?old)" by (rule distinct_map_filter)
  moreover have "set (map fst ?old) \<subseteq> fst ` set (vq_queries q)" by auto
  ultimately have "collectTimeouted now q = (q\<lparr>vq_queries := filter (\<lambda>(i, v). i \<notin> set (map fst ?old)) (vq_queries q)\<rparr>,
      map (\<lambda>i. vcard_answer (the (smap_get (vq_queries q) i)) empty_vcard) (map fst ?old))"
    using send_empty_all [OF assms] by (simp add: collectTimeouted_def)
  moreover have "filter (\<lambda>(i, v). i \<notin> set (map fst ?old)) (vq_queries q) = filter (\<lambda>(i, v). now - vd_received v \<le> 40) (vq_queries q)"
    using d by (intro filter_cong refl) (force simp: distinct_map inj_on_def)
  moreover have "map (\<lambda>i. vcard_answer (the (smap_get (vq_queries q) i)) empty_vcard) (map fst ?old)
      = map (\<lambda>(i, v). vcard_answer v empty_vcard) ?old"
    using assms by (auto simp: smap_get_iff [symmetric])
  ultimately show ?thesis by simp
qed

section \<open>Runs end\<close>

text \<open>The state of the transport in which a client asks is one that the other components leave behind.\<close>

fun vevent_ok :: "'d vevent \<Rightarrow> bool" where
  "vevent_ok (VGet e w from to i) \<longleftrightarrow> um_inv {} e w \<and> backends_alive (w_pool w)"
| "vevent_ok _ \<longleftrightarrow> True"

lemma vstep_returns:
  assumes "vevent_ok ev"
  shows "\<exists>q' asked out. vstep ev q = Some (q', asked, out) \<and> length asked \<le> 1"
proof (cases ev)
  case (VGet e w "from" to i)
  then show ?thesis using assms vcard_get_step [of e w "from" to i q] by fastforce
qed (simp_all add: split_def Let_def)

lemma vrun_returns: "list_all vevent_ok evs \<Longrightarrow> \<exists>q' asked out. vrun evs q = Some (q', asked, out) \<and> length asked \<le> length evs"
proof (induction evs arbitrary: q)
  case (Cons ev evs)
  obtain q1 a1 o1 where s: "vstep ev q = Some (q1, a1, o1)" "length a1 \<le> 1" using vstep_returns [of ev q] Cons.prems by auto
  obtain q2 a2 o2 where "vrun evs q1 = Some (q2, a2, o2)" "length a2 \<le> length evs" using Cons.IH [of q1] Cons.prems by auto
  then show ?case using s by simp
qed simp

lemma new_VCardResponder_inv: "vq_inv 0 new_VCardResponder" "waiting new_VCardResponder = {#}"
  by (simp_all add: vq_inv_def waiting_def new_VCardResponder_def)

section \<open>The way of one VCard\<close>

text \<open>
  The number that goes to the backend comes back to the client who asked: the wire carries it as a
  signed number.
\<close>

lemma vcard_number_round_trip: "word_of_int (sint (i :: 32 word)) = i"
  by simp

lemma vcard_reaches_asker:
  assumes "vcard_handleGetRequest e from to i (rs_vcards s) w = Some (True, q, w1)"
  shows "frontend_call rc e (VCardOut (sint (vq_id (rs_vcards s))) fullname nickname photo) (s\<lparr>rs_vcards := q\<rparr>, w2)
    = (s\<lparr>rs_vcards := q\<lparr>vq_queries := smap_del (vq_id (rs_vcards s)) (vq_queries q)\<rparr>\<rparr>,
       emit [IqAnswer (IqResult from (Some to) i (IqVCard \<lparr>vc_fullname = fullname, vc_nickname = nickname, vc_photo = photo\<rparr>))] w2)"
proof -
  have "smap_get (vq_queries q) (vq_id (rs_vcards s)) = Some \<lparr>vd_from = from, vd_to = to, vd_id = i, vd_received = we_now e\<rparr>"
    using assms by (auto simp: vcard_handleGetRequest_def bind_eq_Some_conv Let_def smap_get_put split: option.splits)
  then show ?thesis by (simp add: sendVCard_def vcard_answer_def)
qed

end
