(* ===== verification/NPlugin.thy ===== *)
theory NPlugin
  imports Protocol
begin

text \<open>
  The backend side of the protocol, \<open>plugin/cpp/networkplugin.cpp\<close>: the calls a backend makes to
  report events (each serializes one message and sends it), the dispatcher of the messages the
  server sends, and the PING bookkeeping. The virtual methods a concrete backend implements
  (\<open>handleLoginRequest\<close> and the like) are recorded as the list of requests made to it.
\<close>

section \<open>State\<close>

datatype request =
    LoginRequest string string string "(string, string) smap"
  | LogoutRequest string string
  | StatusChangeRequest string int string
  | MessageSendRequest string string string string string
  | RoomSubjectChangedRequest string string string
  | AttentionRequest string string string
  | JoinRoomRequest string string string string
  | LeaveRoomRequest string string
  | VCardUpdatedRequest string string string
  | VCardRequest string string int
  | BuddyBlockToggled string string bool
  | BuddyUpdatedRequest string string string "string list"
  | BuddyRemovedRequest string string "string list"
  | TypingRequest string string
  | TypedRequest string string
  | StoppedTypingRequest string string
  | ExitRequest
  | RawXMLRequest string

record plugin =
  pl_pingReceived :: bool
  pl_init_res :: int
  pl_sent :: bytes
  pl_requests :: "request list"

record plugin_config =
  pc_needPassword :: bool
  pc_needRegistration :: bool
  pc_supportMUC :: bool
  pc_rawXML :: bool
  pc_disableJIDEscaping :: bool
  pc_extraFields :: "string list"

text \<open>\<open>NetworkPlugin::send\<close>; the transport below only appends to the socket.\<close>

definition np_send :: "codec \<Rightarrow> wtype \<Rightarrow> pb \<Rightarrow> plugin \<Rightarrow> plugin" where
  "np_send cd t m st = st\<lparr>pl_sent := pl_sent st @ frame (wrap cd t m)\<rparr>"

definition np_request :: "request \<Rightarrow> plugin \<Rightarrow> plugin" where
  "np_request r st = st\<lparr>pl_requests := pl_requests st @ [r]\<rparr>"

section \<open>Reporting events to the server\<close>

definition bit_str :: "bool \<Rightarrow> string" where
  "bit_str b = (if b then ''1'' else ''0'')"

definition nl :: string where
  "nl = [CHR 0x0A]"

definition config_text :: "plugin_config \<Rightarrow> string" where
  "config_text cfg =
     ''[registration]'' @ nl
     @ ''needPassword='' @ bit_str (pc_needPassword cfg) @ nl
     @ ''needRegistration='' @ bit_str (pc_needRegistration cfg) @ nl
     @ concat (map (\<lambda>f. ''extraField='' @ f @ nl) (pc_extraFields cfg))
     @ ''[features]'' @ nl
     @ ''muc='' @ bit_str (pc_supportMUC cfg) @ nl
     @ ''rawxml='' @ bit_str (pc_rawXML cfg) @ nl
     @ ''disable_jid_escaping='' @ bit_str (pc_disableJIDEscaping cfg) @ nl"

definition np_sendConfig :: "codec \<Rightarrow> plugin_config \<Rightarrow> plugin \<Rightarrow> plugin" where
  "np_sendConfig cd cfg = np_send cd TYPE_BACKEND_CONFIG (PB_BackendConfig (config_text cfg))"

definition np_sendRawXML :: "codec \<Rightarrow> string \<Rightarrow> plugin \<Rightarrow> plugin" where
  "np_sendRawXML cd xml = np_send cd TYPE_RAW_XML (PB_Raw xml)"

definition empty_convmsg :: pb_convmsg where
  "empty_convmsg = \<lparr>pbc_userName = [], pbc_buddyName = [], pbc_message = [], pbc_nickname = [],
     pbc_xhtml = [], pbc_timestamp = [], pbc_headline = False, pbc_id = [], pbc_pm = False,
     pbc_carbon = False, pbc_attachment = []\<rparr>"

definition empty_buddy :: pb_buddy where
  "empty_buddy = \<lparr>pbb_userName = [], pbb_buddyName = [], pbb_alias = [], pbb_group = [],
     pbb_status = 0, pbb_statusMessage = [], pbb_iconHash = [], pbb_blocked = None\<rparr>"

definition np_handleMessage ::
  "codec \<Rightarrow> string \<Rightarrow> string \<Rightarrow> string \<Rightarrow> string \<Rightarrow> string \<Rightarrow> string \<Rightarrow> bool \<Rightarrow> bool \<Rightarrow> bool
   \<Rightarrow> pb_attachment list \<Rightarrow> plugin \<Rightarrow> plugin" where
  "np_handleMessage cd user legacyName msg nickname xhtml timestamp headline pm carbon atts =
     np_send cd TYPE_CONV_MESSAGE (PB_ConvMsg (empty_convmsg\<lparr>pbc_userName := user,
       pbc_buddyName := legacyName, pbc_message := msg, pbc_nickname := nickname,
       pbc_xhtml := xhtml, pbc_timestamp := timestamp, pbc_headline := headline, pbc_pm := pm,
       pbc_carbon := carbon, pbc_attachment := atts\<rparr>))"

definition np_handleMessageAck :: "codec \<Rightarrow> string \<Rightarrow> string \<Rightarrow> string \<Rightarrow> plugin \<Rightarrow> plugin" where
  "np_handleMessageAck cd user legacyName i =
     np_send cd TYPE_CONV_MESSAGE_ACK (PB_ConvMsg (empty_convmsg\<lparr>pbc_userName := user,
       pbc_buddyName := legacyName, pbc_message := [], pbc_id := i\<rparr>))"

definition np_handleAttention :: "codec \<Rightarrow> string \<Rightarrow> string \<Rightarrow> string \<Rightarrow> plugin \<Rightarrow> plugin" where
  "np_handleAttention cd user buddyName msg =
     np_send cd TYPE_ATTENTION (PB_ConvMsg (empty_convmsg\<lparr>pbc_userName := user,
       pbc_buddyName := buddyName, pbc_message := msg\<rparr>))"

definition np_handleVCard ::
  "codec \<Rightarrow> string \<Rightarrow> int \<Rightarrow> string \<Rightarrow> string \<Rightarrow> string \<Rightarrow> string \<Rightarrow> plugin \<Rightarrow> plugin" where
  "np_handleVCard cd user i legacyName fullName nickname photo =
     np_send cd TYPE_VCARD (PB_VCard \<lparr>pbv_userName = user, pbv_buddyName = legacyName, pbv_id = i,
       pbv_fullname = fullName, pbv_nickname = nickname, pbv_photo = Some photo\<rparr>)"

definition np_handleSubject :: "codec \<Rightarrow> string \<Rightarrow> string \<Rightarrow> string \<Rightarrow> string \<Rightarrow> plugin \<Rightarrow> plugin" where
  "np_handleSubject cd user legacyName msg nickname =
     np_send cd TYPE_ROOM_SUBJECT_CHANGED (PB_ConvMsg (empty_convmsg\<lparr>pbc_userName := user,
       pbc_buddyName := legacyName, pbc_message := msg, pbc_nickname := nickname\<rparr>))"

definition np_handleBuddyChanged ::
  "codec \<Rightarrow> string \<Rightarrow> string \<Rightarrow> string \<Rightarrow> string list \<Rightarrow> int \<Rightarrow> string \<Rightarrow> string \<Rightarrow> bool
   \<Rightarrow> plugin \<Rightarrow> plugin" where
  "np_handleBuddyChanged cd user buddyName alias groups status statusMessage iconHash blocked =
     np_send cd TYPE_BUDDY_CHANGED (PB_Buddy \<lparr>pbb_userName = user, pbb_buddyName = buddyName,
       pbb_alias = alias, pbb_group = groups, pbb_status = status,
       pbb_statusMessage = statusMessage, pbb_iconHash = iconHash, pbb_blocked = Some blocked\<rparr>)"

definition buddy_event :: "codec \<Rightarrow> wtype \<Rightarrow> string \<Rightarrow> string \<Rightarrow> plugin \<Rightarrow> plugin" where
  "buddy_event cd t user buddyName =
     np_send cd t (PB_Buddy (empty_buddy\<lparr>pbb_userName := user, pbb_buddyName := buddyName\<rparr>))"

definition np_handleBuddyRemoved :: "codec \<Rightarrow> string \<Rightarrow> string \<Rightarrow> plugin \<Rightarrow> plugin" where
  "np_handleBuddyRemoved cd = buddy_event cd TYPE_BUDDY_REMOVED"

definition np_handleBuddyTyping :: "codec \<Rightarrow> string \<Rightarrow> string \<Rightarrow> plugin \<Rightarrow> plugin" where
  "np_handleBuddyTyping cd = buddy_event cd TYPE_BUDDY_TYPING"

definition np_handleBuddyTyped :: "codec \<Rightarrow> string \<Rightarrow> string \<Rightarrow> plugin \<Rightarrow> plugin" where
  "np_handleBuddyTyped cd = buddy_event cd TYPE_BUDDY_TYPED"

definition np_handleBuddyStoppedTyping :: "codec \<Rightarrow> string \<Rightarrow> string \<Rightarrow> plugin \<Rightarrow> plugin" where
  "np_handleBuddyStoppedTyping cd = buddy_event cd TYPE_BUDDY_STOPPED_TYPING"

definition np_handleAuthorization :: "codec \<Rightarrow> string \<Rightarrow> string \<Rightarrow> plugin \<Rightarrow> plugin" where
  "np_handleAuthorization cd = buddy_event cd TYPE_AUTH_REQUEST"

definition np_handleConnected :: "codec \<Rightarrow> string \<Rightarrow> plugin \<Rightarrow> plugin" where
  "np_handleConnected cd user = np_send cd TYPE_CONNECTED (PB_Connected user)"

definition np_handleDisconnected :: "codec \<Rightarrow> string \<Rightarrow> int \<Rightarrow> string \<Rightarrow> plugin \<Rightarrow> plugin" where
  "np_handleDisconnected cd user err msg =
     np_send cd TYPE_DISCONNECTED (PB_Disconnected user err msg)"

definition np_handleParticipantChanged ::
  "codec \<Rightarrow> string \<Rightarrow> string \<Rightarrow> string \<Rightarrow> int \<Rightarrow> int \<Rightarrow> string \<Rightarrow> string \<Rightarrow> string
   \<Rightarrow> plugin \<Rightarrow> plugin" where
  "np_handleParticipantChanged cd user nickname room flags status statusMessage newname alias =
     np_send cd TYPE_PARTICIPANT_CHANGED (PB_Participant \<lparr>pbp_userName = user, pbp_room = room,
       pbp_nickname = nickname, pbp_flag = flags, pbp_status = status,
       pbp_statusMessage = statusMessage, pbp_newname = newname, pbp_iconHash = [],
       pbp_alias = alias\<rparr>)"

definition np_handleRoomNicknameChanged ::
  "codec \<Rightarrow> string \<Rightarrow> string \<Rightarrow> string \<Rightarrow> plugin \<Rightarrow> plugin" where
  "np_handleRoomNicknameChanged cd user r nickname =
     np_send cd TYPE_ROOM_NICKNAME_CHANGED (PB_Room \<lparr>pbr_userName = user, pbr_nickname = nickname,
       pbr_room = r, pbr_password = []\<rparr>)"

definition np_handleRoomList ::
  "codec \<Rightarrow> string \<Rightarrow> string list \<Rightarrow> string list \<Rightarrow> plugin \<Rightarrow> plugin" where
  "np_handleRoomList cd user rooms names =
     np_send cd TYPE_ROOM_LIST (PB_RoomList rooms names user)"

section \<open>PING\<close>

text \<open>
  \<open>sendMemoryUsage\<close>: the resident and shared sizes the process measured and the process id are
  arguments.
\<close>

record memory =
  mem_res :: int
  mem_shared :: int
  mem_pid :: string

definition np_sendMemoryUsage :: "codec \<Rightarrow> memory \<Rightarrow> plugin \<Rightarrow> plugin" where
  "np_sendMemoryUsage cd mem st =
     np_send cd TYPE_STATS
       (PB_Stats (mem_res mem) (pl_init_res st) (mem_shared mem) (mem_pid mem)) st"

definition np_sendPong :: "codec \<Rightarrow> memory \<Rightarrow> plugin \<Rightarrow> plugin" where
  "np_sendPong cd mem st =
     np_sendMemoryUsage cd mem
       (let st = st\<lparr>pl_pingReceived := True\<rparr>
        in st\<lparr>pl_sent := pl_sent st @ frame (ser_wrap cd (TYPE_PONG, []))\<rparr>)"

definition np_checkPing :: "plugin \<Rightarrow> plugin" where
  "np_checkPing st =
     (let st = (if pl_pingReceived st then st else np_request ExitRequest st)
      in st\<lparr>pl_pingReceived := False\<rparr>)"

section \<open>Requests from the server\<close>

definition with_parsed :: "'a option \<Rightarrow> ('a \<Rightarrow> plugin \<Rightarrow> plugin) \<Rightarrow> plugin \<Rightarrow> plugin" where
  "with_parsed p f st = (case p of None \<Rightarrow> st | Some x \<Rightarrow> f x st)"

definition np_handleLoginPayload :: "codec \<Rightarrow> bytes \<Rightarrow> plugin \<Rightarrow> plugin" where
  "np_handleLoginPayload cd d = with_parsed (par_login cd d)
     (\<lambda>l. np_request (LoginRequest (pbl_user l) (pbl_legacyName l) (pbl_password l) (pbl_settings l)))"

definition np_handleLogoutPayload :: "codec \<Rightarrow> bytes \<Rightarrow> plugin \<Rightarrow> plugin" where
  "np_handleLogoutPayload cd d = with_parsed (par_logout cd d)
     (\<lambda>(user, legacyName). np_request (LogoutRequest user legacyName))"

definition np_handleStatusChangedPayload :: "codec \<Rightarrow> bytes \<Rightarrow> plugin \<Rightarrow> plugin" where
  "np_handleStatusChangedPayload cd d = with_parsed (par_status cd d)
     (\<lambda>(user, status, msg). np_request (StatusChangeRequest user status msg))"

definition np_handleConvMessagePayload :: "codec \<Rightarrow> bytes \<Rightarrow> plugin \<Rightarrow> plugin" where
  "np_handleConvMessagePayload cd d = with_parsed (par_convmsg cd d)
     (\<lambda>m. np_request (MessageSendRequest (pbc_userName m) (pbc_buddyName m) (pbc_message m)
        (pbc_xhtml m) (pbc_id m)))"

definition np_handleRoomSubjectChangedPayload :: "codec \<Rightarrow> bytes \<Rightarrow> plugin \<Rightarrow> plugin" where
  "np_handleRoomSubjectChangedPayload cd d = with_parsed (par_convmsg cd d)
     (\<lambda>m. np_request (RoomSubjectChangedRequest (pbc_userName m) (pbc_buddyName m) (pbc_message m)))"

definition np_handleAttentionPayload :: "codec \<Rightarrow> bytes \<Rightarrow> plugin \<Rightarrow> plugin" where
  "np_handleAttentionPayload cd d = with_parsed (par_convmsg cd d)
     (\<lambda>m. np_request (AttentionRequest (pbc_userName m) (pbc_buddyName m) (pbc_message m)))"

definition np_handleJoinRoomPayload :: "codec \<Rightarrow> bytes \<Rightarrow> plugin \<Rightarrow> plugin" where
  "np_handleJoinRoomPayload cd d = with_parsed (par_room cd d)
     (\<lambda>r. np_request (JoinRoomRequest (pbr_userName r) (pbr_room r) (pbr_nickname r) (pbr_password r)))"

definition np_handleLeaveRoomPayload :: "codec \<Rightarrow> bytes \<Rightarrow> plugin \<Rightarrow> plugin" where
  "np_handleLeaveRoomPayload cd d = with_parsed (par_room cd d)
     (\<lambda>r. np_request (LeaveRoomRequest (pbr_userName r) (pbr_room r)))"

definition np_handleVCardPayload :: "codec \<Rightarrow> bytes \<Rightarrow> plugin \<Rightarrow> plugin" where
  "np_handleVCardPayload cd d = with_parsed (par_vcard cd d)
     (\<lambda>v st. case pbv_photo v of
        Some photo \<Rightarrow> np_request (VCardUpdatedRequest (pbv_userName v) photo (pbv_nickname v)) st
      | None \<Rightarrow> if pbv_buddyName v \<noteq> []
                then np_request (VCardRequest (pbv_userName v) (pbv_buddyName v) (pbv_id v)) st
                else st)"

definition np_handleBuddyChangedPayload :: "codec \<Rightarrow> bytes \<Rightarrow> plugin \<Rightarrow> plugin" where
  "np_handleBuddyChangedPayload cd d = with_parsed (par_buddy cd d)
     (\<lambda>b. case pbb_blocked b of
        Some bl \<Rightarrow> np_request (BuddyBlockToggled (pbb_userName b) (pbb_buddyName b) bl)
      | None \<Rightarrow> np_request (BuddyUpdatedRequest (pbb_userName b) (pbb_buddyName b) (pbb_alias b)
                  (pbb_group b)))"

definition np_handleBuddyRemovedPayload :: "codec \<Rightarrow> bytes \<Rightarrow> plugin \<Rightarrow> plugin" where
  "np_handleBuddyRemovedPayload cd d = with_parsed (par_buddy cd d)
     (\<lambda>b. np_request (BuddyRemovedRequest (pbb_userName b) (pbb_buddyName b) (pbb_group b)))"

definition np_handleChatStatePayload :: "codec \<Rightarrow> bytes \<Rightarrow> wtype \<Rightarrow> plugin \<Rightarrow> plugin" where
  "np_handleChatStatePayload cd d t = with_parsed (par_buddy cd d)
     (\<lambda>b. case t of
        TYPE_BUDDY_TYPING \<Rightarrow> np_request (TypingRequest (pbb_userName b) (pbb_buddyName b))
      | TYPE_BUDDY_TYPED \<Rightarrow> np_request (TypedRequest (pbb_userName b) (pbb_buddyName b))
      | TYPE_BUDDY_STOPPED_TYPING \<Rightarrow>
          np_request (StoppedTypingRequest (pbb_userName b) (pbb_buddyName b))
      | _ \<Rightarrow> id)"

text \<open>The \<open>switch\<close> of \<open>handleDataRead\<close>; \<open>False\<close> is its \<open>default: return\<close>.\<close>

definition np_dispatch ::
  "codec \<Rightarrow> memory \<Rightarrow> wtype \<times> bytes \<Rightarrow> plugin \<Rightarrow> plugin \<times> bool" where
  "np_dispatch cd mem w st =
     (case w of (t, d) \<Rightarrow>
       (case t of
          TYPE_LOGIN \<Rightarrow> (np_handleLoginPayload cd d st, True)
        | TYPE_LOGOUT \<Rightarrow> (np_handleLogoutPayload cd d st, True)
        | TYPE_PING \<Rightarrow> (np_sendPong cd mem st, True)
        | TYPE_CONV_MESSAGE \<Rightarrow> (np_handleConvMessagePayload cd d st, True)
        | TYPE_ROOM_SUBJECT_CHANGED \<Rightarrow> (np_handleRoomSubjectChangedPayload cd d st, True)
        | TYPE_JOIN_ROOM \<Rightarrow> (np_handleJoinRoomPayload cd d st, True)
        | TYPE_LEAVE_ROOM \<Rightarrow> (np_handleLeaveRoomPayload cd d st, True)
        | TYPE_VCARD \<Rightarrow> (np_handleVCardPayload cd d st, True)
        | TYPE_BUDDY_CHANGED \<Rightarrow> (np_handleBuddyChangedPayload cd d st, True)
        | TYPE_BUDDY_REMOVED \<Rightarrow> (np_handleBuddyRemovedPayload cd d st, True)
        | TYPE_STATUS_CHANGED \<Rightarrow> (np_handleStatusChangedPayload cd d st, True)
        | TYPE_BUDDY_TYPING \<Rightarrow> (np_handleChatStatePayload cd d TYPE_BUDDY_TYPING st, True)
        | TYPE_BUDDY_TYPED \<Rightarrow> (np_handleChatStatePayload cd d TYPE_BUDDY_TYPED st, True)
        | TYPE_BUDDY_STOPPED_TYPING \<Rightarrow>
            (np_handleChatStatePayload cd d TYPE_BUDDY_STOPPED_TYPING st, True)
        | TYPE_ATTENTION \<Rightarrow> (np_handleAttentionPayload cd d st, True)
        | TYPE_EXIT \<Rightarrow> (np_request ExitRequest st, True)
        | TYPE_RAW_XML \<Rightarrow> (np_request (RawXMLRequest (par_raw cd d)) st, True)
        | _ \<Rightarrow> (st, False)))"

definition np_handleDataRead ::
  "codec \<Rightarrow> memory \<Rightarrow> bytes \<Rightarrow> bytes \<times> plugin \<Rightarrow> bytes \<times> plugin" where
  "np_handleDataRead cd mem = plugin_read (par_wrap cd) (np_dispatch cd mem)"

section \<open>Facts\<close>

text \<open>The types the backend's \<open>switch\<close> knows.\<close>

definition np_known :: "wtype \<Rightarrow> bool" where
  "np_known t \<longleftrightarrow> t \<in> {TYPE_LOGIN, TYPE_LOGOUT, TYPE_PING, TYPE_CONV_MESSAGE,
     TYPE_ROOM_SUBJECT_CHANGED, TYPE_JOIN_ROOM, TYPE_LEAVE_ROOM, TYPE_VCARD, TYPE_BUDDY_CHANGED,
     TYPE_BUDDY_REMOVED, TYPE_STATUS_CHANGED, TYPE_BUDDY_TYPING, TYPE_BUDDY_TYPED,
     TYPE_BUDDY_STOPPED_TYPING, TYPE_ATTENTION, TYPE_EXIT, TYPE_RAW_XML}"

lemma np_dispatch_go: "snd (np_dispatch cd mem (t, d) st) \<longleftrightarrow> np_known t"
  by (cases t) (simp_all add: np_dispatch_def np_known_def)

lemma np_send_requests [simp]: "pl_requests (np_send cd t m st) = pl_requests st"
  by (simp add: np_send_def)

lemma np_send_ping [simp]: "pl_pingReceived (np_send cd t m st) = pl_pingReceived st"
  by (simp add: np_send_def)

text \<open>
  C3: A server message of a type the backend does not know (the server sends
  \<open>TYPE_BUDDIES\<close> after a login when \<open>features.send_buddies_on_login\<close> is set) ends the reading call:
  every complete message behind it stays unread in the buffer until more bytes arrive.
\<close>

theorem plugin_unknown_type_stalls:
  assumes "length m < 2 ^ 32" and "par_wrap cd m = Some (t, d)" and "\<not> np_known t"
  shows "np_handleDataRead cd mem (frame m @ stream ms) ([], st) = (stream ms, st)"
proof -
  have "fst (np_dispatch cd mem (t, d) st) = st"
    using assms(3) by (cases t) (simp_all add: np_dispatch_def np_known_def)
  then show ?thesis
    using assms by (simp add: np_handleDataRead_def plugin_read_def pr.loop_frame plugin_step_def
        np_dispatch_go)
qed

definition witness_codec :: codec where
  "witness_codec = \<lparr>ser = (\<lambda>_. []), ser_wrap = (\<lambda>(t, d). if t = TYPE_PING then [9] else [35]),
     par_wrap = (\<lambda>b. if b = [9] then Some (TYPE_PING, []) else Some (TYPE_BUDDIES, [])),
     par_connected = (\<lambda>_. None), par_disconnected = (\<lambda>_. None), par_login = (\<lambda>_. None),
     par_logout = (\<lambda>_. None), par_buddy = (\<lambda>_. None), par_convmsg = (\<lambda>_. None),
     par_room = (\<lambda>_. None), par_roomlist = (\<lambda>_. None), par_participant = (\<lambda>_. None),
     par_vcard = (\<lambda>_. None), par_status = (\<lambda>_. None), par_stats = (\<lambda>_. None),
     par_backendconfig = (\<lambda>_. None), par_raw = (\<lambda>_. [])\<rparr>"

theorem plugin_unknown_type_stalls_witness:
  "np_handleDataRead witness_codec \<lparr>mem_res = 0, mem_shared = 0, mem_pid = []\<rparr>
     (frame [35] @ stream [[9]])
     ([], \<lparr>pl_pingReceived = False, pl_init_res = 0, pl_sent = [], pl_requests = []\<rparr>)
   = (stream [[9]], \<lparr>pl_pingReceived = False, pl_init_res = 0, pl_sent = [], pl_requests = []\<rparr>)"
  by (rule plugin_unknown_type_stalls [where t = TYPE_BUDDIES and d = "[]"])
    (simp_all add: witness_codec_def np_known_def)

text \<open>
  \<open>checkPing\<close> asks the backend to exit exactly when no PING arrived since the previous check:
  after any requests a processed PING re-arms it, and two checks with no PING between them
  always end in an exit request.
\<close>

theorem ping_watchdog:
  "pl_requests (np_checkPing st)
     = pl_requests st @ (if pl_pingReceived st then [] else [ExitRequest])
   \<and> pl_pingReceived (fst (np_dispatch cd mem (TYPE_PING, d) st))
   \<and> pl_requests (np_checkPing (fst (np_dispatch cd mem (TYPE_PING, d) st))) = pl_requests st
   \<and> pl_requests (np_checkPing (np_checkPing st)) = pl_requests (np_checkPing st) @ [ExitRequest]"
  by (simp add: np_checkPing_def np_dispatch_def np_sendPong_def np_sendMemoryUsage_def
      np_request_def Let_def)

end
