(* ===== verification/Tables.thy ===== *)
theory Tables
  imports Codecs Stanza
begin

text \<open>
  The tables that the three storage backends of \<open>libtransport\<close> share (\<open>createDatabase\<close> of
  \<open>SQLite3Backend.cpp\<close>, \<open>MySQLBackend.cpp\<close> and \<open>PQXXBackend.cpp\<close>), the SQL statements on them as functions on
  lists of rows, and the loop with which a contact list is read. The columns \<open>last_login\<close> are written and
  never read; they are left out. Rows are in the order of their insertion; a query without \<open>ORDER BY\<close>
  returns them in an order that SQL does not promise.
\<close>

section \<open>Rows\<close>

record user_row =
  ur_id :: int
  ur_jid :: string
  ur_uin :: string
  ur_password :: string
  ur_language :: string
  ur_encoding :: string
  ur_vip :: bool
  ur_online :: bool

record usetting_row =
  us_user :: int
  us_var :: string
  us_type :: int
  us_value :: string

record buddy_row =
  br_id :: int
  br_user :: int
  br_uin :: string
  br_subscription :: string
  br_nickname :: string
  br_groups :: string
  br_flags :: int

record bsetting_row =
  bs_user :: int
  bs_buddy :: int
  bs_var :: string
  bs_type :: int
  bs_value :: string

record sqldb =
  t_users :: "user_row list"
  t_usettings :: "usetting_row list"
  t_buddies :: "buddy_row list"
  t_bsettings :: "bsetting_row list"

definition empty_db :: sqldb where
  "empty_db = \<lparr>t_users = [], t_usettings = [], t_buddies = [], t_bsettings = []\<rparr>"

section \<open>Statements\<close>

text \<open>The id of a new row in a table whose primary key the database fills in.\<close>

definition next_id :: "int list \<Rightarrow> int" where
  "next_id ids = (if ids = [] then 1 else Max (set ids) + 1)"

definition user_with_jid :: "string \<Rightarrow> sqldb \<Rightarrow> user_row option" where
  "user_with_jid jid db = find (\<lambda>r. ur_jid r = jid) (t_users db)"

definition fill_userinfo :: "user_row \<Rightarrow> userinfo \<Rightarrow> userinfo" where
  "fill_userinfo r user = user\<lparr>ui_id := ur_id r, ui_jid := ur_jid r, ui_uin := ur_uin r, ui_password := ur_password r,
     ui_encoding := ur_encoding r, ui_language := ur_language r, ui_vip := ur_vip r\<rparr>"

text \<open>\<open>UPDATE users SET online=? WHERE id=?\<close>\<close>

definition sql_set_online :: "int \<Rightarrow> bool \<Rightarrow> sqldb \<Rightarrow> sqldb" where
  "sql_set_online i online db =
     db\<lparr>t_users := map (\<lambda>r. if ur_id r = i then r\<lparr>ur_online := online\<rparr> else r) (t_users db)\<rparr>"

text \<open>The four \<open>DELETE\<close> statements of \<open>removeUser\<close> and the two of \<open>removeBuddy\<close>.\<close>

definition sql_delete_user :: "int \<Rightarrow> sqldb \<Rightarrow> sqldb" where
  "sql_delete_user i db = db\<lparr>t_users := filter (\<lambda>r. ur_id r \<noteq> i) (t_users db)\<rparr>"

definition sql_delete_user_settings :: "int \<Rightarrow> sqldb \<Rightarrow> sqldb" where
  "sql_delete_user_settings i db = db\<lparr>t_usettings := filter (\<lambda>r. us_user r \<noteq> i) (t_usettings db)\<rparr>"

definition sql_delete_user_buddies :: "int \<Rightarrow> sqldb \<Rightarrow> sqldb" where
  "sql_delete_user_buddies i db = db\<lparr>t_buddies := filter (\<lambda>r. br_user r \<noteq> i) (t_buddies db)\<rparr>"

definition sql_delete_user_buddies_settings :: "int \<Rightarrow> sqldb \<Rightarrow> sqldb" where
  "sql_delete_user_buddies_settings i db = db\<lparr>t_bsettings := filter (\<lambda>r. bs_user r \<noteq> i) (t_bsettings db)\<rparr>"

definition sql_delete_buddy :: "int \<Rightarrow> sqldb \<Rightarrow> sqldb" where
  "sql_delete_buddy i db = db\<lparr>t_buddies := filter (\<lambda>r. br_id r \<noteq> i) (t_buddies db)\<rparr>"

definition sql_delete_buddy_settings :: "int \<Rightarrow> sqldb \<Rightarrow> sqldb" where
  "sql_delete_buddy_settings i db = db\<lparr>t_bsettings := filter (\<lambda>r. bs_buddy r \<noteq> i) (t_bsettings db)\<rparr>"

text \<open>\<open>INSERT INTO buddies\<close>: \<open>None\<close> if \<open>UNIQUE (user_id, uin)\<close> would be violated.\<close>

definition sql_insert_buddy :: "int \<Rightarrow> string \<Rightarrow> string \<Rightarrow> string \<Rightarrow> string \<Rightarrow> int \<Rightarrow> sqldb \<Rightarrow> (int \<times> sqldb) option" where
  "sql_insert_buddy userId uin subscription groups nickname flags db =
     (if (userId, uin) \<in> set (map (\<lambda>r. (br_user r, br_uin r)) (t_buddies db)) then None
      else let i = next_id (map br_id (t_buddies db))
           in Some (i, db\<lparr>t_buddies := t_buddies db @
                [\<lparr>br_id = i, br_user = userId, br_uin = uin, br_subscription = subscription, br_nickname = nickname,
                  br_groups = groups, br_flags = flags\<rparr>]\<rparr>))"

text \<open>\<open>UPDATE buddies SET groups=?, nickname=?, flags=?, subscription=? WHERE user_id=? AND uin=?\<close>\<close>

definition sql_update_buddy :: "string \<Rightarrow> string \<Rightarrow> int \<Rightarrow> string \<Rightarrow> int \<Rightarrow> string \<Rightarrow> sqldb \<Rightarrow> sqldb" where
  "sql_update_buddy groups nickname flags subscription userId uin db =
     db\<lparr>t_buddies := map (\<lambda>r. if br_user r = userId \<and> br_uin r = uin
          then r\<lparr>br_groups := groups, br_nickname := nickname, br_flags := flags, br_subscription := subscription\<rparr>
          else r) (t_buddies db)\<rparr>"

text \<open>\<open>INSERT OR REPLACE INTO buddies_settings\<close> with the primary key \<open>(buddy_id, var)\<close>.\<close>

definition sql_replace_bsetting :: "bsetting_row \<Rightarrow> sqldb \<Rightarrow> sqldb" where
  "sql_replace_bsetting row db =
     db\<lparr>t_bsettings := filter (\<lambda>r. (bs_buddy r, bs_var r) \<noteq> (bs_buddy row, bs_var row)) (t_bsettings db) @ [row]\<rparr>"

definition sql_user_setting :: "int \<Rightarrow> string \<Rightarrow> sqldb \<Rightarrow> usetting_row option" where
  "sql_user_setting i var db = find (\<lambda>r. us_user r = i \<and> us_var r = var) (t_usettings db)"

definition sql_insert_usetting :: "usetting_row \<Rightarrow> sqldb \<Rightarrow> sqldb" where
  "sql_insert_usetting row db =
     (if (us_user row, us_var row) \<in> set (map (\<lambda>r. (us_user r, us_var r)) (t_usettings db)) then db
      else db\<lparr>t_usettings := t_usettings db @ [row]\<rparr>)"

definition sql_update_usetting :: "string \<Rightarrow> int \<Rightarrow> string \<Rightarrow> sqldb \<Rightarrow> sqldb" where
  "sql_update_usetting val i var db =
     db\<lparr>t_usettings := map (\<lambda>r. if us_user r = i \<and> us_var r = var then r\<lparr>us_value := val\<rparr> else r) (t_usettings db)\<rparr>"

text \<open>The two queries of \<open>getBuddies\<close>, \<open>ORDER BY id\<close> and \<open>ORDER BY buddy_id\<close>.\<close>

definition sql_buddies :: "int \<Rightarrow> sqldb \<Rightarrow> buddy_row list" where
  "sql_buddies i db = sort_key br_id (filter (\<lambda>r. br_user r = i) (t_buddies db))"

definition sql_bsettings :: "int \<Rightarrow> sqldb \<Rightarrow> bsetting_row list" where
  "sql_bsettings i db = sort_key bs_buddy (filter (\<lambda>r. bs_user r = i) (t_bsettings db))"

definition fill_buddyinfo :: "buddy_row \<Rightarrow> buddyinfo" where
  "fill_buddyinfo r = \<lparr>bi_id = br_id r, bi_alias = br_nickname r, bi_legacyName = br_uin r,
     bi_subscription = br_subscription r, bi_groups = deserializeGroups (br_groups r), bi_settings = [], bi_flags = br_flags r\<rparr>"

section \<open>Reading settings\<close>

text \<open>\<open>atoi\<close>\<close>

definition is_space :: "char \<Rightarrow> bool" where
  "is_space c \<longleftrightarrow> c \<in> {CHR 0x20, CHR 0x09, CHR 0x0A, CHR 0x0B, CHR 0x0C, CHR 0x0D}"

definition is_digit :: "char \<Rightarrow> bool" where
  "is_digit c \<longleftrightarrow> (of_char c :: nat) \<in> {48..57}"

definition digits_value :: "string \<Rightarrow> int" where
  "digits_value s = foldl (\<lambda>n c. 10 * n + (of_char c - 48)) 0 (takeWhile is_digit s)"

definition atoi :: "string \<Rightarrow> int" where
  "atoi s =
     (case dropWhile is_space s of
        [] \<Rightarrow> 0
      | c # cs \<Rightarrow> if c = CHR ''-'' then - digits_value cs
                 else if c = CHR ''+'' then digits_value cs else digits_value (c # cs))"

text \<open>
  The \<open>switch\<close> over the type of a row: a boolean or a text is read into \<open>var\<close>, whose other fields keep
  what an earlier row has left there; a row of any other type is skipped.
\<close>

definition read_setting :: "bsetting_row \<Rightarrow> settingvar \<Rightarrow> settingvar" where
  "read_setting r var =
     (let var = var\<lparr>sv_type := bs_type r\<rparr>
      in if bs_type r = TYPE_BOOLEAN then var\<lparr>sv_b := (atoi (bs_value r) \<noteq> 0)\<rparr>
         else if bs_type r = TYPE_STRING then var\<lparr>sv_s := bs_value r\<rparr> else var)"

definition known_type :: "int \<Rightarrow> bool" where
  "known_type t \<longleftrightarrow> t = TYPE_BOOLEAN \<or> t = TYPE_STRING"

text \<open>
  The inner loop of \<open>SQLite3Backend::getBuddies\<close> and \<open>MySQLBackend::getBuddies\<close> for the contact \<open>b\<close>: rows are
  fetched while \<open>buddy_id\<close> is -1. A row of another contact is kept in \<open>buddy_id\<close>, \<open>key\<close> and \<open>var\<close>.
\<close>

type_synonym cursor_state = "bsetting_row list \<times> int \<times> string \<times> settingvar"

fun fetch_settings ::
  "int \<Rightarrow> bsetting_row list \<Rightarrow> int \<Rightarrow> string \<Rightarrow> settingvar \<Rightarrow> (string, settingvar) smap
    \<Rightarrow> (string, settingvar) smap \<times> cursor_state" where
  "fetch_settings b [] buddy_id key var ss = (ss, [], buddy_id, key, var)"
| "fetch_settings b (r # rs) buddy_id key var ss =
     (if buddy_id \<noteq> -1 then (ss, r # rs, buddy_id, key, var)
      else let buddy_id = bs_buddy r; var = read_setting r var; key = bs_var r
           in if \<not> known_type (bs_type r) then fetch_settings b rs (if buddy_id = b then -1 else buddy_id) key var ss
              else if buddy_id = b then fetch_settings b rs (-1) key var (smap_put key var ss)
              else fetch_settings b rs buddy_id key var ss)"

text \<open>The outer loop, over the contacts in the order of their ids.\<close>

fun merge_loop :: "buddyinfo list \<Rightarrow> bsetting_row list \<Rightarrow> int \<Rightarrow> string \<Rightarrow> settingvar \<Rightarrow> buddyinfo list" where
  "merge_loop [] rows buddy_id key var = []"
| "merge_loop (b # bs) rows buddy_id key var =
     (let (ss, buddy_id) = (if buddy_id = bi_id b then (smap_put key var (bi_settings b), -1) else (bi_settings b, buddy_id));
          (ss, rows, buddy_id, key, var) = fetch_settings (bi_id b) rows buddy_id key var ss
      in b\<lparr>bi_settings := ss\<rparr> # merge_loop bs rows buddy_id key var)"

section \<open>The loop computes a join\<close>

text \<open>
  What a setting says, whatever an earlier row has left in the other fields; and the specification of
  the loop: the settings of a contact are the rows that name its id.
\<close>

definition sv_view :: "settingvar \<Rightarrow> int \<times> (bool + string)" where
  "sv_view v = (sv_type v, if sv_type v = TYPE_BOOLEAN then Inl (sv_b v) else Inr (sv_s v))"

definition row_view :: "bsetting_row \<Rightarrow> int \<times> (bool + string)" where
  "row_view r = (bs_type r, if bs_type r = TYPE_BOOLEAN then Inl (atoi (bs_value r) \<noteq> 0) else Inr (bs_value r))"

definition view_settings :: "(string, settingvar) smap \<Rightarrow> (string, int \<times> (bool + string)) smap" where
  "view_settings = map (\<lambda>(k, v). (k, sv_view v))"

definition put_row :: "bsetting_row \<Rightarrow> (string, int \<times> (bool + string)) smap \<Rightarrow> (string, int \<times> (bool + string)) smap" where
  "put_row r = smap_put (bs_var r) (row_view r)"

definition joined :: "bsetting_row list \<Rightarrow> int \<Rightarrow> (string, int \<times> (bool + string)) smap" where
  "joined rows b = fold put_row (filter (\<lambda>r. bs_buddy r = b) rows) []"

lemma view_settings_put: "view_settings (smap_put k v m) = smap_put k (sv_view v) (view_settings m)"
  by (induction k v m rule: smap_put.induct) (auto simp: view_settings_def)

lemma view_read_setting: "known_type (bs_type r) \<Longrightarrow> sv_view (read_setting r v) = row_view r"
  by (auto simp: sv_view_def read_setting_def row_view_def known_type_def TYPE_BOOLEAN_def TYPE_STRING_def)

lemma view_put_read:
  "known_type (bs_type r) \<Longrightarrow> view_settings (smap_put (bs_var r) (read_setting r v) ss) = put_row r (view_settings ss)"
  by (simp add: view_settings_put view_read_setting put_row_def)

lemma fetch_waits: "b' \<noteq> -1 \<Longrightarrow> fetch_settings b rows b' key var ss = (ss, rows, b', key, var)"
  by (cases rows) simp_all

text \<open>The rows of the contact are put into its map; the next row, if there is one, is kept.\<close>

lemma fetch_own:
  assumes "list_all (\<lambda>r. known_type (bs_type r)) rows" and "\<And>r. r \<in> set rest \<Longrightarrow> bs_buddy r \<noteq> -1"
    and "list_all (\<lambda>r. bs_buddy r = b) rows" and "rest = [] \<or> bs_buddy (hd rest) \<noteq> b \<and> known_type (bs_type (hd rest))"
  shows "\<exists>ss' key' v. fetch_settings b (rows @ rest) (-1) key var ss
      = (ss', tl rest, (if rest = [] then -1 else bs_buddy (hd rest)), key',
          (if rest = [] then v else read_setting (hd rest) v))
    \<and> view_settings ss' = fold put_row rows (view_settings ss) \<and> (rest \<noteq> [] \<longrightarrow> key' = bs_var (hd rest))"
  using assms(1,3)
proof (induction rows arbitrary: key var ss)
  case Nil
  show ?case
  proof (cases rest)
    case (Cons r rs)
    then show ?thesis using assms(2) [of r] assms(4) by (auto simp: Let_def fetch_waits)
  qed auto
next
  case (Cons r rows)
  then have "fetch_settings b ((r # rows) @ rest) (-1) key var ss
      = fetch_settings b (rows @ rest) (-1) (bs_var r) (read_setting r var) (smap_put (bs_var r) (read_setting r var) ss)"
    by (simp add: Let_def)
  then show ?case using Cons.IH [of "bs_var r" "read_setting r var" "smap_put (bs_var r) (read_setting r var) ss"] Cons.prems
    by (simp add: view_put_read)
qed

text \<open>A kept row that belongs to no contact of the list is never put anywhere, and no further row is fetched.\<close>

lemma merge_stuck:
  assumes "b' \<noteq> -1" and "b' \<notin> bi_id ` set bs"
  shows "merge_loop bs rows b' key var = bs"
  using assms(2) by (induction bs) (auto simp: fetch_waits [OF assms(1)])

text \<open>The rows still to be handled, the kept one included.\<close>

definition reading :: "bsetting_row list \<Rightarrow> bsetting_row list \<Rightarrow> int \<Rightarrow> string \<Rightarrow> settingvar \<Rightarrow> bool" where
  "reading R rows buddy_id key var \<longleftrightarrow> buddy_id = -1 \<and> rows = R
     \<or> (\<exists>r v. R = r # rows \<and> buddy_id = bs_buddy r \<and> key = bs_var r \<and> var = read_setting r v)"

definition rows_ok :: "bsetting_row list \<Rightarrow> bool" where
  "rows_ok R \<longleftrightarrow> sorted (map bs_buddy R) \<and> list_all (\<lambda>r. known_type (bs_type r) \<and> bs_buddy r \<noteq> -1) R"

lemma sorted_map_dropWhile: "sorted (map f xs) \<Longrightarrow> sorted (map f (dropWhile P xs))"
  by (induction xs) auto

lemma rows_ok_dropWhile: "rows_ok R \<Longrightarrow> rows_ok (dropWhile P R)"
  by (auto simp: rows_ok_def list_all_iff sorted_map_dropWhile dest: set_dropWhileD)

lemma merge_step:
  assumes "reading R rows buddy_id key var" and "rows_ok R" and "bi_id b \<noteq> -1" and "bi_settings b = []"
  obtains ss rows' buddy_id' key' var' where
    "merge_loop (b # bs) rows buddy_id key var = b\<lparr>bi_settings := ss\<rparr> # merge_loop bs rows' buddy_id' key' var'"
    and "reading (dropWhile (\<lambda>r. bs_buddy r = bi_id b) R) rows' buddy_id' key' var'"
    and "view_settings ss = fold put_row (takeWhile (\<lambda>r. bs_buddy r = bi_id b) R) []"
proof -
  define own where "own = takeWhile (\<lambda>r. bs_buddy r = bi_id b) R"
  define rest where "rest = dropWhile (\<lambda>r. bs_buddy r = bi_id b) R"
  have R: "R = own @ rest" by (simp add: own_def rest_def)
  have own: "list_all (\<lambda>r. bs_buddy r = bi_id b) own" by (auto simp: own_def list_all_iff dest: set_takeWhileD)
  have R_ok: "known_type (bs_type r) \<and> bs_buddy r \<noteq> -1" if "r \<in> set R" for r
    using assms(2) that by (auto simp: rows_ok_def list_all_iff)
  have ok: "list_all (\<lambda>r. known_type (bs_type r)) own" "\<And>r. r \<in> set rest \<Longrightarrow> bs_buddy r \<noteq> -1"
    using R_ok by (simp_all add: R list_all_iff)
  have "rest \<noteq> [] \<Longrightarrow> bs_buddy (hd rest) \<noteq> bi_id b" using hd_dropWhile [of "\<lambda>r. bs_buddy r = bi_id b" R] by (simp add: rest_def)
  then have first: "rest = [] \<or> bs_buddy (hd rest) \<noteq> bi_id b \<and> known_type (bs_type (hd rest))"
    using R_ok [of "hd rest"] by (cases rest) (auto simp: R)
  note result = that [unfolded own_def [symmetric] rest_def [symmetric]]
  have fetched: "\<exists>ss' rows' b' key' v'. fetch_settings (bi_id b) (rs @ rest) (-1) k v ss = (ss', rows', b', key', v')
      \<and> reading rest rows' b' key' v' \<and> view_settings ss' = fold put_row rs (view_settings ss)"
    if "list_all (\<lambda>r. bs_buddy r = bi_id b) rs" "list_all (\<lambda>r. known_type (bs_type r)) rs" for rs k v ss
    using fetch_own [OF that(2) ok(2) that(1) first, of k v ss] by (cases rest) (auto simp: reading_def)
  from assms(1) consider "buddy_id = -1" "rows = R"
    | r v where "R = r # rows" "buddy_id = bs_buddy r" "key = bs_var r" "var = read_setting r v"
    by (auto simp: reading_def)
  then show ?thesis
  proof cases
    case 1
    obtain ss' rows' b' k' v' where f: "fetch_settings (bi_id b) R (-1) key var [] = (ss', rows', b', k', v')"
      "reading rest rows' b' k' v'" "view_settings ss' = fold put_row own (view_settings [])"
      using fetched [OF own ok(1), of key var "[]"] R by auto
    show ?thesis using f 1 assms(3,4) by (intro result [OF _ f(2)]) (auto simp: view_settings_def)
  next
    case 2
    show ?thesis
    proof (cases "bs_buddy r = bi_id b")
      case True
      define own' where "own' = takeWhile (\<lambda>r. bs_buddy r = bi_id b) rows"
      have own': "own = r # own'" "rows = own' @ rest" unfolding own_def own'_def rest_def 2(1) using True by simp_all
      then have "known_type (bs_type r)" using ok(1) by simp
      then have "view_settings (smap_put key var []) = put_row r []" using view_put_read [of r v "[]"] 2 by (simp add: view_settings_def)
      moreover obtain ss' rows' b' k' v' where f: "fetch_settings (bi_id b) rows (-1) key var (smap_put key var []) = (ss', rows', b', k', v')"
        "reading rest rows' b' k' v'" "view_settings ss' = fold put_row own' (view_settings (smap_put key var []))"
        using fetched [of own' key var "smap_put key var []"] own ok(1) own' by auto
      ultimately show ?thesis using 2(2) True assms(4) own'(1) by (intro result [OF _ f(2), of ss']) simp_all
    next
      case False
      then have "own = []" "rest = R" using 2(1) by (simp_all add: own_def rest_def)
      moreover have "buddy_id \<noteq> -1" "buddy_id \<noteq> bi_id b" using assms(2) 2(1,2) False by (auto simp: rows_ok_def)
      ultimately show ?thesis using assms(1,4) by (intro result [of "[]" rows buddy_id key var]) (auto simp: fetch_waits view_settings_def)
    qed
  qed
qed

lemma joined_split:
  assumes "sorted (map bs_buddy R)" and "sorted_wrt (<) (i # js)"
  shows "joined (takeWhile (\<lambda>r. bs_buddy r \<in> set (i # js)) R) i = fold put_row (takeWhile (\<lambda>r. bs_buddy r = i) R) []"
    and "j \<in> set js \<Longrightarrow> joined (takeWhile (\<lambda>r. bs_buddy r \<in> set (i # js)) R) j
      = joined (takeWhile (\<lambda>r. bs_buddy r \<in> set js) (dropWhile (\<lambda>r. bs_buddy r = i) R)) j"
proof -
  define own where "own = takeWhile (\<lambda>r. bs_buddy r = i) R"
  define rest where "rest = dropWhile (\<lambda>r. bs_buddy r = i) R"
  have R: "R = own @ rest" by (simp add: own_def rest_def)
  have own: "\<And>r. r \<in> set own \<Longrightarrow> bs_buddy r = i" by (auto simp: own_def dest: set_takeWhileD)
  let ?t = "takeWhile (\<lambda>r. bs_buddy r \<in> set js) rest"
  have above: "i < bs_buddy r" if "r \<in> set rest" "bs_buddy (hd rest) \<in> set js" for r
  proof -
    have "sorted (map bs_buddy rest)" using assms(1) by (simp add: rest_def sorted_map_dropWhile)
    then have "bs_buddy (hd rest) \<le> bs_buddy r" using that(1) by (cases rest) auto
    then show ?thesis using assms(2) that(2) by fastforce
  qed
  have hd: "rest \<noteq> [] \<Longrightarrow> bs_buddy (hd rest) \<noteq> i" using hd_dropWhile [of "\<lambda>r. bs_buddy r = i" R] by (auto simp: rest_def)
  have "takeWhile (\<lambda>r. bs_buddy r \<in> set (i # js)) rest = ?t"
  proof (cases "rest = [] \<or> bs_buddy (hd rest) \<notin> set js")
    case True
    then show ?thesis using hd by (cases rest) auto
  next
    case False
    then show ?thesis using above by (intro takeWhile_cong) auto
  qed
  then have t: "takeWhile (\<lambda>r. bs_buddy r \<in> set (i # js)) R = own @ ?t"
    using own by (simp add: R takeWhile_append2)
  have "i \<notin> bs_buddy ` set ?t"
    using above hd by (cases rest) (auto dest: set_takeWhileD split: if_splits)
  then have "filter (\<lambda>r. bs_buddy r = i) ?t = []" by (auto simp: filter_empty_conv)
  then show "joined (takeWhile (\<lambda>r. bs_buddy r \<in> set (i # js)) R) i = fold put_row (takeWhile (\<lambda>r. bs_buddy r = i) R) []"
    using own by (simp only: t joined_def filter_append own_def [symmetric]) (simp add: filter_id_conv)
  assume "j \<in> set js"
  then have "i \<noteq> j" using assms(2) by auto
  then have "filter (\<lambda>r. bs_buddy r = j) own = []" using own by (auto simp: filter_empty_conv)
  then show "joined (takeWhile (\<lambda>r. bs_buddy r \<in> set (i # js)) R) j
      = joined (takeWhile (\<lambda>r. bs_buddy r \<in> set js) (dropWhile (\<lambda>r. bs_buddy r = i) R)) j"
    by (simp only: t joined_def filter_append rest_def [symmetric]) simp
qed

lemma merge_join:
  assumes "reading R rows buddy_id key var" and "rows_ok R"
    and "sorted_wrt (<) (map bi_id bs)" and "-1 \<notin> bi_id ` set bs" and "list_all (\<lambda>b. bi_settings b = []) bs"
  shows "map (\<lambda>b. view_settings (bi_settings b)) (merge_loop bs rows buddy_id key var)
    = map (\<lambda>b. joined (takeWhile (\<lambda>r. bs_buddy r \<in> bi_id ` set bs) R) (bi_id b)) bs"
  using assms
proof (induction bs arbitrary: R rows buddy_id key var)
  case (Cons b bs)
  have b: "bi_id b \<noteq> -1" "bi_settings b = []" and srt: "sorted (map bs_buddy R)" using Cons.prems by (auto simp: rows_ok_def)
  obtain ss rows' b' k' v' where st: "merge_loop (b # bs) rows buddy_id key var = b\<lparr>bi_settings := ss\<rparr> # merge_loop bs rows' b' k' v'"
    "reading (dropWhile (\<lambda>r. bs_buddy r = bi_id b) R) rows' b' k' v'"
    "view_settings ss = fold put_row (takeWhile (\<lambda>r. bs_buddy r = bi_id b) R) []"
    by (rule merge_step [OF Cons.prems(1,2) b])
  have ih: "map (\<lambda>b. view_settings (bi_settings b)) (merge_loop bs rows' b' k' v')
    = map (\<lambda>c. joined (takeWhile (\<lambda>r. bs_buddy r \<in> bi_id ` set bs) (dropWhile (\<lambda>r. bs_buddy r = bi_id b) R)) (bi_id c)) bs"
    using Cons.prems by (intro Cons.IH st(2) rows_ok_dropWhile) auto
  have js: "sorted_wrt (<) (bi_id b # map bi_id bs)" using Cons.prems(3) by simp
  note j = joined_split [OF srt js, unfolded list.set set_map]
  have "joined (takeWhile (\<lambda>r. bs_buddy r \<in> insert (bi_id b) (bi_id ` set bs)) R) (bi_id c)
    = joined (takeWhile (\<lambda>r. bs_buddy r \<in> bi_id ` set bs) (dropWhile (\<lambda>r. bs_buddy r = bi_id b) R)) (bi_id c)"
    if "c \<in> set bs" for c using j(2) [of "bi_id c"] that by simp
  then show ?case by (simp only: st(1,3) j(1) ih list.map list.set image_insert buddyinfo.simps cong: map_cong) (simp add: st(3))
qed simp

lemma merge_loop_rest: "map (\<lambda>b. b\<lparr>bi_settings := []\<rparr>) (merge_loop bs rows buddy_id key var) = map (\<lambda>b. b\<lparr>bi_settings := []\<rparr>) bs"
  by (induction bs arbitrary: rows buddy_id key var) (auto simp: split_def Let_def)

end
