(* ===== verification/Sqlite.thy ===== *)
theory Sqlite
  imports Tables Storage
begin

text \<open>
  \<open>libtransport/SQLite3Backend.cpp\<close>: every operation of the storage interface on the tables of
  \<open>Tables\<close>. A statement may fail for reasons outside the tables (a full disk, a lock): \<open>faults\<close> says which
  statements fail, a query after how many rows. Strings are bound with \<open>c_str()\<close> and end at their first
  zero byte. \<open>None\<close> is the use of \<open>settings.find("icon_hash")\<close> when there is no such setting.
\<close>

section \<open>Definitions\<close>

datatype stmt =
    SetUser | GetUser | RemoveUser | RemoveUserBuddies | RemoveUserSettings | RemoveUserBuddiesSettings
  | RemoveBuddy | RemoveBuddySettings | AddBuddy | UpdateBuddy | GetBuddies | GetBuddiesSettings
  | GetUserSettings | GetUserSetting | SetUserSetting | UpdateUserSetting | UpdateBuddySetting | GetBuddySetting
  | SetUserOnline | GetOnlineUsers | GetUsers | GetLegacyNetworkUsers

type_synonym faults = "stmt \<Rightarrow> nat option"

definition no_faults :: faults where "no_faults = (\<lambda>_. None)"

definition exec_stmt :: "faults \<Rightarrow> stmt \<Rightarrow> (sqldb \<Rightarrow> sqldb) \<Rightarrow> sqldb \<Rightarrow> sqldb" where
  "exec_stmt f s change db = (if f s = None then change db else db)"

definition query_rows :: "faults \<Rightarrow> stmt \<Rightarrow> 'r list \<Rightarrow> 'r list \<times> bool" where
  "query_rows f s rows = (case f s of None \<Rightarrow> (rows, True) | Some n \<Rightarrow> (take n rows, False))"

definition c_str :: "string \<Rightarrow> string" where
  "c_str s = takeWhile (\<lambda>c. c \<noteq> NUL) s"

subsection \<open>The file and its tables\<close>

text \<open>
  The tables a file has. \<open>createDatabase\<close> creates all tables if it can create \<open>buddies\<close>; \<open>connect\<close> then
  prepares the statements, which fails if a table is missing.
\<close>

record disk =
  d_buddies :: "buddy_row list option"
  d_bsettings :: "bsetting_row list option"
  d_users :: "user_row list option"
  d_usettings :: "usetting_row list option"

definition create_table :: "'r list option \<Rightarrow> 'r list option" where
  "create_table t = (case t of None \<Rightarrow> Some [] | Some rows \<Rightarrow> Some rows)"

definition sqlite_createDatabase :: "disk \<Rightarrow> disk" where
  "sqlite_createDatabase d =
     (if d_buddies d = None
      then \<lparr>d_buddies = Some [], d_bsettings = create_table (d_bsettings d), d_users = create_table (d_users d),
            d_usettings = create_table (d_usettings d)\<rparr>
      else d)"

definition sqlite_connect :: "bool \<Rightarrow> disk \<Rightarrow> sqldb option \<times> disk" where
  "sqlite_connect opened d =
     (if \<not> opened then (None, d)
      else let d = sqlite_createDatabase d
           in case (d_buddies d, d_bsettings d, d_users d, d_usettings d) of
                (Some b, Some bs, Some u, Some us) \<Rightarrow> (Some \<lparr>t_users = u, t_usettings = us, t_buddies = b, t_bsettings = bs\<rparr>, d)
              | _ \<Rightarrow> (None, d))"

subsection \<open>Users\<close>

text \<open>\<open>INSERT OR REPLACE INTO users (id, ...) VALUES ((SELECT id FROM users WHERE jid = ?), ...)\<close>\<close>

definition sql_replace_user :: "userinfo \<Rightarrow> sqldb \<Rightarrow> sqldb" where
  "sql_replace_user user db =
     (let i = (case user_with_jid (c_str (ui_jid user)) db of
                 None \<Rightarrow> next_id (map ur_id (t_users db)) | Some r \<Rightarrow> ur_id r);
          row = \<lparr>ur_id = i, ur_jid = c_str (ui_jid user), ur_uin = c_str (ui_uin user),
                 ur_password = c_str (ui_password user), ur_language = c_str (ui_language user),
                 ur_encoding = c_str (ui_encoding user), ur_vip = ui_vip user, ur_online = False\<rparr>
      in db\<lparr>t_users := filter (\<lambda>r. ur_id r \<noteq> i \<and> ur_jid r \<noteq> c_str (ui_jid user)) (t_users db) @ [row]\<rparr>)"

definition sqlite_setUser :: "faults \<Rightarrow> userinfo \<Rightarrow> sqldb \<Rightarrow> sqldb" where
  "sqlite_setUser f user = exec_stmt f SetUser (sql_replace_user user)"

definition sqlite_getUser :: "faults \<Rightarrow> string \<Rightarrow> userinfo \<Rightarrow> sqldb \<Rightarrow> bool \<times> userinfo" where
  "sqlite_getUser f barejid user db =
     (case fst (query_rows f GetUser (filter (\<lambda>r. ur_jid r = c_str barejid) (t_users db))) of
        [] \<Rightarrow> (False, user)
      | r # _ \<Rightarrow> (True, fill_userinfo r user))"

definition sqlite_setUserOnline :: "faults \<Rightarrow> int \<Rightarrow> bool \<Rightarrow> sqldb \<Rightarrow> sqldb" where
  "sqlite_setUserOnline f i online = exec_stmt f SetUserOnline (sql_set_online i online)"

definition sqlite_getOnlineUsers :: "faults \<Rightarrow> sqldb \<Rightarrow> string list \<Rightarrow> bool \<times> string list" where
  "sqlite_getOnlineUsers f db users =
     (let (rows, ok) = query_rows f GetOnlineUsers (filter ur_online (t_users db)) in (ok, users @ map ur_jid rows))"

definition sqlite_getUsers :: "faults \<Rightarrow> sqldb \<Rightarrow> string list \<Rightarrow> bool \<times> string list" where
  "sqlite_getUsers f db users = (let (rows, ok) = query_rows f GetUsers (t_users db) in (ok, users @ map ur_jid rows))"

definition sqlite_getLegacyNetworkUsers :: "faults \<Rightarrow> sqldb \<Rightarrow> string list \<Rightarrow> bool \<times> string list" where
  "sqlite_getLegacyNetworkUsers f db users =
     (let (rows, ok) = query_rows f GetLegacyNetworkUsers (t_users db) in (ok, users @ map ur_uin rows))"

definition sqlite_removeUser :: "faults \<Rightarrow> int \<Rightarrow> sqldb \<Rightarrow> bool \<times> sqldb" where
  "sqlite_removeUser f i db =
     (if f RemoveUser \<noteq> None then (False, db)
      else let db = sql_delete_user i db
      in if f RemoveUserSettings \<noteq> None then (False, db)
      else let db = sql_delete_user_settings i db
      in if f RemoveUserBuddies \<noteq> None then (False, db)
      else let db = sql_delete_user_buddies i db
      in if f RemoveUserBuddiesSettings \<noteq> None then (False, db)
      else (True, sql_delete_user_buddies_settings i db))"

subsection \<open>Contacts\<close>

definition icon_row :: "int \<Rightarrow> int \<Rightarrow> settingvar \<Rightarrow> bsetting_row" where
  "icon_row userId buddyId v =
     \<lparr>bs_user = userId, bs_buddy = buddyId, bs_var = ''icon_hash'', bs_type = TYPE_STRING, bs_value = c_str (sv_s v)\<rparr>"

definition sqlite_addBuddy :: "faults \<Rightarrow> int \<Rightarrow> buddyinfo \<Rightarrow> sqldb \<Rightarrow> (int \<times> sqldb) option" where
  "sqlite_addBuddy f userId b db =
     (if f AddBuddy \<noteq> None then Some (-1, db)
      else case sql_insert_buddy userId (c_str (bi_legacyName b)) (c_str (bi_subscription b))
                  (c_str (serializeGroups (bi_groups b))) (c_str (bi_alias b)) (bi_flags b) db of
             None \<Rightarrow> Some (-1, db)
           | Some (i, db) \<Rightarrow>
               do { v \<leftarrow> smap_get (bi_settings b) ''icon_hash'';
                    Some (i, exec_stmt f UpdateBuddySetting (sql_replace_bsetting (icon_row userId i v)) db) })"

definition sqlite_updateBuddy :: "faults \<Rightarrow> int \<Rightarrow> buddyinfo \<Rightarrow> sqldb \<Rightarrow> sqldb option" where
  "sqlite_updateBuddy f userId b db =
     (let db = exec_stmt f UpdateBuddy (sql_update_buddy (c_str (serializeGroups (bi_groups b))) (c_str (bi_alias b))
                 (bi_flags b) (c_str (bi_subscription b)) userId (c_str (bi_legacyName b))) db
      in do { v \<leftarrow> smap_get (bi_settings b) ''icon_hash'';
              Some (exec_stmt f UpdateBuddySetting (sql_replace_bsetting (icon_row userId (bi_id b) v)) db) })"

text \<open>\<open>var0\<close> is the uninitialized variable of the function; the list is appended to \<open>roster\<close>.\<close>

definition sqlite_getBuddies :: "faults \<Rightarrow> settingvar \<Rightarrow> int \<Rightarrow> buddyinfo list \<Rightarrow> sqldb \<Rightarrow> bool \<times> buddyinfo list" where
  "sqlite_getBuddies f var0 i roster db =
     (let (bs, ok) = query_rows f GetBuddies (sql_buddies i db);
          (ss, ok2) = query_rows f GetBuddiesSettings (sql_bsettings i db)
      in (ok \<and> ok2, roster @ merge_loop (map fill_buddyinfo bs) ss (-1) [] var0))"

definition sqlite_removeBuddy :: "faults \<Rightarrow> int \<Rightarrow> sqldb \<Rightarrow> sqldb" where
  "sqlite_removeBuddy f i db =
     (if f RemoveBuddy \<noteq> None then db
      else exec_stmt f RemoveBuddySettings (sql_delete_buddy_settings i) (sql_delete_buddy i db))"

subsection \<open>Settings\<close>

definition sqlite_getAllSettings :: "faults \<Rightarrow> int \<Rightarrow> (string, string) smap \<Rightarrow> sqldb \<Rightarrow> (string, string) smap" where
  "sqlite_getAllSettings f i m db =
     fold (\<lambda>r. smap_put (us_var r) (us_value r))
       (fst (query_rows f GetUserSettings (filter (\<lambda>r. us_user r = i) (t_usettings db)))) m"

text \<open>\<open>type\<close> and \<open>value\<close> are defaults that are stored if there is no row.\<close>

definition sqlite_getUserSetting ::
  "faults \<Rightarrow> int \<Rightarrow> string \<Rightarrow> int \<times> string \<Rightarrow> sqldb \<Rightarrow> (int \<times> string) \<times> sqldb" where
  "sqlite_getUserSetting f i variable tv db =
     (case (if f GetUserSetting = Some 0 then None else sql_user_setting i (c_str variable) db) of
        None \<Rightarrow> (tv, exec_stmt f SetUserSetting
                 (sql_insert_usetting \<lparr>us_user = i, us_var = c_str variable, us_type = fst tv, us_value = c_str (snd tv)\<rparr>) db)
      | Some r \<Rightarrow> ((us_type r, us_value r), db))"

definition sqlite_updateUserSetting :: "faults \<Rightarrow> int \<Rightarrow> string \<Rightarrow> string \<Rightarrow> sqldb \<Rightarrow> sqldb" where
  "sqlite_updateUserSetting f i variable val =
     exec_stmt f UpdateUserSetting (sql_update_usetting (c_str val) i (c_str variable))"

definition sqlite_getBuddySetting :: "faults \<Rightarrow> int \<Rightarrow> int \<Rightarrow> string \<Rightarrow> int \<times> string \<Rightarrow> sqldb \<Rightarrow> int \<times> string" where
  "sqlite_getBuddySetting f userId buddyId variable tv db =
     (case (if f GetBuddySetting = Some 0 then None
            else find (\<lambda>r. bs_user r = userId \<and> bs_buddy r = buddyId \<and> bs_var r = c_str variable) (t_bsettings db)) of
        None \<Rightarrow> tv
      | Some r \<Rightarrow> (bs_type r, bs_value r))"

definition sqlite_updateBuddySetting :: "faults \<Rightarrow> int \<Rightarrow> int \<Rightarrow> string \<Rightarrow> int \<Rightarrow> string \<Rightarrow> sqldb \<Rightarrow> sqldb" where
  "sqlite_updateBuddySetting f userId buddyId variable type val =
     exec_stmt f UpdateBuddySetting (sql_replace_bsetting \<lparr>bs_user = userId, bs_buddy = buddyId,
       bs_var = c_str variable, bs_type = type, bs_value = c_str val\<rparr>)"

section \<open>The constraints of the schema\<close>

text \<open>
  The keys of the four tables are unique, ids are positive (so no contact has the id -1, which means
  that it is not stored), and no text has a zero byte.
\<close>

definition text_ok :: "string \<Rightarrow> bool" where
  "text_ok s \<longleftrightarrow> NUL \<notin> set s"

definition users_ok :: "user_row list \<Rightarrow> bool" where
  "users_ok us \<longleftrightarrow> distinct (map ur_id us) \<and> distinct (map ur_jid us)
     \<and> list_all (\<lambda>r. 0 < ur_id r \<and> list_all text_ok [ur_jid r, ur_uin r, ur_password r, ur_language r, ur_encoding r]) us"

definition usettings_ok :: "usetting_row list \<Rightarrow> bool" where
  "usettings_ok ss \<longleftrightarrow> distinct (map (\<lambda>r. (us_user r, us_var r)) ss) \<and> list_all (\<lambda>r. text_ok (us_var r) \<and> text_ok (us_value r)) ss"

definition buddies_ok :: "buddy_row list \<Rightarrow> bool" where
  "buddies_ok bs \<longleftrightarrow> distinct (map br_id bs) \<and> distinct (map (\<lambda>r. (br_user r, br_uin r)) bs)
     \<and> list_all (\<lambda>r. 0 < br_id r \<and> list_all text_ok [br_uin r, br_subscription r, br_nickname r, br_groups r]) bs"

definition bsettings_ok :: "bsetting_row list \<Rightarrow> bool" where
  "bsettings_ok ss \<longleftrightarrow> distinct (map (\<lambda>r. (bs_buddy r, bs_var r)) ss) \<and> list_all (\<lambda>r. text_ok (bs_var r) \<and> text_ok (bs_value r)) ss"

definition db_ok :: "sqldb \<Rightarrow> bool" where
  "db_ok db \<longleftrightarrow> users_ok (t_users db) \<and> usettings_ok (t_usettings db) \<and> buddies_ok (t_buddies db) \<and> bsettings_ok (t_bsettings db)"

lemmas tables_ok_defs = users_ok_def usettings_ok_def buddies_ok_def bsettings_ok_def

lemma text_ok_c_str [simp]: "text_ok (c_str s)"
  by (auto simp: text_ok_def c_str_def dest: set_takeWhileD)

lemma c_str_id: "text_ok s \<Longrightarrow> c_str s = s"
  by (auto simp: c_str_def text_ok_def takeWhile_eq_all_conv)

lemma c_str_c_str [simp]: "c_str (c_str s) = c_str s"
  by (simp add: c_str_id)

lemma next_id_fresh: "next_id ids \<notin> set ids"
  by (auto simp: next_id_def dest: Max_ge [OF finite_set, rotated])

lemma next_id_pos: "list_all (\<lambda>i. 0 < i) ids \<Longrightarrow> 0 < next_id ids"
  using Max_in [of "set ids"] by (fastforce simp: next_id_def list_all_iff)

lemma if_pair [simp]: "(if a = i \<and> b = u then (i, u) else (a, b)) = (a, b)"
  by auto

subsection \<open>Every operation keeps them\<close>

definition keeps_ok :: "(sqldb \<Rightarrow> sqldb) \<Rightarrow> bool" where
  "keeps_ok g \<longleftrightarrow> (\<forall>db. db_ok db \<longrightarrow> db_ok (g db))"

named_theorems keeps_ok_intros

lemma keeps_ok_exec [keeps_ok_intros]: "keeps_ok g \<Longrightarrow> keeps_ok (exec_stmt f s g)"
  by (simp add: keeps_ok_def exec_stmt_def)

lemma filter_ok:
  "users_ok us \<Longrightarrow> users_ok (filter P us)" "usettings_ok ss \<Longrightarrow> usettings_ok (filter Q ss)"
  "buddies_ok bs \<Longrightarrow> buddies_ok (filter R bs)" "bsettings_ok bss \<Longrightarrow> bsettings_ok (filter S bss)"
  by (auto simp: tables_ok_defs distinct_map_filter list_all_iff)

lemma keeps_ok_delete [keeps_ok_intros]:
  "keeps_ok (sql_delete_user i)" "keeps_ok (sql_delete_user_settings i)" "keeps_ok (sql_delete_user_buddies i)"
  "keeps_ok (sql_delete_user_buddies_settings i)" "keeps_ok (sql_delete_buddy i)" "keeps_ok (sql_delete_buddy_settings i)"
  by (simp_all add: keeps_ok_def db_ok_def sql_delete_user_def sql_delete_user_settings_def sql_delete_user_buddies_def
      sql_delete_user_buddies_settings_def sql_delete_buddy_def sql_delete_buddy_settings_def filter_ok)

lemma keeps_ok_set_online [keeps_ok_intros]: "keeps_ok (sql_set_online i b)"
  by (auto simp: keeps_ok_def db_ok_def users_ok_def sql_set_online_def list_all_iff comp_def if_distrib cong: if_cong)

lemma keeps_ok_replace_user [keeps_ok_intros]: "keeps_ok (sql_replace_user user)"
proof -
  have "users_ok (filter (\<lambda>r. ur_id r \<noteq> i \<and> ur_jid r \<noteq> c_str (ui_jid user)) us @
      [\<lparr>ur_id = i, ur_jid = c_str (ui_jid user), ur_uin = c_str (ui_uin user), ur_password = c_str (ui_password user),
        ur_language = c_str (ui_language user), ur_encoding = c_str (ui_encoding user), ur_vip = ui_vip user, ur_online = False\<rparr>])"
    if "users_ok us" "0 < i" for us i
    using that by (auto simp: users_ok_def distinct_map_filter list_all_iff)
  moreover have "0 < (case user_with_jid j db of None \<Rightarrow> next_id (map ur_id (t_users db)) | Some r \<Rightarrow> ur_id r)"
    if "users_ok (t_users db)" for j db
    using that
    by (auto simp: users_ok_def user_with_jid_def list_all_iff find_Some_iff intro!: next_id_pos split: option.splits)
  ultimately show ?thesis by (auto simp: keeps_ok_def db_ok_def sql_replace_user_def Let_def)
qed

lemma keeps_ok_update_buddy [keeps_ok_intros]:
  "text_ok g \<Longrightarrow> text_ok n \<Longrightarrow> text_ok s \<Longrightarrow> keeps_ok (sql_update_buddy g n fl s i u)"
  by (auto simp: keeps_ok_def db_ok_def buddies_ok_def sql_update_buddy_def list_all_iff comp_def if_distrib cong: if_cong)

lemma keeps_ok_replace_bsetting [keeps_ok_intros]:
  "text_ok (bs_var r) \<Longrightarrow> text_ok (bs_value r) \<Longrightarrow> keeps_ok (sql_replace_bsetting r)"
  by (auto simp: keeps_ok_def db_ok_def bsettings_ok_def sql_replace_bsetting_def distinct_map_filter list_all_iff)

lemma keeps_ok_usettings [keeps_ok_intros]:
  "text_ok (us_var r) \<Longrightarrow> text_ok (us_value r) \<Longrightarrow> keeps_ok (sql_insert_usetting r)"
  "text_ok v \<Longrightarrow> keeps_ok (sql_update_usetting v i k)"
  by (auto simp: keeps_ok_def db_ok_def usettings_ok_def sql_insert_usetting_def sql_update_usetting_def list_all_iff
      comp_def if_distrib cong: if_cong)

lemma insert_buddy_ok:
  assumes "sql_insert_buddy u n s g a fl db = Some (i, db')" and "db_ok db" and "list_all text_ok [n, s, g, a]"
  shows "db_ok db'"
proof -
  have "list_all ((<) 0) (map br_id (t_buddies db))" using assms(2) by (auto simp: db_ok_def buddies_ok_def list_all_iff)
  then have "0 < next_id (map br_id (t_buddies db))" by (rule next_id_pos)
  moreover have "next_id (map br_id (t_buddies db)) \<notin> br_id ` set (t_buddies db)" using next_id_fresh [of "map br_id (t_buddies db)"] by simp
  ultimately show ?thesis using assms by (auto simp: sql_insert_buddy_def db_ok_def buddies_ok_def Let_def split: if_splits)
qed

lemma removeUser_ok: "db_ok db \<Longrightarrow> db_ok (snd (sqlite_removeUser f i db))"
  using keeps_ok_delete by (simp add: sqlite_removeUser_def keeps_ok_def Let_def)

lemma removeBuddy_ok: "db_ok db \<Longrightarrow> db_ok (sqlite_removeBuddy f i db)"
  using keeps_ok_delete by (simp add: sqlite_removeBuddy_def keeps_ok_def exec_stmt_def)

lemma keeps_okD: "keeps_ok g \<Longrightarrow> db_ok db \<Longrightarrow> db_ok (g db)"
  by (simp add: keeps_ok_def)

lemma icon_row_text [simp]: "text_ok (bs_var (icon_row u i v))" "text_ok (bs_value (icon_row u i v))"
  by (simp_all add: icon_row_def) code_simp

lemma addBuddy_ok: "sqlite_addBuddy f u b db = Some (i, db') \<Longrightarrow> db_ok db \<Longrightarrow> db_ok db'"
  by (auto simp: sqlite_addBuddy_def bind_eq_Some_conv split: if_splits option.splits
      intro!: keeps_okD [OF keeps_ok_exec] keeps_ok_intros elim!: insert_buddy_ok)

lemma updateBuddy_ok: "sqlite_updateBuddy f u b db = Some db' \<Longrightarrow> db_ok db \<Longrightarrow> db_ok db'"
  by (auto simp: sqlite_updateBuddy_def Let_def bind_eq_Some_conv intro!: keeps_okD [OF keeps_ok_exec] keeps_ok_intros)

lemma getUserSetting_ok: "db_ok db \<Longrightarrow> db_ok (snd (sqlite_getUserSetting f i var tv db))"
  by (auto simp: sqlite_getUserSetting_def intro!: keeps_okD [OF keeps_ok_exec] keeps_ok_intros split: option.splits)

section \<open>Sequences of operations\<close>

datatype sqlop =
    OpSetUser userinfo
  | OpSetOnline int bool
  | OpRemoveUser int
  | OpAddBuddy int buddyinfo
  | OpUpdateBuddy int buddyinfo
  | OpRemoveBuddy int
  | OpGetUserSetting int string "int \<times> string"
  | OpUpdateUserSetting int string string
  | OpUpdateBuddySetting int int string int string

fun sql_step :: "faults \<Rightarrow> sqlop \<Rightarrow> sqldb \<Rightarrow> sqldb option" where
  "sql_step f (OpSetUser user) db = Some (sqlite_setUser f user db)"
| "sql_step f (OpSetOnline i online) db = Some (sqlite_setUserOnline f i online db)"
| "sql_step f (OpRemoveUser i) db = Some (snd (sqlite_removeUser f i db))"
| "sql_step f (OpAddBuddy u b) db = map_option snd (sqlite_addBuddy f u b db)"
| "sql_step f (OpUpdateBuddy u b) db = sqlite_updateBuddy f u b db"
| "sql_step f (OpRemoveBuddy i) db = Some (sqlite_removeBuddy f i db)"
| "sql_step f (OpGetUserSetting i var tv) db = Some (snd (sqlite_getUserSetting f i var tv db))"
| "sql_step f (OpUpdateUserSetting i var val) db = Some (sqlite_updateUserSetting f i var val db)"
| "sql_step f (OpUpdateBuddySetting u b var t val) db = Some (sqlite_updateBuddySetting f u b var t val db)"

fun run_sql :: "(faults \<times> sqlop) list \<Rightarrow> sqldb \<Rightarrow> sqldb option" where
  "run_sql [] db = Some db"
| "run_sql ((f, op) # ops) db = do { db \<leftarrow> sql_step f op db; run_sql ops db }"

interpretation sqlrun: each_loop "\<lambda>(f, op). sql_step f op" run_sql
  by unfold_locales (auto split: prod.splits)

lemma sql_step_ok: "sql_step f op db = Some db' \<Longrightarrow> db_ok db \<Longrightarrow> db_ok db'"
  by (cases op)
     (auto simp: sqlite_setUser_def sqlite_setUserOnline_def sqlite_updateUserSetting_def sqlite_updateBuddySetting_def
      removeUser_ok removeBuddy_ok addBuddy_ok updateBuddy_ok getUserSetting_ok
      intro!: keeps_okD [OF keeps_ok_exec] keeps_ok_intros)

lemma empty_db_ok: "db_ok empty_db"
  by (simp add: db_ok_def empty_db_def tables_ok_defs)

lemma tables_keep_constraints:
  assumes "run_sql ops empty_db = Some db"
  shows "db_ok db"
  using sqlrun.run_inv [where P = db_ok, OF _ empty_db_ok assms] sql_step_ok by (auto split: prod.splits)

section \<open>SQLite as a store of users\<close>

definition sqlite_storage :: "userinfo \<Rightarrow> settingvar \<Rightarrow> sqldb storage" where
  "sqlite_storage base var0 = \<lparr>
     st_getUser = (\<lambda>db j. let (ok, info) = sqlite_getUser no_faults j base db in if ok then Some info else None),
     st_setUser = sqlite_setUser no_faults,
     st_setUserOnline = sqlite_setUserOnline no_faults,
     st_getUserSetting = (\<lambda>i var val db. let ((t, v), db) = sqlite_getUserSetting no_faults i var (TYPE_BOOLEAN, val) db in (v, db)),
     st_getAllSettings = (\<lambda>db i. sqlite_getAllSettings no_faults i [] db),
     st_getBuddies = (\<lambda>db i. snd (sqlite_getBuddies no_faults var0 i [] db)),
     st_addBuddy = (\<lambda>u b db. case sqlite_addBuddy no_faults u b db of None \<Rightarrow> (-1, db) | Some r \<Rightarrow> r),
     st_updateBuddy = (\<lambda>u b db. case sqlite_updateBuddy no_faults u b db of None \<Rightarrow> db | Some db \<Rightarrow> db),
     st_removeBuddy = sqlite_removeBuddy no_faults,
     st_removeUser = sqlite_removeUser no_faults,
     st_getOnlineUsers = (\<lambda>db. sqlite_getOnlineUsers no_faults db []),
     st_getUsers = (\<lambda>db. sqlite_getUsers no_faults db []),
     st_getLegacyNetworkUsers = (\<lambda>db. sqlite_getLegacyNetworkUsers no_faults db []),
     st_updateUserSetting = sqlite_updateUserSetting no_faults\<rparr>"

text \<open>Texts without zero bytes are stored as they are.\<close>

definition userinfo_ok :: "userinfo \<Rightarrow> bool" where
  "userinfo_ok user \<longleftrightarrow> list_all text_ok [ui_jid user, ui_uin user, ui_password user, ui_language user, ui_encoding user]"

lemma getUser_find: "st_getUser (sqlite_storage base v) db j = map_option (\<lambda>r. fill_userinfo r base) (user_with_jid (c_str j) db)"
  by (simp add: sqlite_storage_def sqlite_getUser_def query_rows_def no_faults_def user_with_jid_def find_filter split: list.splits)

lemma user_with_jid_iff: "db_ok db \<Longrightarrow> user_with_jid j db = Some r \<longleftrightarrow> r \<in> set (t_users db) \<and> ur_jid r = j"
  by (simp add: user_with_jid_def find_distinct_Some_iff db_ok_def users_ok_def)

lemma user_ids_differ: "db_ok db \<Longrightarrow> r \<in> set (t_users db) \<Longrightarrow> r' \<in> set (t_users db) \<Longrightarrow> ur_id r = ur_id r' \<Longrightarrow> r = r'"
  by (auto simp: db_ok_def users_ok_def distinct_map inj_on_def)

text \<open>The row that \<open>setUser\<close> writes, and the rows it leaves.\<close>

definition written_row :: "int \<Rightarrow> userinfo \<Rightarrow> user_row" where
  "written_row i user = \<lparr>ur_id = i, ur_jid = c_str (ui_jid user), ur_uin = c_str (ui_uin user),
     ur_password = c_str (ui_password user), ur_language = c_str (ui_language user),
     ur_encoding = c_str (ui_encoding user), ur_vip = ui_vip user, ur_online = False\<rparr>"

lemma setUser_rows:
  assumes "db_ok db"
  obtains i where "t_users (sqlite_setUser no_faults user db) = filter (\<lambda>r. ur_jid r \<noteq> c_str (ui_jid user)) (t_users db) @ [written_row i user]"
    and "case user_with_jid (c_str (ui_jid user)) db of None \<Rightarrow> i \<notin> ur_id ` set (t_users db) | Some r \<Rightarrow> i = ur_id r"
proof -
  define j where "j = c_str (ui_jid user)"
  define i where "i = (case user_with_jid j db of None \<Rightarrow> next_id (map ur_id (t_users db)) | Some r \<Rightarrow> ur_id r)"
  have "ur_id r \<noteq> i" if "r \<in> set (t_users db)" "ur_jid r \<noteq> j" for r
  proof (cases "user_with_jid j db")
    case None
    then show ?thesis using next_id_fresh [of "map ur_id (t_users db)"] that(1) by (force simp: i_def)
  next
    case (Some r')
    then have "r' \<in> set (t_users db)" "ur_jid r' = j" using user_with_jid_iff [OF assms] by simp_all
    then show ?thesis using user_ids_differ [OF assms that(1)] that(2) Some by (auto simp: i_def)
  qed
  then have "filter (\<lambda>r. ur_id r \<noteq> i \<and> ur_jid r \<noteq> j) (t_users db) = filter (\<lambda>r. ur_jid r \<noteq> j) (t_users db)"
    by (intro filter_cong) auto
  then have "t_users (sqlite_setUser no_faults user db) = filter (\<lambda>r. ur_jid r \<noteq> j) (t_users db) @ [written_row i user]"
    by (simp add: sqlite_setUser_def exec_stmt_def no_faults_def sql_replace_user_def Let_def i_def j_def written_row_def)
  moreover have "case user_with_jid j db of None \<Rightarrow> i \<notin> ur_id ` set (t_users db) | Some r \<Rightarrow> i = ur_id r"
    using next_id_fresh [of "map ur_id (t_users db)"] by (auto simp: i_def split: option.splits)
  ultimately show ?thesis using that by (simp add: j_def)
qed

lemma setUser_find:
  assumes "db_ok db"
  obtains i where "user_with_jid j (sqlite_setUser no_faults user db)
      = (if j = c_str (ui_jid user) then Some (written_row i user) else user_with_jid j db)"
    and "case user_with_jid (c_str (ui_jid user)) db of None \<Rightarrow> i \<notin> ur_id ` set (t_users db) | Some r \<Rightarrow> i = ur_id r"
proof -
  obtain i where i: "t_users (sqlite_setUser no_faults user db) = filter (\<lambda>r. ur_jid r \<noteq> c_str (ui_jid user)) (t_users db) @ [written_row i user]"
    "case user_with_jid (c_str (ui_jid user)) db of None \<Rightarrow> i \<notin> ur_id ` set (t_users db) | Some r \<Rightarrow> i = ur_id r"
    by (rule setUser_rows [OF assms])
  have "db_ok (sqlite_setUser no_faults user db)"
    using sql_step_ok [of no_faults "OpSetUser user" db] assms by simp
  then have "user_with_jid j (sqlite_setUser no_faults user db) = Some r
      \<longleftrightarrow> (if j = c_str (ui_jid user) then Some (written_row i user) else user_with_jid j db) = Some r" for r
    using user_with_jid_iff [OF assms, of j r] by (auto simp: user_with_jid_iff i(1) written_row_def)
  then have "user_with_jid j (sqlite_setUser no_faults user db)
      = (if j = c_str (ui_jid user) then Some (written_row i user) else user_with_jid j db)"
    by (rule option_eqI)
  then show ?thesis using i(2) that by blast
qed

lemma removeUser_tables:
  "t_users (snd (sqlite_removeUser no_faults i db)) = filter (\<lambda>r. ur_id r \<noteq> i) (t_users db)"
  "t_usettings (snd (sqlite_removeUser no_faults i db)) = filter (\<lambda>r. us_user r \<noteq> i) (t_usettings db)"
  "t_buddies (snd (sqlite_removeUser no_faults i db)) = filter (\<lambda>r. br_user r \<noteq> i) (t_buddies db)"
  "t_bsettings (snd (sqlite_removeUser no_faults i db)) = filter (\<lambda>r. bs_user r \<noteq> i) (t_bsettings db)"
  by (simp_all add: sqlite_removeUser_def no_faults_def sql_delete_user_def sql_delete_user_settings_def
      sql_delete_user_buddies_def sql_delete_user_buddies_settings_def)

lemma removeUser_find:
  assumes "db_ok db"
  shows "user_with_jid j (snd (sqlite_removeUser no_faults i db))
    = (case user_with_jid j db of None \<Rightarrow> None | Some r \<Rightarrow> if ur_id r = i then None else Some r)"
  using assms find_of_filter [of ur_jid "t_users db" j "\<lambda>r. ur_id r \<noteq> i"]
  by (simp add: user_with_jid_def removeUser_tables db_ok_def users_ok_def if_distrib cong: option.case_cong if_cong)
  (auto split: option.splits)

lemma fill_userinfo_sel [simp]: "ui_id (fill_userinfo r base) = ur_id r"
  by (simp add: fill_userinfo_def)

lemma written_row_stored: "userinfo_ok user \<Longrightarrow> stored_as user (fill_userinfo (written_row i user) base)"
  by (simp add: stored_as_def fill_userinfo_def written_row_def userinfo_ok_def c_str_id)

interpretation sq: user_store "sqlite_storage base v" db_ok userinfo_ok text_ok for base v
proof (unfold_locales, goal_cases)
  case (1 db user)
  then show ?case using sql_step_ok [of no_faults "OpSetUser user" db] by (simp add: sqlite_storage_def)
next
  case (2 db user)
  obtain i where "user_with_jid (c_str (ui_jid user)) (sqlite_setUser no_faults user db) = Some (written_row i user)"
    by (rule setUser_find [OF 2(1), of "c_str (ui_jid user)" user]) auto
  then show ?case using 2(2) written_row_stored
    by (auto simp: getUser_find) (simp add: sqlite_storage_def)
next
  case (3 db user j)
  have "c_str j \<noteq> c_str (ui_jid user)" using 3(2-4) by (simp add: userinfo_ok_def c_str_id)
  then have "user_with_jid (c_str j) (sqlite_setUser no_faults user db) = user_with_jid (c_str j) db"
    by (metis setUser_find [OF 3(1), of "c_str j" user])
  then show ?case by (simp add: getUser_find) (simp add: sqlite_storage_def)
next
  case (4 db i)
  then show ?case by (simp add: sqlite_storage_def removeUser_ok)
next
  case (5 db i j)
  have "st_removeUser (sqlite_storage base v) = sqlite_removeUser no_faults" by (simp add: sqlite_storage_def)
  then show ?case using removeUser_find [OF 5, of "c_str j" i] by (auto simp: getUser_find split: option.splits)
next
  case (6 db j k a b)
  then obtain r r' where "r \<in> set (t_users db)" "ur_jid r = j" "r' \<in> set (t_users db)" "ur_jid r' = k" "ur_id r = ur_id r'"
    by (auto simp: getUser_find c_str_id user_with_jid_iff)
  then show ?case using user_ids_differ [OF 6(1)] by blast
next
  case (7 user)
  then show ?case by (simp add: userinfo_ok_def)
qed

section \<open>The contact list\<close>

lemma sql_buddies_set [simp]: "set (sql_buddies i db) = {r \<in> set (t_buddies db). br_user r = i}"
  by (auto simp: sql_buddies_def)

lemma sql_bsettings_set [simp]: "set (sql_bsettings i db) = {r \<in> set (t_bsettings db). bs_user r = i}"
  by (auto simp: sql_bsettings_def)

lemma fill_buddyinfo_sel [simp]: "bi_id (fill_buddyinfo r) = br_id r" "bi_settings (fill_buddyinfo r) = []"
  by (simp_all add: fill_buddyinfo_def)

lemma distinct_map_sort_key: "distinct (map f (sort_key g xs)) = distinct (map f xs)"
  by (simp add: distinct_map)

lemma contacts_sorted: "db_ok db \<Longrightarrow> sorted_wrt (<) (map bi_id (map fill_buddyinfo (sql_buddies i db)))"
  using strict_sorted_iff [of "map br_id (sql_buddies i db)"]
  by (auto simp: sql_buddies_def comp_def db_ok_def buddies_ok_def distinct_map_sort_key distinct_map_filter)

lemma contacts_merged:
  assumes "db_ok db" and "list_all (\<lambda>r. known_type (bs_type r) \<and> bs_buddy r \<noteq> -1) (sql_bsettings i db)"
  obtains r where "sqlite_getBuddies no_faults v i [] db = (True, r)"
    and "map (\<lambda>b. b\<lparr>bi_settings := []\<rparr>) r = map fill_buddyinfo (sql_buddies i db)"
    and "\<And>b. b \<in> set r \<Longrightarrow> view_settings (bi_settings b)
      = joined (takeWhile (\<lambda>s. bs_buddy s \<in> br_id ` set (sql_buddies i db)) (sql_bsettings i db)) (bi_id b)"
proof -
  let ?bs = "map fill_buddyinfo (sql_buddies i db)" and ?R = "sql_bsettings i db"
  define r where "r = merge_loop ?bs ?R (-1) [] v"
  have "rows_ok ?R" using assms(2) by (simp add: rows_ok_def sql_bsettings_def)
  moreover have "-1 \<notin> bi_id ` set ?bs" using assms(1) by (auto simp: db_ok_def buddies_ok_def list_all_iff)
  ultimately have "map (\<lambda>b. view_settings (bi_settings b)) r
      = map (\<lambda>b. joined (takeWhile (\<lambda>s. bs_buddy s \<in> bi_id ` set ?bs) ?R) (bi_id b)) ?bs"
    unfolding r_def by (intro merge_join contacts_sorted assms) (auto simp: reading_def list_all_iff)
  moreover have "bi_id ` set ?bs = br_id ` set (sql_buddies i db)" by (simp add: image_image)
  ultimately have j: "map (\<lambda>b. view_settings (bi_settings b)) r = map (joined (takeWhile (\<lambda>s. bs_buddy s \<in> br_id ` set (sql_buddies i db)) ?R)) (map bi_id ?bs)"
    by (simp add: comp_def)
  have "(\<lambda>b. b\<lparr>bi_settings := []\<rparr>) \<circ> fill_buddyinfo = fill_buddyinfo" by (auto simp: fill_buddyinfo_def)
  then have fields: "map (\<lambda>b. b\<lparr>bi_settings := []\<rparr>) r = ?bs" by (simp only: r_def merge_loop_rest map_map)
  have "map bi_id r = map bi_id ?bs" using arg_cong [OF fields, of "map bi_id"] by (simp add: comp_def)
  then have "map (\<lambda>b. view_settings (bi_settings b)) r = map (joined (takeWhile (\<lambda>s. bs_buddy s \<in> br_id ` set (sql_buddies i db)) ?R)) (map bi_id r)"
    using j by (simp only:)
  then have "view_settings (bi_settings b) = joined (takeWhile (\<lambda>s. bs_buddy s \<in> br_id ` set (sql_buddies i db)) ?R) (bi_id b)"
    if "b \<in> set r" for b using that by simp
  moreover have "sqlite_getBuddies no_faults v i [] db = (True, r)"
    by (simp add: sqlite_getBuddies_def query_rows_def no_faults_def r_def)
  ultimately show ?thesis using that fields by blast
qed

subsection \<open>Settings of a contact by name\<close>

definition sql_buddy_setting :: "int \<Rightarrow> int \<Rightarrow> string \<Rightarrow> sqldb \<Rightarrow> bsetting_row option" where
  "sql_buddy_setting userId buddyId var db =
     find (\<lambda>r. bs_user r = userId \<and> bs_buddy r = buddyId \<and> bs_var r = var) (t_bsettings db)"

lemma fold_put_row_get:
  "distinct (map bs_var rs) \<Longrightarrow> smap_get (fold put_row rs m) k
    = (case find (\<lambda>r. bs_var r = k) rs of None \<Rightarrow> smap_get m k | Some r \<Rightarrow> Some (row_view r))"
proof (induction rs arbitrary: m)
  case (Cons r rs)
  then have "bs_var r = k \<Longrightarrow> find (\<lambda>r. bs_var r = k) rs = None" by (auto simp: find_None_iff image_iff)
  then show ?case using Cons by (auto simp: put_row_def smap_get_put split: option.splits)
qed simp

lemma joined_get:
  assumes "distinct (map (\<lambda>r. (bs_buddy r, bs_var r)) R)"
  shows "smap_get (joined R b) k = map_option row_view (find (\<lambda>r. (bs_buddy r, bs_var r) = (b, k)) R)"
proof -
  have "distinct (map bs_var (filter (\<lambda>r. bs_buddy r = b) R))"
    using assms by (auto simp: distinct_map inj_on_def)
  moreover have "find (\<lambda>r. bs_var r = k) (filter (\<lambda>r. bs_buddy r = b) R) = find (\<lambda>r. (bs_buddy r, bs_var r) = (b, k)) R"
    by (induction R) auto
  ultimately show ?thesis by (simp add: joined_def fold_put_row_get split: option.splits)
qed

lemma view_settings_get: "smap_get (view_settings ss) k = map_option sv_view (smap_get ss k)"
  by (induction ss) (auto simp: view_settings_def smap_get_Cons)

lemma setting_in_rows:
  assumes "db_ok db"
  shows "find (\<lambda>r. (bs_buddy r, bs_var r) = (b, k)) (sql_bsettings i db) = sql_buddy_setting i b k db"
proof (rule option_eqI)
  fix r
  have d: "distinct (map (\<lambda>r. (bs_buddy r, bs_var r)) (t_bsettings db))" using assms by (simp add: db_ok_def bsettings_ok_def)
  then have "distinct (map (\<lambda>r. (bs_buddy r, bs_var r)) (sql_bsettings i db))"
    by (simp add: sql_bsettings_def distinct_map_sort_key distinct_map_filter)
  then have "find (\<lambda>r. (bs_buddy r, bs_var r) = (b, k)) (sql_bsettings i db) = Some r
      \<longleftrightarrow> r \<in> set (t_bsettings db) \<and> bs_user r = i \<and> bs_buddy r = b \<and> bs_var r = k"
    using find_distinct_Some_iff [of "\<lambda>r. (bs_buddy r, bs_var r)" "sql_bsettings i db" "(b, k)" r] by auto
  moreover have "distinct (map (\<lambda>r. (bs_user r, bs_buddy r, bs_var r)) (t_bsettings db))"
    using d by (auto simp: distinct_map inj_on_def)
  then have "sql_buddy_setting i b k db = Some r \<longleftrightarrow> r \<in> set (t_bsettings db) \<and> bs_user r = i \<and> bs_buddy r = b \<and> bs_var r = k"
    using find_distinct_Some_iff [of "\<lambda>r. (bs_user r, bs_buddy r, bs_var r)" "t_bsettings db" "(i, b, k)" r]
    by (auto simp: sql_buddy_setting_def)
  ultimately show "find (\<lambda>r. (bs_buddy r, bs_var r) = (b, k)) (sql_bsettings i db) = Some r \<longleftrightarrow> sql_buddy_setting i b k db = Some r"
    by simp
qed

subsection \<open>Runs in which every setting belongs to a contact\<close>

definition has_contact :: "int \<Rightarrow> int \<Rightarrow> sqldb \<Rightarrow> bool" where
  "has_contact userId buddyId db \<longleftrightarrow> (buddyId, userId) \<in> set (map (\<lambda>b. (br_id b, br_user b)) (t_buddies db))"

definition contacts_ok :: "sqldb \<Rightarrow> bool" where
  "contacts_ok db \<longleftrightarrow> list_all (\<lambda>s. known_type (bs_type s) \<and> has_contact (bs_user s) (bs_buddy s) db) (t_bsettings db)"

text \<open>What the callers promise: a setting is written only for a contact of the user, with a known type.\<close>

fun good_op :: "sqlop \<Rightarrow> sqldb \<Rightarrow> bool" where
  "good_op (OpUpdateBuddy u b) db \<longleftrightarrow> has_contact u (bi_id b) db"
| "good_op (OpUpdateBuddySetting u b var t val) db \<longleftrightarrow> has_contact u b db \<and> known_type t"
| "good_op op db \<longleftrightarrow> True"

fun good_run :: "sqlop list \<Rightarrow> sqldb \<Rightarrow> sqldb option" where
  "good_run [] db = Some db"
| "good_run (op # ops) db = (if good_op op db then do { db \<leftarrow> sql_step no_faults op db; good_run ops db } else None)"

lemma good_run_run: "good_run ops db = Some db' \<Longrightarrow> run_sql (map (Pair no_faults) ops) db = Some db'"
  by (induction ops arbitrary: db) (auto simp: bind_eq_Some_conv split: if_splits)

lemma contacts_ok_replace:
  "contacts_ok db \<Longrightarrow> has_contact (bs_user r) (bs_buddy r) db \<Longrightarrow> known_type (bs_type r) \<Longrightarrow> contacts_ok (sql_replace_bsetting r db)"
  by (auto simp: contacts_ok_def sql_replace_bsetting_def has_contact_def list_all_iff)

lemma contacts_ok_update_buddy:
  "contacts_ok (sql_update_buddy g n fl s u k db) = contacts_ok db" "has_contact i j (sql_update_buddy g n fl s u k db) = has_contact i j db"
proof -
  have "map (\<lambda>b. (br_id b, br_user b)) (t_buddies (sql_update_buddy g n fl s u k db)) = map (\<lambda>b. (br_id b, br_user b)) (t_buddies db)"
    by (simp add: sql_update_buddy_def)
  then show "contacts_ok (sql_update_buddy g n fl s u k db) = contacts_ok db" "has_contact i j (sql_update_buddy g n fl s u k db) = has_contact i j db"
    by (simp_all only: contacts_ok_def has_contact_def) (simp add: sql_update_buddy_def)
qed

lemma contacts_ok_cong: "t_buddies db' = t_buddies db \<Longrightarrow> t_bsettings db' = t_bsettings db \<Longrightarrow> contacts_ok db' = contacts_ok db"
  by (simp add: contacts_ok_def has_contact_def)

lemma known_string [simp]: "known_type TYPE_STRING"
  by (simp add: known_type_def)

lemma contacts_ok_add:
  assumes "sqlite_addBuddy no_faults u b db = Some (i, db')" and "contacts_ok db"
  shows "contacts_ok db'"
proof (cases "db' = db")
  case False
  then obtain db1 v where "sql_insert_buddy u (c_str (bi_legacyName b)) (c_str (bi_subscription b))
      (c_str (serializeGroups (bi_groups b))) (c_str (bi_alias b)) (bi_flags b) db = Some (i, db1)"
    and db': "db' = sql_replace_bsetting (icon_row u i v) db1"
    using assms(1) by (auto simp: sqlite_addBuddy_def exec_stmt_def no_faults_def bind_eq_Some_conv split: option.splits)
  then have "contacts_ok db1" "has_contact u i db1"
    using assms(2) by (auto simp: sql_insert_buddy_def contacts_ok_def has_contact_def Let_def list_all_iff split: if_splits)
  then show ?thesis by (simp add: db' contacts_ok_replace icon_row_def)
qed (use assms in simp)

lemma sql_step_contacts:
  assumes "sql_step no_faults op db = Some db'" and "good_op op db" and "contacts_ok db"
  shows "contacts_ok db'"
proof (cases op)
  case (OpSetUser user)
  then show ?thesis using assms contacts_ok_cong [of db' db]
    by (auto simp: sqlite_setUser_def sql_replace_user_def exec_stmt_def Let_def split: if_splits)
next
  case (OpSetOnline i b)
  then show ?thesis using assms contacts_ok_cong [of db' db]
    by (auto simp: sqlite_setUserOnline_def sql_set_online_def exec_stmt_def split: if_splits)
next
  case (OpRemoveUser i)
  then show ?thesis using assms by (auto simp: contacts_ok_def has_contact_def removeUser_tables list_all_iff image_iff) metis
next
  case (OpUpdateBuddy u b)
  then show ?thesis using assms
    by (auto simp: sqlite_updateBuddy_def exec_stmt_def no_faults_def Let_def bind_eq_Some_conv contacts_ok_update_buddy icon_row_def
        intro!: contacts_ok_replace)
next
  case (OpRemoveBuddy i)
  then show ?thesis using assms
    by (auto simp: sqlite_removeBuddy_def sql_delete_buddy_def sql_delete_buddy_settings_def exec_stmt_def no_faults_def
        contacts_ok_def has_contact_def list_all_iff image_iff) metis
next
  case (OpUpdateBuddySetting u b var t val)
  then show ?thesis using assms by (auto simp: sqlite_updateBuddySetting_def exec_stmt_def no_faults_def intro!: contacts_ok_replace)
next
  case (OpGetUserSetting i var tv)
  then show ?thesis using assms contacts_ok_cong [of db' db]
    by (auto simp: sqlite_getUserSetting_def sql_insert_usetting_def exec_stmt_def split: if_splits option.splits)
next
  case (OpUpdateUserSetting i var val)
  then show ?thesis using assms contacts_ok_cong [of db' db]
    by (auto simp: sqlite_updateUserSetting_def sql_update_usetting_def exec_stmt_def split: if_splits)
next
  case (OpAddBuddy u b)
  then show ?thesis using assms contacts_ok_add by auto
qed

lemma good_run_contacts: "good_run ops db = Some db' \<Longrightarrow> contacts_ok db \<Longrightarrow> contacts_ok db'"
  by (induction ops arbitrary: db) (auto simp: bind_eq_Some_conv split: if_splits dest: sql_step_contacts)

subsection \<open>What a reader of the list sees\<close>

lemma getBuddies_join:
  assumes "good_run ops empty_db = Some db"
  shows "\<exists>r. sqlite_getBuddies no_faults v i [] db = (True, r)
    \<and> map (\<lambda>b. b\<lparr>bi_settings := []\<rparr>) r = map fill_buddyinfo (sql_buddies i db)
    \<and> list_all (\<lambda>b. \<forall>k. map_option sv_view (smap_get (bi_settings b) k) = map_option row_view (sql_buddy_setting i (bi_id b) k db)) r"
proof -
  let ?R = "sql_bsettings i db"
  have ok: "db_ok db" using tables_keep_constraints [OF good_run_run [OF assms]] .
  have "contacts_ok empty_db" by (simp add: contacts_ok_def empty_db_def)
  then have c: "contacts_ok db" using good_run_contacts [OF assms] by simp
  have own: "bs_buddy s \<in> br_id ` set (sql_buddies i db)" if "s \<in> set ?R" for s
    using c that by (auto simp: contacts_ok_def has_contact_def list_all_iff)
  moreover have "-1 \<notin> br_id ` set (sql_buddies i db)" using ok by (auto simp: db_ok_def buddies_ok_def list_all_iff)
  ultimately have "bs_buddy s \<noteq> -1" if "s \<in> set ?R" for s using that by metis
  then have "list_all (\<lambda>r. known_type (bs_type r) \<and> bs_buddy r \<noteq> -1) ?R"
    using c by (auto simp: contacts_ok_def list_all_iff)
  from contacts_merged [OF ok this, of v] obtain r where r: "sqlite_getBuddies no_faults v i [] db = (True, r)"
    "map (\<lambda>b. b\<lparr>bi_settings := []\<rparr>) r = map fill_buddyinfo (sql_buddies i db)"
    "\<And>b. b \<in> set r \<Longrightarrow> view_settings (bi_settings b)
      = joined (takeWhile (\<lambda>s. bs_buddy s \<in> br_id ` set (sql_buddies i db)) ?R) (bi_id b)" by blast
  have "takeWhile (\<lambda>s. bs_buddy s \<in> br_id ` set (sql_buddies i db)) ?R = ?R" using own by (simp only: takeWhile_eq_all_conv) blast
  then have view: "view_settings (bi_settings b) = joined ?R (bi_id b)" if "b \<in> set r" for b using r(3) [OF that] by (simp only:)
  have "distinct (map (\<lambda>r. (bs_buddy r, bs_var r)) ?R)"
    using ok by (simp add: db_ok_def bsettings_ok_def sql_bsettings_def distinct_map_sort_key distinct_map_filter)
  then have "map_option sv_view (smap_get (bi_settings b) k) = map_option row_view (sql_buddy_setting i (bi_id b) k db)"
    if "b \<in> set r" for b k
    using view [OF that] setting_in_rows [OF ok, of "bi_id b" k i] by (simp add: joined_get flip: view_settings_get)
  then show ?thesis using r(1,2) by (auto simp: list_all_iff)
qed

text \<open>A setting without a contact hides the settings of all contacts with a larger id.\<close>

lemma orphan_hides:
  assumes "db_ok db" and "list_all (\<lambda>r. known_type (bs_type r) \<and> bs_buddy r \<noteq> -1) (sql_bsettings i db)"
    and "s \<in> set (sql_bsettings i db)" and "\<not> has_contact i (bs_buddy s) db"
    and "sqlite_getBuddies no_faults v i [] db = (True, r)"
  shows "list_all (\<lambda>b. bs_buddy s < bi_id b \<longrightarrow> bi_settings b = []) r"
proof -
  let ?R = "sql_bsettings i db" and ?own = "\<lambda>s. bs_buddy s \<in> br_id ` set (sql_buddies i db)"
  have view: "view_settings (bi_settings b) = joined (takeWhile ?own ?R) (bi_id b)" if "b \<in> set r" for b
    by (rule contacts_merged [OF assms(1,2), of v]) (use assms(5) that in simp)
  have "\<not> ?own s" using assms(4) by (auto simp: has_contact_def)
  obtain xs ys where R: "?R = xs @ s # ys" using assms(3) by (meson split_list)
  have "sorted (map bs_buddy ?R)" by (simp add: sql_bsettings_def)
  then have "bs_buddy t \<le> bs_buddy s" if "t \<in> set xs" for t using that by (auto simp: R sorted_append)
  moreover have "set (takeWhile ?own ?R) \<subseteq> set xs" using \<open>\<not> ?own s\<close> by (auto simp: R takeWhile_tail dest: set_takeWhileD)
  ultimately have le: "bs_buddy t \<le> bs_buddy s" if "t \<in> set (takeWhile ?own ?R)" for t using that by blast
  have "joined (takeWhile ?own ?R) j = []" if "bs_buddy s < j" for j
  proof -
    have "filter (\<lambda>r. bs_buddy r = j) (takeWhile ?own ?R) = []" unfolding filter_empty_conv using le that by fastforce
    then show ?thesis by (simp only: joined_def fold.simps id_apply)
  qed
  then have "view_settings (bi_settings b) = []" if "b \<in> set r" "bs_buddy s < bi_id b" for b
    using view [OF that(1)] that(2) by (simp only:)
  then show ?thesis by (auto simp: list_all_iff view_settings_def)
qed

lemma removeUser_leaves:
  "sqlite_removeUser no_faults i db = (True, \<lparr>t_users = filter (\<lambda>r. ur_id r \<noteq> i) (t_users db),
     t_usettings = filter (\<lambda>r. us_user r \<noteq> i) (t_usettings db), t_buddies = filter (\<lambda>r. br_user r \<noteq> i) (t_buddies db),
     t_bsettings = filter (\<lambda>r. bs_user r \<noteq> i) (t_bsettings db)\<rparr>)"
  by (simp add: sqlite_removeUser_def no_faults_def sql_delete_user_def sql_delete_user_settings_def
      sql_delete_user_buddies_def sql_delete_user_buddies_settings_def)

section \<open>Properties\<close>


definition witness_userinfo :: userinfo where
  "witness_userinfo = \<lparr>ui_id = 0, ui_jid = ''u@x'', ui_uin = ''bob'', ui_password = ''pw'', ui_language = ''en'', ui_encoding = [],
     ui_settings = [], ui_vip = False\<rparr>"

definition witness_buddyinfo :: "string \<Rightarrow> buddyinfo" where
  "witness_buddyinfo name = \<lparr>bi_id = 0, bi_alias = ''A'', bi_legacyName = name, bi_subscription = ''both'', bi_groups = [''G'', ''H''],
     bi_settings = [(''icon_hash'', empty_var\<lparr>sv_s := ''abc''\<rparr>)], bi_flags = 1\<rparr>"

definition witness_ops :: "sqlop list" where
  "witness_ops = [OpSetUser witness_userinfo, OpAddBuddy 1 (witness_buddyinfo ''joe''), OpAddBuddy 1 (witness_buddyinfo ''ann''),
     OpUpdateBuddySetting 1 2 ''blocked'' TYPE_BOOLEAN ''1'', OpSetUser witness_userinfo]"


text \<open>
  C8: \<open>getBuddies\<close> reads the contacts and their settings with two cursors and one pass over each. As long
  as settings are only stored for existing contacts and with a known type, the pass is a join: the
  contacts are the rows of the user in the order of their ids, and a contact has a setting exactly when
  there is a row for it, with the value of this row.
\<close>

theorem contact_list_is_join:
  assumes "good_run ops empty_db = Some db"
  shows "\<exists>r. sqlite_getBuddies no_faults v i [] db = (True, r)
    \<and> map (\<lambda>b. b\<lparr>bi_settings := []\<rparr>) r = map fill_buddyinfo (sql_buddies i db)
    \<and> list_all (\<lambda>b. \<forall>k. map_option sv_view (smap_get (bi_settings b) k) = map_option row_view (sql_buddy_setting i (bi_id b) k db)) r"
  using assms by (rule getBuddies_join)

theorem contact_list_is_join_witness:
  "case good_run witness_ops empty_db of
     None \<Rightarrow> False
   | Some db \<Rightarrow> map bi_legacyName (snd (sqlite_getBuddies no_faults empty_var 1 [] db)) = [''joe'', ''ann'']
       \<and> map bi_groups (snd (sqlite_getBuddies no_faults empty_var 1 [] db)) = [[''G'', ''H''], [''G'', ''H'']]
       \<and> map_option row_view (sql_buddy_setting 1 2 ''blocked'' db) = Some (TYPE_BOOLEAN, Inl True)
       \<and> map (\<lambda>b. map_option sv_view (smap_get (bi_settings b) ''blocked'')) (snd (sqlite_getBuddies no_faults empty_var 1 [] db))
           = [None, Some (TYPE_BOOLEAN, Inl True)]"
proof -
  have r: "map_option (\<lambda>db. (map bi_id (map fill_buddyinfo (sql_buddies 1 db)), map bi_legacyName (map fill_buddyinfo (sql_buddies 1 db)),
      map bi_groups (map fill_buddyinfo (sql_buddies 1 db)), map_option row_view (sql_buddy_setting 1 1 ''blocked'' db),
      map_option row_view (sql_buddy_setting 1 2 ''blocked'' db))) (good_run witness_ops empty_db)
    = Some ([1, 2], [''joe'', ''ann''], [[''G'', ''H''], [''G'', ''H'']], None, Some (TYPE_BOOLEAN, Inl True))" by code_simp
  then obtain db where db: "good_run witness_ops empty_db = Some db" by auto
  obtain bs where bs: "sqlite_getBuddies no_faults empty_var 1 [] db = (True, bs)"
    "map (\<lambda>b. b\<lparr>bi_settings := []\<rparr>) bs = map fill_buddyinfo (sql_buddies 1 db)"
    "list_all (\<lambda>b. \<forall>k. map_option sv_view (smap_get (bi_settings b) k) = map_option row_view (sql_buddy_setting 1 (bi_id b) k db)) bs"
    using contact_list_is_join [OF db, of empty_var 1] by blast
  have "map bi_id bs = [1, 2]" "map bi_legacyName bs = [''joe'', ''ann'']" "map bi_groups bs = [[''G'', ''H''], [''G'', ''H'']]"
    using r db arg_cong [OF bs(2), of "map bi_id"] arg_cong [OF bs(2), of "map bi_legacyName"] arg_cong [OF bs(2), of "map bi_groups"]
    by (simp_all add: comp_def)
  then show ?thesis using r db bs(1,3) by (auto simp: Cons_eq_map_conv)
qed

end
