(* ===== verification/Accounts.thy ===== *)
theory Accounts
  imports Registration Sqlite
begin

text \<open>
  The registration with the SQLite database: what a request stores, what the removal of an account
  leaves, and which users are asked for their presence after a start.
\<close>

section \<open>Users without a \<open>User\<close> object\<close>

lemma getUser_offline:
  assumes "um_inv G e w" and "smap_get (w_users w) key = None"
  shows "um_getUser e key w = Some (None, w)"
proof -
  obtain w' where g: "um_getUser e key w = Some (None, w')" by (rule getUser_inv [OF assms(1), of key]) (use assms(2) in auto)
  then have "w' = w" using assms(2)
    by (auto simp: um_getUser_def um_lookup_def bind_eq_Some_conv split: option.splits if_splits)
  with g show ?thesis by simp
qed

lemma disconnect_offline:
  "um_inv G e w \<Longrightarrow> smap_get (w_users w) key = None \<Longrightarrow> disconnect_registered e key w = Some w"
  by (simp add: disconnect_registered_def getUser_offline)

lemma w_users_upd [simp]: "w_users (w\<lparr>w_db := d\<rparr>) = w_users w" "w_users (emit os w) = w_users w" "w_db (emit os w) = w_db w"
  by (simp_all add: emit_def)

section \<open>What a request stores\<close>

lemma sqlite_storage_sel [simp]:
  "st_setUser (sqlite_storage base v) = sqlite_setUser no_faults"
  "st_removeUser (sqlite_storage base v) = sqlite_removeUser no_faults"
  "st_getLegacyNetworkUsers (sqlite_storage base v) db = sqlite_getLegacyNetworkUsers no_faults db []"
  "st_getOnlineUsers (sqlite_storage base v) db = sqlite_getOnlineUsers no_faults db []"
  "st_getUsers (sqlite_storage base v) db = sqlite_getUsers no_faults db []"
  by (simp_all add: sqlite_storage_def)

definition new_account :: "'d wenv \<Rightarrow> jid \<Rightarrow> regpayload \<Rightarrow> string \<Rightarrow> string \<Rightarrow> userinfo" where
  "new_account e from p username password = (we_uninit e)\<lparr>ui_vip := False, ui_id := 0, ui_jid := bare_str e from,
     ui_uin := username, ui_password := password, ui_language := form_field p ''language'', ui_encoding := form_field p ''encoding''\<rparr>"

text \<open>A request that the checks accept, from an address that is not registered.\<close>

definition accepts :: "'d wenv \<Rightarrow> regconf \<Rightarrow> jid \<Rightarrow> string \<Rightarrow> regpayload \<Rightarrow> string list \<Rightarrow> string \<Rightarrow> string \<Rightarrow> bool" where
  "accepts e rc from iqid payload users username password \<longleftrightarrow> may_register rc from \<and> \<not> rp_remove (read_form payload)
     \<and> check_registration e rc from iqid (read_form payload) users = Accept username password"

lemma form_field_read_form [simp]: "form_field (read_form p) key = form_field p key"
  by (simp add: form_field_def read_form_def Let_def split: option.splits)

lemma set_request_new:
  assumes "we_store e = Some st" and "st_getUser st (w_db w) (bare_str e from) = None"
    and "accepts e rc from iqid p (snd (st_getLegacyNetworkUsers st (w_db w))) username password"
  shows "reg_handleSetRequest e rc from iqid p w = Some (emit [RegOut (RegResponse from iqid None)]
    (emit [RegOut (RegisterRosterRequest (bare_str e from)), RegOut (OnUserRegistered (new_account e from p username password))]
      (w\<lparr>w_db := st_setUser st (new_account e from p username password) (w_db w)\<rparr>)))"
  using assms
  by (simp add: reg_handleSetRequest_def accepts_def db_registered_def registerUser_def new_account_def Let_def)

lemma set_request_remove:
  assumes "we_store e = Some st" and "st_getUser st (w_db w) (bare_str e from) = Some info"
    and "may_register rc from" and "rp_remove (read_form p)"
    and "um_inv G e w" and "smap_get (w_users w) (bare_str e from) = None"
  shows "reg_handleSetRequest e rc from iqid p w = Some (emit [RegOut (RegResponse from iqid None)]
    (emit [RegOut (UnregisterRosterRequest (ui_jid info)), RegOut (OnUserUnregistered info)]
      (w\<lparr>w_db := snd (st_removeUser st (ui_id info) (w_db w))\<rparr>)))"
  using assms disconnect_offline [OF um_inv_db(1) [OF assms(5)]]
  by (simp add: reg_handleSetRequest_def db_registered_def unregisterUser_def db_remove_def)

lemma register_then_unregister:
  assumes "we_store e = Some (sqlite_storage base v)" and "db_ok (w_db w)" and "um_inv {} e w"
    and "smap_get (w_users w) (bare_str e from) = None"
    and "accepts e rc from iqid p (map ur_uin (t_users (w_db w))) username password"
    and "user_with_jid (bare_str e from) (w_db w) = None" and "userinfo_ok (new_account e from p username password)"
    and "rp_remove (read_form p')"
  obtains w1 w2 r where "reg_handleSetRequest e rc from iqid p w = Some w1"
    and "user_with_jid (bare_str e from) (w_db w1) = Some r" and "ur_uin r = username" and "ur_password r = password" and "\<not> ur_vip r"
    and "\<And>k. k \<noteq> bare_str e from \<Longrightarrow> user_with_jid k (w_db w1) = user_with_jid k (w_db w)"
    and "reg_handleSetRequest e rc from iqid' p' w1 = Some w2"
    and "\<And>k. user_with_jid k (w_db w2) = user_with_jid k (w_db w)"
proof -
  let ?st = "sqlite_storage base v" and ?a = "new_account e from p username password"
  have key: "c_str (bare_str e from) = bare_str e from" and jid: "ui_jid ?a = bare_str e from"
    using assms(7) by (simp_all add: userinfo_ok_def new_account_def c_str_id)
  have none: "st_getUser ?st (w_db w) (bare_str e from) = None" using assms(6) key by (simp add: getUser_find)
  have acc: "accepts e rc from iqid p (snd (st_getLegacyNetworkUsers ?st (w_db w))) username password"
    using assms(5) by (simp add: sqlite_getLegacyNetworkUsers_def query_rows_def no_faults_def)
  define w1 where "w1 = emit [RegOut (RegResponse from iqid None)]
    (emit [RegOut (RegisterRosterRequest (bare_str e from)), RegOut (OnUserRegistered ?a)] (w\<lparr>w_db := sqlite_setUser no_faults ?a (w_db w)\<rparr>))"
  have r1: "reg_handleSetRequest e rc from iqid p w = Some w1"
    using set_request_new [OF assms(1) none acc] by (simp add: w1_def)
  have db1: "w_db w1 = sqlite_setUser no_faults ?a (w_db w)" by (simp add: w1_def)
  have find: "\<exists>i. user_with_jid j (w_db w1) = (if j = bare_str e from then Some (written_row i ?a) else user_with_jid j (w_db w))" for j
    unfolding db1 by (rule setUser_find [OF assms(2), of j ?a]) (auto simp: jid key)
  obtain i where i: "user_with_jid (bare_str e from) (w_db w1) = Some (written_row i ?a)" using find [of "bare_str e from"] by auto
  have ok1: "db_ok (w_db w1)" using sql_step_ok [of no_faults "OpSetUser ?a"] assms(2) by (simp add: db1)
  have info: "st_getUser ?st (w_db w1) (bare_str e from) = Some (fill_userinfo (written_row i ?a) base)"
    using i key by (simp add: getUser_find)
  have inv1: "um_inv {} e w1" and off1: "smap_get (w_users w1) (bare_str e from) = None"
    using assms(3,4) by (simp_all add: w1_def um_inv_db)
  have may: "may_register rc from" using assms(5) by (simp add: accepts_def)
  define w2 where "w2 = emit [RegOut (RegResponse from iqid' None)]
    (emit [RegOut (UnregisterRosterRequest (bare_str e from)), RegOut (OnUserUnregistered (fill_userinfo (written_row i ?a) base))]
      (w1\<lparr>w_db := snd (sqlite_removeUser no_faults i (w_db w1))\<rparr>))"
  have "ui_jid (fill_userinfo (written_row i ?a) base) = bare_str e from" by (simp add: fill_userinfo_def written_row_def jid key)
  then have r2: "reg_handleSetRequest e rc from iqid' p' w1 = Some w2"
    using set_request_remove [OF assms(1) info may assms(8) inv1 off1] by (simp add: w2_def written_row_def)
  have other: "ur_id r \<noteq> i" if "user_with_jid k (w_db w1) = Some r" "k \<noteq> bare_str e from" for k r
  proof -
    have "r \<in> set (t_users (w_db w1))" "ur_jid r = k" using that(1) ok1 by (simp_all add: user_with_jid_iff)
    moreover have "written_row i ?a \<in> set (t_users (w_db w1))" using i ok1 by (simp add: user_with_jid_iff)
    moreover have "ur_id (written_row i ?a) = i" "ur_jid (written_row i ?a) = bare_str e from" by (simp_all add: written_row_def jid key)
    ultimately show ?thesis using user_ids_differ [OF ok1, of r "written_row i ?a"] that(2) by auto
  qed
  have "user_with_jid k (w_db w2) = user_with_jid k (w_db w)" for k
  proof (cases "k = bare_str e from")
    case True
    then show ?thesis using i assms(6) by (simp add: w2_def removeUser_find [OF ok1] written_row_def)
  next
    case False
    then have "user_with_jid k (w_db w1) = user_with_jid k (w_db w)" using find [of k] by simp
    then show ?thesis using other [OF _ False] by (simp add: w2_def removeUser_find [OF ok1] split: option.splits)
  qed
  moreover have "user_with_jid k (w_db w1) = user_with_jid k (w_db w)" if "k \<noteq> bare_str e from" for k using find [of k] that by simp
  moreover have "ur_uin (written_row i ?a) = username" "ur_password (written_row i ?a) = password" "\<not> ur_vip (written_row i ?a)"
    using assms(7) by (simp_all add: written_row_def new_account_def userinfo_ok_def c_str_id)
  ultimately show ?thesis using that r1 r2 i by blast
qed

section \<open>Accounts without a password\<close>

text \<open>
  Without passwords a name of the legacy network may be used by one account only. The check compares
  the name of the request with the names of the database.
\<close>

definition uins_distinct :: "sqldb \<Rightarrow> bool" where
  "uins_distinct db \<longleftrightarrow> distinct (map ur_uin (t_users db))"

lemma check_Accept:
  assumes "check_registration e rc from iqid p users = Accept username password"
  obtains name where "rp_username p = Some name" and "username = masked_username rc name" and "name \<noteq> []"
    and "needPassword e \<or> name \<notin> set users"
  using assms by (auto simp: check_registration_def Let_def split: if_splits option.splits)

lemma set_request_unique:
  assumes "we_store e = Some (sqlite_storage base v)" and "db_ok (w_db w)" and "uins_distinct (w_db w)"
    and "\<not> needPassword e" and "rc_username_mask rc = []" and "\<not> rp_remove (read_form p)"
    and "text_ok (case rp_username (read_form p) of None \<Rightarrow> [] | Some n \<Rightarrow> n)"
    and "reg_handleSetRequest e rc from iqid p w = Some w'"
  shows "uins_distinct (w_db w')"
proof (cases "w_db w' = w_db w")
  case False
  let ?users = "map ur_uin (t_users (w_db w))"
  have users: "snd (st_getLegacyNetworkUsers (sqlite_storage base v) (w_db w)) = ?users"
    by (simp add: sqlite_getLegacyNetworkUsers_def query_rows_def no_faults_def)
  obtain username password res where acc: "check_registration e rc from iqid (read_form p) ?users = Accept username password"
    and db': "w_db w' = sqlite_setUser no_faults res (w_db w)" and uin: "ui_uin res = username"
    using False assms(1,6,8) users
    by (auto simp: reg_handleSetRequest_def db_registered_def registerUser_def bind_eq_Some_conv Let_def
        split: if_splits regcheck.splits option.splits)
  obtain name where name: "rp_username (read_form p) = Some name" "username = masked_username rc name" "needPassword e \<or> name \<notin> set ?users"
    using check_Accept [OF acc] by blast
  then have "c_str username \<notin> set ?users" using assms(4,5,7) by (simp add: masked_username_def c_str_id)
  moreover obtain i where "t_users (w_db w') = filter (\<lambda>r. ur_jid r \<noteq> c_str (ui_jid res)) (t_users (w_db w)) @ [written_row i res]"
    unfolding db' by (rule setUser_rows [OF assms(2)])
  ultimately show ?thesis using assms(3) uin
    by (auto simp: uins_distinct_def written_row_def distinct_map_filter)
qed (use assms in simp)

section \<open>The contacts of a removed account\<close>

lemma getBuddies_none: "(\<forall>r \<in> set (t_buddies db). br_user r \<noteq> i) \<Longrightarrow> st_getBuddies (sqlite_storage base v) db i = []"
  by (simp add: sqlite_storage_def sqlite_getBuddies_def query_rows_def no_faults_def sql_buddies_def)

lemma unregister_forgets_contacts:
  assumes "we_store e = Some (sqlite_storage base v)" and "um_inv {} e w" and "smap_get (w_users w) (ui_jid info) = None"
    and "db_remove e (ui_id info) w = Some w1"
  shows "\<exists>w2. handleUnregisterRemoteRosterResponse e rc None info w1 = Some w2
    \<and> w_out w2 = w_out w @ unsubscribe_pair e info (cf_jid (we_cf e)) @ notify_messages e rc ''unregistered: '' (ui_jid info)"
proof -
  have w1: "w1 = w\<lparr>w_db := snd (sqlite_removeUser no_faults (ui_id info) (w_db w))\<rparr>" using assms(1,4) by (simp add: db_remove_def)
  have none: "st_getBuddies (sqlite_storage base v) (w_db w1) (ui_id info) = []" by (rule getBuddies_none) (simp add: w1 removeUser_tables)
  have off: "disconnect_registered e (ui_jid info) (emit [] w1\<lparr>w_db := d\<rparr>) = Some (emit [] w1\<lparr>w_db := d\<rparr>)" for d
    using assms(2,3) by (intro disconnect_offline [of "{}"]) (simp_all add: w1 um_inv_db)
  have out: "w_out (emit [] w1\<lparr>w_db := d\<rparr>) = w_out w" for d by (simp add: w1 emit_def)
  show ?thesis using assms(1) off
    by (simp add: handleUnregisterRemoteRosterResponse_def none db_remove_def) (simp add: emit_def w1)
qed

section \<open>Reconnecting after a start\<close>

fun rec_ticks :: "'d wenv \<Rightarrow> (string \<Rightarrow> jid option) \<Rightarrow> nat \<Rightarrow> reconnecter \<times> 'd world \<Rightarrow> reconnecter \<times> 'd world" where
  "rec_ticks e parse 0 rw = rw"
| "rec_ticks e parse (Suc n) rw = rec_ticks e parse n (rec_tick e parse rw)"

definition probe :: "'d wenv \<Rightarrow> (string \<Rightarrow> jid option) \<Rightarrow> string \<Rightarrow> wout list" where
  "probe e parse user = (case parse user of None \<Rightarrow> [] | Some j \<Rightarrow> [send_presence j (cf_jid (we_cf e)) Probe])"

lemma reconnectUser_gateway: "\<not> w_server e \<Longrightarrow> reconnectUser e parse user w = emit (probe e parse user) w"
  by (cases "parse user") (simp_all add: reconnectUser_def probe_def emit_def)

lemma emit_emit: "emit os' (emit os w) = emit (os @ os') w"
  by (simp add: emit_def)

lemma emit_Nil [simp]: "emit [] w = w"
  by (simp add: emit_def)

lemma ticks_probe:
  assumes "\<not> w_server e" and "length us \<le> n"
  shows "\<exists>t. rec_ticks e parse n (\<lparr>rec_users = us, rec_started = True, rec_timer = True\<rparr>, w)
    = (\<lparr>rec_users = [], rec_started = True, rec_timer = t\<rparr>, emit (concat (map (probe e parse) (rev us))) w)"
  using assms(2)
proof (induction us arbitrary: n w rule: rev_induct)
  case Nil
  have idle: "rec_ticks e parse n (\<lparr>rec_users = [], rec_started = True, rec_timer = t\<rparr>, w)
      = (\<lparr>rec_users = [], rec_started = True, rec_timer = t \<and> n = 0\<rparr>, w)" for t n
    by (induction n arbitrary: t) (auto simp: rec_tick_def reconnectNextUser_def)
  then show ?case by (metis concat.simps(1) emit_Nil list.simps(8) rev.simps(1))
next
  case (snoc u us)
  then obtain m where n: "n = Suc m" "length us \<le> m" by (cases n) auto
  have "rec_tick e parse (\<lparr>rec_users = us @ [u], rec_started = True, rec_timer = True\<rparr>, w)
      = (\<lparr>rec_users = us, rec_started = True, rec_timer = True\<rparr>, emit (probe e parse u) w)"
    by (simp add: rec_tick_def reconnectNextUser_def reconnectUser_gateway [OF assms(1)])
  then show ?case using snoc.IH [OF n(2), of "emit (probe e parse u) w"] by (simp add: n(1) emit_emit)
qed

lemma users_probed:
  assumes "\<not> w_server e" and "we_store e = Some st" and "rec_handleConnected e rc parse (new_reconnecter, w) = Some rw"
    and "length users \<le> n"
    and "users = snd (if dflt (rc_reconnect_all rc) False then st_getUsers st (w_db w) else st_getOnlineUsers st (w_db w))"
  shows "w_out (snd (rec_ticks e parse n rw)) = w_out w @ concat (map (probe e parse) (rev users))
    \<and> rec_users (fst (rec_ticks e parse n rw)) = []"
proof -
  have rw: "rw = reconnectNextUser e parse (\<lparr>rec_users = users, rec_started = True, rec_timer = False\<rparr>, w)"
    using assms(2,3,5) by (simp add: rec_handleConnected_def new_reconnecter_def Let_def)
  show ?thesis
  proof (cases users rule: rev_cases)
    case Nil
    have "rec_ticks e parse n (\<lparr>rec_users = [], rec_started = True, rec_timer = False\<rparr>, w)
        = (\<lparr>rec_users = [], rec_started = True, rec_timer = False\<rparr>, w)"
      by (induction n) (simp_all add: rec_tick_def)
    then show ?thesis by (simp add: rw Nil reconnectNextUser_def)
  next
    case (snoc us u)
    then have "rw = (\<lparr>rec_users = us, rec_started = True, rec_timer = True\<rparr>, emit (probe e parse u) w)"
      by (simp add: rw reconnectNextUser_def reconnectUser_gateway [OF assms(1)])
    then show ?thesis using ticks_probe [OF assms(1), of us n parse "emit (probe e parse u) w"] assms(4) snoc
      by (auto simp: emit_def)
  qed
qed

end
