(* ===== verification/AdHoc.thy ===== *)
theory AdHoc
  imports Registration Sqlite
begin

text \<open>
  Ad-hoc commands of the XMPP frontend (XEP-0050): \<open>adhocmanager.cpp\<close>, \<open>adhoccommand.cpp\<close> and the only
  command, \<open>settingsadhoccommand.cpp\<close>, with which a registered user sees and changes his settings.

  Command objects live in a heap; the map of sessions refers to them by address and session id. \<open>None\<close> is
  the use of a deleted command or of a missing database. Parameters: the session id that \<open>rand\<close> gives
  to a new command, and the configured defaults of the settings.
\<close>

section \<open>Definitions\<close>

datatype cmdaction = Cancel | OtherAction

datatype cmdstatus = Executing | Completed | Canceled

record cmdrequest =
  cq_node :: string
  cq_sessionID :: string
  cq_action :: cmdaction
  cq_form :: "form option"

record cmdresponse =
  cr_node :: string
  cr_sessionID :: string
  cr_status :: cmdstatus
  cr_form :: "form option"

datatype cmdstate = Init | WaitingForResponse

record adhoccmd =
  ac_id :: string
  ac_initiator :: jid
  ac_state :: cmdstate
  ac_lastActivity :: int

record factory =
  fa_node :: string
  fa_name :: string
  fa_userSettings :: "(string, string) smap"

record adhoc =
  ah_factories :: "(string, factory) smap"
  ah_heap :: "(nat, adhoccmd) smap"
  ah_next :: nat
  ah_sessions :: "(jid, (string, nat) smap) smap"
  ah_items :: "(string \<times> string) list"

record ahconf =
  hc_send_headlines :: "bool option"
  hc_stay_connected :: "bool option"
  hc_string :: "string \<Rightarrow> string option"
  hc_bool :: "string \<Rightarrow> bool option"

datatype adhocout = CmdResponse jid string cmdresponse | CmdError jid string errcond

subsection \<open>\<open>SettingsAdHocCommand\<close>\<close>

definition SettingsAdHocCommandFactory :: factory where
  "SettingsAdHocCommandFactory = \<lparr>fa_node = ''settings'', fa_name = ''Transport settings'',
     fa_userSettings = [(''send_headlines'', ''0''), (''stay_connected'', ''0'')]\<rparr>"

definition empty_form :: form where
  "empty_form = \<lparr>fm_title = [], fm_instructions = [], fm_fields = []\<rparr>"

definition settings_response :: "string \<Rightarrow> cmdstatus \<Rightarrow> form option \<Rightarrow> cmdresponse" where
  "settings_response sid status form = \<lparr>cr_node = ''settings'', cr_sessionID = sid, cr_status = status, cr_form = form\<rparr>"

definition bool_str :: "bool \<Rightarrow> string" where
  "bool_str b = (if b then ''1'' else ''0'')"

text \<open>One field of the form: the setting is read, and stored with its default if there is none.\<close>

definition setting_field :: "'d storage \<Rightarrow> int \<Rightarrow> string \<Rightarrow> string \<Rightarrow> string \<Rightarrow> form \<times> 'd \<Rightarrow> form \<times> 'd" where
  "setting_field st i name def label fd =
     (let (val, db) = st_getUserSetting st i name def (snd fd)
      in (addField (createBooleanField name val label False) (fst fd), db))"

definition settings_form :: "'d storage \<Rightarrow> ahconf \<Rightarrow> int \<Rightarrow> 'd \<Rightarrow> form \<times> 'd" where
  "settings_form st hc i db =
     setting_field st i ''stay_connected'' (bool_str (dflt (hc_stay_connected hc) False)) ''Stay connected to legacy network when offline on XMPP''
      (setting_field st i ''send_headlines'' (bool_str (dflt (hc_send_headlines hc) False)) ''Allow sending messages as headlines''
        (setting_field st i ''enable_transport'' ''1'' ''Enable transport'' (empty_form, db)))"

definition getForm :: "'d wenv \<Rightarrow> ahconf \<Rightarrow> adhoccmd \<Rightarrow> 'd \<Rightarrow> cmdresponse \<times> 'd" where
  "getForm e hc c db =
     (case we_store e of
        None \<Rightarrow> (settings_response (ac_id c) Completed (Some (addField (createTextFixedField
                  ''This server does not support transport settings. There is no storage backend configured'') empty_form)), db)
      | Some st \<Rightarrow>
          (case st_getUser st db (bare_str e (ac_initiator c)) of
             None \<Rightarrow> (settings_response (ac_id c) Completed (Some (addField (createTextFixedField ''You are not registered.'') empty_form)), db)
           | Some user \<Rightarrow>
               (let (form, db) = settings_form st hc (ui_id user) db
                in (settings_response (ac_id c) Executing (Some form), db))))"

definition updateUserSetting :: "'d storage \<Rightarrow> form \<Rightarrow> int \<Rightarrow> string \<Rightarrow> 'd \<Rightarrow> 'd" where
  "updateUserSetting st form i name db =
     (let val = fieldValue form name [] in if val = [] then db else st_updateUserSetting st i name val db)"

definition ah_handleResponse :: "'d wenv \<Rightarrow> adhoccmd \<Rightarrow> cmdrequest \<Rightarrow> 'd \<Rightarrow> (cmdresponse \<times> 'd) option" where
  "ah_handleResponse e c p db =
     do { st \<leftarrow> we_store e;
          let db = (case (st_getUser st db (bare_str e (ac_initiator c)), cq_form p) of
                      (Some user, Some form) \<Rightarrow>
                        updateUserSetting st form (ui_id user) ''stay_connected''
                         (updateUserSetting st form (ui_id user) ''send_headlines''
                           (updateUserSetting st form (ui_id user) ''enable_transport'' db))
                    | _ \<Rightarrow> db);
          Some (settings_response (ac_id c) Completed None, db) }"

definition ah_handleRequest :: "'d wenv \<Rightarrow> ahconf \<Rightarrow> adhoccmd \<Rightarrow> cmdrequest \<Rightarrow> 'd \<Rightarrow> (cmdresponse \<times> adhoccmd \<times> 'd) option" where
  "ah_handleRequest e hc c p db =
     (if cq_action p = Cancel then Some (settings_response (ac_id c) Canceled None, c, db)
      else case ac_state c of
        Init \<Rightarrow> (let (r, db) = getForm e hc c db in Some (r, c\<lparr>ac_state := WaitingForResponse\<rparr>, db))
      | WaitingForResponse \<Rightarrow> map_option (\<lambda>(r, db). (r, c, db)) (ah_handleResponse e c p db))"

subsection \<open>\<open>AdHocManager\<close>\<close>

definition new_AdHocManager :: adhoc where
  "new_AdHocManager = \<lparr>ah_factories = [], ah_heap = [], ah_next = 0, ah_sessions = [], ah_items = []\<rparr>"

definition addAdHocCommand :: "factory \<Rightarrow> adhoc \<Rightarrow> adhoc" where
  "addAdHocCommand f m =
     (if smap_get (ah_factories m) (fa_node f) \<noteq> None then m
      else m\<lparr>ah_factories := smap_put (fa_node f) f (ah_factories m), ah_items := ah_items m @ [(fa_node f, fa_name f)]\<rparr>)"

text \<open>\<open>stop\<close> deletes all commands.\<close>

definition ah_stop :: "adhoc \<Rightarrow> adhoc" where
  "ah_stop m = m\<lparr>ah_heap := fold smap_del (concat (map (map snd \<circ> snd) (ah_sessions m))) (ah_heap m), ah_sessions := []\<rparr>"

text \<open>The settings of a new user, from the configuration and the database.\<close>

definition setting_default :: "ahconf \<Rightarrow> string \<Rightarrow> string \<Rightarrow> string \<Rightarrow> string" where
  "setting_default hc node name val =
     (if val \<in> {''true'', ''1'', ''false'', ''0''}
      then bool_str (dflt (hc_bool hc (node @ ''.'' @ name)) (val \<in> {''true'', ''1''}))
      else dflt (hc_string hc (node @ ''.'' @ name)) val)"

definition load_setting :: "'d wenv \<Rightarrow> ahconf \<Rightarrow> string \<times> string \<times> string \<Rightarrow> user \<Rightarrow> 'd \<Rightarrow> user \<times> 'd" where
  "load_setting e hc s usr db =
     (case s of (node, name, def) \<Rightarrow>
        (let (val, db) = (case we_store e of
                            None \<Rightarrow> (setting_default hc node name def, db)
                          | Some st \<Rightarrow> st_getUserSetting st (ui_id (u_info usr)) name (setting_default hc node name def) db)
         in (usr\<lparr>u_info := (u_info usr)\<lparr>ui_settings := smap_put name val (ui_settings (u_info usr))\<rparr>\<rparr>, db)))"

fun load_settings :: "'d wenv \<Rightarrow> ahconf \<Rightarrow> (string \<times> string \<times> string) list \<Rightarrow> nat \<Rightarrow> 'd world \<Rightarrow> 'd world option" where
  "load_settings e hc [] u w = Some w"
| "load_settings e hc (s # ss) u w =
     do { usr \<leftarrow> smap_get (w_heap w) u;
          let (usr, db) = load_setting e hc s usr (w_db w);
          load_settings e hc ss u (w\<lparr>w_db := db, w_heap := smap_put u usr (w_heap w)\<rparr>) }"

definition ah_handleUserCreated :: "'d wenv \<Rightarrow> ahconf \<Rightarrow> adhoc \<Rightarrow> nat \<Rightarrow> 'd world \<Rightarrow> 'd world option" where
  "ah_handleUserCreated e hc m u w =
     load_settings e hc (concat (map (\<lambda>(n, f). map (\<lambda>(name, def). (fa_node f, name, def)) (fa_userSettings f)) (ah_factories m))) u w"

text \<open>
  \<open>removeOldSessions\<close>: the commands that have been idle for more than a quarter of an hour are deleted, but
  what is erased from the map of a user is his address, not the id of the session. \<open>None\<close> is a command
  that has been deleted before.
\<close>

fun old_commands :: "int \<Rightarrow> (nat, adhoccmd) smap \<Rightarrow> (string \<times> nat) list \<Rightarrow> (nat list \<times> (nat, adhoccmd) smap) option" where
  "old_commands now heap [] = Some ([], heap)"
| "old_commands now heap ((sid, c) # cs) =
     do { cmd \<leftarrow> smap_get heap c;
          if now - ac_lastActivity cmd > 15 * 60
          then map_option (\<lambda>(old, heap). (c # old, heap)) (old_commands now (smap_del c heap) cs)
          else old_commands now heap cs }"

fun collect_sessions ::
  "swiften \<Rightarrow> int \<Rightarrow> (nat, adhoccmd) smap \<Rightarrow> (jid \<times> (string, nat) smap) list
    \<Rightarrow> ((jid, (string, nat) smap) smap \<times> (nat, adhoccmd) smap) option" where
  "collect_sessions sw now heap [] = Some ([], heap)"
| "collect_sessions sw now heap ((j, cs) # ss) =
     do { (old, heap) \<leftarrow> old_commands now heap cs;
          let cs = (if old = [] then cs else smap_del (sw_str sw j) cs);
          (ss, heap) \<leftarrow> collect_sessions sw now heap ss;
          Some ((j, cs) # ss, heap) }"

definition removeOldSessions :: "swiften \<Rightarrow> int \<Rightarrow> adhoc \<Rightarrow> adhoc option" where
  "removeOldSessions sw now m =
     do { (ss, heap) \<leftarrow> collect_sessions sw now (ah_heap m) (ah_sessions m);
          Some (m\<lparr>ah_heap := heap,
             ah_sessions := fold (\<lambda>j. smap_del (sw_parse sw (sw_str sw j))) (map fst (filter (\<lambda>(j, cs). cs = []) ss)) ss\<rparr>) }"

definition sessions_of :: "jid \<Rightarrow> adhoc \<Rightarrow> (string, nat) smap" where
  "sessions_of j m = smap_get_or [] (ah_sessions m) j"

text \<open>The command a request is for, a new one if there is no session: \<open>rid\<close> is its random id.\<close>

datatype found = NoCommand | Command nat

definition find_command :: "jid \<Rightarrow> string \<Rightarrow> cmdrequest \<Rightarrow> adhoc \<Rightarrow> found \<times> adhoc" where
  "find_command from rid p m =
     (if cq_sessionID p \<noteq> [] \<and> smap_get (ah_sessions m) from \<noteq> None
      then (case smap_get (sessions_of from m) (cq_sessionID p) of None \<Rightarrow> (NoCommand, m) | Some c \<Rightarrow> (Command c, m))
      else if smap_get (ah_factories m) (cq_node p) \<noteq> None
      then (let c = ah_next m
            in (Command c, m\<lparr>ah_heap := smap_put c \<lparr>ac_id = rid, ac_initiator = from, ac_state = Init, ac_lastActivity = 0\<rparr> (ah_heap m),
                  ah_next := Suc c, ah_sessions := smap_put from (smap_put rid c (sessions_of from m)) (ah_sessions m)\<rparr>))
      else (NoCommand, m))"

definition end_session :: "jid \<Rightarrow> nat \<Rightarrow> string \<Rightarrow> adhoc \<Rightarrow> adhoc" where
  "end_session from c sid m =
     (let cs = smap_del sid (sessions_of from m);
          ss = (if cs = [] then smap_del from (ah_sessions m) else smap_put from cs (ah_sessions m))
      in m\<lparr>ah_heap := smap_del c (ah_heap m), ah_sessions := ss\<rparr>)"

definition ah_handleSetRequest ::
  "'d wenv \<Rightarrow> ahconf \<Rightarrow> jid \<Rightarrow> string \<Rightarrow> string \<Rightarrow> cmdrequest \<Rightarrow> adhoc \<times> 'd world \<Rightarrow> (adhocout \<times> adhoc \<times> 'd world) option" where
  "ah_handleSetRequest e hc from iqid rid p mw =
     (case find_command from rid p (fst mw) of
        (NoCommand, m) \<Rightarrow> Some (CmdError from iqid BadRequest, m, snd mw)
      | (Command c, m) \<Rightarrow>
          do { cmd \<leftarrow> smap_get (ah_heap m) c;
               (r, cmd, db) \<leftarrow> ah_handleRequest e hc cmd p (w_db (snd mw));
               let w = (snd mw)\<lparr>w_db := db\<rparr>;
               let m = m\<lparr>ah_heap := smap_put c (cmd\<lparr>ac_lastActivity := we_now e\<rparr>) (ah_heap m)\<rparr>;
               let out = CmdResponse from iqid (r\<lparr>cr_sessionID := ac_id cmd\<rparr>);
               if cr_status r = Executing then Some (out, m, w)
               else do { (uo, w) \<leftarrow> um_getUser e (bare_str e from) w;
                         w \<leftarrow> (case uo of None \<Rightarrow> Some w | Some u \<Rightarrow> ah_handleUserCreated e hc m u w);
                         Some (out, end_session from c (ac_id cmd) m, w) } })"

end
