(* ===== verification/AdHocProps.thy ===== *)
theory AdHocProps
  imports AdHoc
begin

text \<open>
  Properties of the ad-hoc commands: no sequence of requests uses a deleted command or a missing database
  and each request is answered once; the collection of old sessions leaves entries of deleted commands behind;
  the values a user submits are the values the next form shows him.
\<close>

section \<open>Sessions\<close>

definition ah_session :: "adhoc \<Rightarrow> jid \<Rightarrow> string \<Rightarrow> nat option" where
  "ah_session m from sid = smap_get (sessions_of from m) sid"

text \<open>
  Between two requests every session refers to a command of its own, which has sent its form and waits
  for the answer; there is none if there is no database.
\<close>

definition adhoc_ok :: "'d wenv \<Rightarrow> adhoc \<Rightarrow> bool" where
  "adhoc_ok e m \<longleftrightarrow>
     (\<forall>from sid c. ah_session m from sid = Some c \<longrightarrow> c < ah_next m \<and> we_store e \<noteq> None
        \<and> (\<exists>cmd. smap_get (ah_heap m) c = Some cmd \<and> ac_id cmd = sid \<and> ac_initiator cmd = from \<and> ac_state cmd = WaitingForResponse))"

lemma adhoc_okD:
  assumes "adhoc_ok e m" and "ah_session m from sid = Some c"
  obtains cmd where "smap_get (ah_heap m) c = Some cmd" "ac_id cmd = sid" "ac_initiator cmd = from" "ac_state cmd = WaitingForResponse"
    "we_store e \<noteq> None" "c < ah_next m"
  using assms by (fastforce simp: adhoc_ok_def)

lemma sessions_of_upd [simp]:
  "sessions_of j (m\<lparr>ah_heap := h\<rparr>) = sessions_of j m" "sessions_of j (m\<lparr>ah_next := n\<rparr>) = sessions_of j m"
  by (simp_all add: sessions_of_def)

lemma sessions_of_put: "sessions_of j (m\<lparr>ah_sessions := smap_put from cs (ah_sessions m)\<rparr>) = (if j = from then cs else sessions_of j m)"
  by (simp add: sessions_of_def smap_get_or_def smap_simps)

text \<open>A session is determined by its command, so the end of one session does not touch another.\<close>

lemma session_unique: "adhoc_ok e m \<Longrightarrow> ah_session m from sid = Some c \<Longrightarrow> ah_session m from' sid' = Some c \<Longrightarrow> from' = from \<and> sid' = sid"
  unfolding adhoc_ok_def by (metis option.inject)

definition with_session :: "jid \<Rightarrow> adhoccmd \<Rightarrow> adhoc \<Rightarrow> adhoc" where
  "with_session from cmd m = m\<lparr>ah_heap := smap_put (ah_next m) cmd (ah_heap m), ah_next := Suc (ah_next m),
     ah_sessions := smap_put from (smap_put (ac_id cmd) (ah_next m) (sessions_of from m)) (ah_sessions m)\<rparr>"

definition new_command :: "string \<Rightarrow> jid \<Rightarrow> adhoccmd" where
  "new_command rid from = \<lparr>ac_id = rid, ac_initiator = from, ac_state = Init, ac_lastActivity = 0\<rparr>"

lemma session_with: "ah_session (with_session from cmd m) j sid = (if j = from \<and> sid = ac_id cmd then Some (ah_next m) else ah_session m j sid)"
  by (simp add: ah_session_def with_session_def sessions_of_def smap_get_or_def smap_simps split: option.splits)

lemma session_end: "ah_session (end_session from c sid m) j s = (if j = from \<and> s = sid then None else ah_session m j s)"
  by (auto simp: ah_session_def end_session_def sessions_of_def smap_get_or_def smap_simps Let_def split: option.splits)
     (metis fun_upd_apply smap_get_Nil smap_get_del)+

text \<open>The command a request is for.\<close>

inductive found_in :: "jid \<Rightarrow> string \<Rightarrow> cmdrequest \<Rightarrow> adhoc \<Rightarrow> found \<times> adhoc \<Rightarrow> bool" for "from" rid p m where
  refused: "found_in from rid p m (NoCommand, m)"
| known: "ah_session m from (cq_sessionID p) = Some c \<Longrightarrow> cq_sessionID p \<noteq> [] \<Longrightarrow> found_in from rid p m (Command c, m)"
| started: "smap_get (ah_factories m) (cq_node p) \<noteq> None \<Longrightarrow> found_in from rid p m (Command (ah_next m), with_session from (new_command rid from) m)"

lemma find_command_found: "found_in from rid p m (find_command from rid p m)"
  by (auto simp: find_command_def Let_def ah_session_def with_session_def new_command_def
      intro: found_in.intros found_in.started [unfolded with_session_def new_command_def, simplified] split: option.splits)


lemma find_command_cases:
  obtains "find_command from rid p m = (NoCommand, m)"
  | c where "find_command from rid p m = (Command c, m)" "ah_session m from (cq_sessionID p) = Some c"
  | "find_command from rid p m = (Command (ah_next m), with_session from (new_command rid from) m)"
  using find_command_found [of "from" rid p m] by (cases "find_command from rid p m") (auto elim: found_in.cases)

section \<open>Every request is answered\<close>

lemma load_setting_jid [simp]: "u_jid (fst (load_setting e hc s usr db)) = u_jid usr" "ui_id (u_info (fst (load_setting e hc s usr db))) = ui_id (u_info usr)"
  by (simp_all add: load_setting_def split: prod.splits)

lemma same_users_put:
  "smap_get (w_heap w) u = Some usr \<Longrightarrow> u_jid usr' = u_jid usr \<Longrightarrow> same_users w (w\<lparr>w_db := db, w_heap := smap_put u usr' (w_heap w)\<rparr>)"
  by (auto simp: same_users_def jids_def fun_eq_iff smap_simps intro: inv_intros)

lemma load_settings_runs:
  assumes "smap_get (w_heap w) u = Some usr"
  obtains w' where "load_settings e hc ss u w = Some w'" "same_users w w'"
proof -
  have "\<exists>w'. load_settings e hc ss u w = Some w' \<and> same_users w w'" using assms
  proof (induction ss arbitrary: w usr)
    case (Cons s ss)
    obtain usr' db where l: "load_setting e hc s usr (w_db w) = (usr', db)" by (cases "load_setting e hc s usr (w_db w)")
    have "u_jid usr' = u_jid usr" using load_setting_jid(1) [of e hc s usr "w_db w"] by (simp add: l)
    then have "same_users w (w\<lparr>w_db := db, w_heap := smap_put u usr' (w_heap w)\<rparr>)" using Cons.prems by (rule same_users_put [rotated])
    moreover obtain w' where "load_settings e hc ss u (w\<lparr>w_db := db, w_heap := smap_put u usr' (w_heap w)\<rparr>) = Some w'"
      "same_users (w\<lparr>w_db := db, w_heap := smap_put u usr' (w_heap w)\<rparr>) w'"
      using Cons.IH [of "w\<lparr>w_db := db, w_heap := smap_put u usr' (w_heap w)\<rparr>" usr'] by (auto simp: smap_simps)
    ultimately show ?case using Cons.prems by (auto simp: l intro: same_users_trans)
  qed simp
  then show ?thesis using that by blast
qed

lemma user_alive: "um_inv G e w \<Longrightarrow> smap_get (w_users w) k = Some u \<Longrightarrow> \<exists>usr. smap_get (w_heap w) u = Some usr"
proof -
  assume "um_inv G e w" "smap_get (w_users w) k = Some u"
  then obtain j where "jids w u = Some j" unfolding um_inv_def um_ok_iff by blast
  then show ?thesis by (auto simp: jids_def)
qed

text \<open>The end of a command: the settings of a user that is logged in are read again.\<close>

lemma refresh_runs:
  assumes inv: "um_inv {} e w"
  obtains uo w1 w2 where "um_getUser e key w = Some (uo, w1)" "(case uo of None \<Rightarrow> Some w1 | Some u \<Rightarrow> ah_handleUserCreated e hc m u w1) = Some w2"
    "um_inv {} e w2"
proof -
  obtain w1 where g: "um_getUser e key w = Some (smap_get (w_users w) key, w1)" "um_inv {} e w1" "w_users w1 = w_users w" by (rule getUser_inv [OF inv])
  show ?thesis
  proof (cases "smap_get (w_users w) key")
    case None
    then show ?thesis using that g by auto
  next
    case (Some u)
    then obtain usr where "smap_get (w_heap w1) u = Some usr" using user_alive [OF g(2)] g(3) by auto
    then obtain w2 where "ah_handleUserCreated e hc m u w1 = Some w2" "same_users w1 w2" unfolding ah_handleUserCreated_def by (rule load_settings_runs)
    then show ?thesis using that [of "Some u" w1 w2] g Some by (auto intro: um_inv_same)
  qed
qed

text \<open>One request to a command: it answers; if the answer is a form, the command waits for a response and there is a database.\<close>

lemma handleRequest_runs:
  assumes "ac_state cmd = WaitingForResponse \<longrightarrow> we_store e \<noteq> None"
  shows "\<exists>r cmd' db'. ah_handleRequest e hc cmd p db = Some (r, cmd', db') \<and> ac_id cmd' = ac_id cmd \<and> ac_initiator cmd' = ac_initiator cmd
    \<and> (cr_status r = Executing \<longrightarrow> ac_state cmd' = WaitingForResponse \<and> we_store e \<noteq> None)"
  using assms
  by (cases "ac_state cmd"; cases "we_store e")
     (auto simp: ah_handleRequest_def getForm_def ah_handleResponse_def settings_response_def Let_def split: option.splits prod.splits)

lemma answer_keeps_ok:
  assumes ok: "\<And>j sid a. ah_session m j sid = Some a \<Longrightarrow> (j, sid) \<noteq> (from, ac_id cmd) \<Longrightarrow> a \<noteq> c \<and> a < ah_next m \<and> we_store e \<noteq> None
      \<and> (\<exists>cmd. smap_get (ah_heap m) a = Some cmd \<and> ac_id cmd = sid \<and> ac_initiator cmd = j \<and> ac_state cmd = WaitingForResponse)"
  shows "adhoc_ok e (end_session from c (ac_id cmd) (m\<lparr>ah_heap := smap_put c cmd (ah_heap m)\<rparr>))"
    and "ah_session m from (ac_id cmd) = Some c \<Longrightarrow> c < ah_next m \<Longrightarrow> ac_initiator cmd = from \<Longrightarrow> ac_state cmd = WaitingForResponse \<Longrightarrow> we_store e \<noteq> None
      \<Longrightarrow> adhoc_ok e (m\<lparr>ah_heap := smap_put c cmd (ah_heap m)\<rparr>)"
proof -
  have s: "ah_session (m\<lparr>ah_heap := h\<rparr>) = ah_session m" for h by (simp add: ah_session_def fun_eq_iff)
  have "ah_heap (end_session from c sid m') = smap_del c (ah_heap m')" "ah_next (end_session from c sid m') = ah_next m'" for sid m'
    by (simp_all add: end_session_def Let_def)
  then show "adhoc_ok e (end_session from c (ac_id cmd) (m\<lparr>ah_heap := smap_put c cmd (ah_heap m)\<rparr>))"
    using ok unfolding adhoc_ok_def session_end s by (simp add: smap_simps split: if_splits)
  show "adhoc_ok e (m\<lparr>ah_heap := smap_put c cmd (ah_heap m)\<rparr>)"
    if "ah_session m from (ac_id cmd) = Some c" "c < ah_next m" "ac_initiator cmd = from" "ac_state cmd = WaitingForResponse" "we_store e \<noteq> None"
  proof -
    have "a < ah_next m \<and> (\<exists>cmd'. (if a = c then Some cmd else smap_get (ah_heap m) a) = Some cmd' \<and> ac_id cmd' = sid \<and> ac_initiator cmd' = j
        \<and> ac_state cmd' = WaitingForResponse)" if "ah_session m j sid = Some a" for j sid a
      using ok [OF that] that \<open>ah_session m from (ac_id cmd) = Some c\<close> \<open>c < ah_next m\<close> \<open>ac_initiator cmd = from\<close> \<open>ac_state cmd = WaitingForResponse\<close>
      by (cases "(j, sid) = (from, ac_id cmd)") auto
    then show ?thesis using that(5) unfolding adhoc_ok_def s by (simp add: smap_simps)
  qed
qed

lemma command_answers:
  assumes "find_command from rid p m = (Command c, m1)" and "smap_get (ah_heap m1) c = Some cmd" and "ah_session m1 from (ac_id cmd) = Some c"
    and "c < ah_next m1" and "ac_initiator cmd = from" and "ac_state cmd = WaitingForResponse \<longrightarrow> we_store e \<noteq> None" and inv: "um_inv {} e w"
    and others: "\<And>j sid a. ah_session m1 j sid = Some a \<Longrightarrow> (j, sid) \<noteq> (from, ac_id cmd) \<Longrightarrow> a \<noteq> c \<and> a < ah_next m1 \<and> we_store e \<noteq> None
      \<and> (\<exists>cmd. smap_get (ah_heap m1) a = Some cmd \<and> ac_id cmd = sid \<and> ac_initiator cmd = j \<and> ac_state cmd = WaitingForResponse)"
  obtains r m2 w2 where "ah_handleSetRequest e hc from iqid rid p (m, w) = Some (CmdResponse from iqid r, m2, w2)" "adhoc_ok e m2" "um_inv {} e w2"
    "cr_sessionID r = ac_id cmd"
proof -
  obtain r cmd' db where r: "ah_handleRequest e hc cmd p (w_db w) = Some (r, cmd', db)" "ac_id cmd' = ac_id cmd" "ac_initiator cmd' = from"
    "cr_status r = Executing \<Longrightarrow> ac_state cmd' = WaitingForResponse \<and> we_store e \<noteq> None"
    using handleRequest_runs [OF assms(6), of hc p "w_db w"] assms(5) by metis
  define cmd2 where "cmd2 = cmd'\<lparr>ac_lastActivity := we_now e\<rparr>"
  define m2 where "m2 = m1\<lparr>ah_heap := smap_put c cmd2 (ah_heap m1)\<rparr>"
  have cmd2: "ac_id cmd2 = ac_id cmd" "ac_initiator cmd2 = from" "ac_state cmd2 = ac_state cmd'" by (simp_all add: cmd2_def r)
  note keeps = answer_keeps_ok [of m1 "from" cmd2, unfolded cmd2, OF others]
  have inv': "um_inv {} e (w\<lparr>w_db := db\<rparr>)" using inv by (rule um_inv_db)
  obtain uo w1 w2 where u: "um_getUser e (bare_str e from) (w\<lparr>w_db := db\<rparr>) = Some (uo, w1)"
    "(case uo of None \<Rightarrow> Some w1 | Some u \<Rightarrow> ah_handleUserCreated e hc m2 u w1) = Some w2" "um_inv {} e w2"
    by (rule refresh_runs [OF inv'])
  show ?thesis
  proof (cases "cr_status r = Executing")
    case True
    then show ?thesis using that [of "r\<lparr>cr_sessionID := ac_id cmd\<rparr>" m2 "w\<lparr>w_db := db\<rparr>"] r assms(1-5) inv' keeps(2)
      by (simp add: ah_handleSetRequest_def Let_def m2_def cmd2_def)
  next
    case False
    then show ?thesis using that [of "r\<lparr>cr_sessionID := ac_id cmd\<rparr>" "end_session from c (ac_id cmd) m2" w2] r assms(1-5) u [unfolded m2_def cmd2_def] keeps(1)
      by (simp add: ah_handleSetRequest_def Let_def m2_def cmd2_def)
  qed
qed

lemma request_answered:
  assumes ok: "adhoc_ok e m" and inv: "um_inv {} e w"
  obtains out m' w' where "ah_handleSetRequest e hc from iqid rid p (m, w) = Some (out, m', w')" "adhoc_ok e m'" "um_inv {} e w'"
    "out = CmdError from iqid BadRequest \<or> (\<exists>r. out = CmdResponse from iqid r)"
proof (rule find_command_cases [of "from" rid p m])
  assume "find_command from rid p m = (NoCommand, m)"
  then show ?thesis using that [of "CmdError from iqid BadRequest" m w] ok inv by (simp add: ah_handleSetRequest_def)
next
  fix c assume f: "find_command from rid p m = (Command c, m)" and s: "ah_session m from (cq_sessionID p) = Some c"
  obtain cmd where cmd: "smap_get (ah_heap m) c = Some cmd" "ac_id cmd = cq_sessionID p" "ac_initiator cmd = from" "ac_state cmd = WaitingForResponse"
    "we_store e \<noteq> None" "c < ah_next m" by (rule adhoc_okD [OF ok s])
  have others: "a \<noteq> c \<and> a < ah_next m \<and> we_store e \<noteq> None
      \<and> (\<exists>cmd. smap_get (ah_heap m) a = Some cmd \<and> ac_id cmd = sid \<and> ac_initiator cmd = j \<and> ac_state cmd = WaitingForResponse)"
    if "ah_session m j sid = Some a" "(j, sid) \<noteq> (from, ac_id cmd)" for j sid a
    using session_unique [OF ok s] that cmd(2,5) adhoc_okD [OF ok that(1)] by metis
  show ?thesis by (rule command_answers [OF f cmd(1) _ cmd(6) cmd(3) _ inv others]) (use s cmd(2,5) that in auto)
next
  let ?m = "with_session from (new_command rid from) m"
  assume f: "find_command from rid p m = (Command (ah_next m), ?m)"
  have others: "a \<noteq> ah_next m \<and> a < ah_next ?m \<and> we_store e \<noteq> None
      \<and> (\<exists>cmd. smap_get (ah_heap ?m) a = Some cmd \<and> ac_id cmd = sid \<and> ac_initiator cmd = j \<and> ac_state cmd = WaitingForResponse)"
    if "ah_session ?m j sid = Some a" "(j, sid) \<noteq> (from, ac_id (new_command rid from))" for j sid a
  proof -
    have "ah_session m j sid = Some a" using that by (simp add: session_with split: if_splits)
    then show ?thesis by (rule adhoc_okD [OF ok]) (auto simp: with_session_def smap_simps)
  qed
  have "smap_get (ah_heap ?m) (ah_next m) = Some (new_command rid from)" "ah_session ?m from (ac_id (new_command rid from)) = Some (ah_next m)"
    "ah_next m < ah_next ?m" by (simp_all add: session_with) (simp_all add: with_session_def smap_simps)
  then show ?thesis by (rule command_answers [OF f _ _ _ _ _ inv others]) (use that in \<open>auto simp: new_command_def\<close>)
qed

text \<open>A sequence of requests: the sender, the id of the request, the random session id and the request.\<close>

fun run_requests ::
  "'d wenv \<Rightarrow> ahconf \<Rightarrow> (jid \<times> string \<times> string \<times> cmdrequest) list \<Rightarrow> adhoc \<times> 'd world \<Rightarrow> (adhocout list \<times> adhoc \<times> 'd world) option" where
  "run_requests e hc [] mw = Some ([], mw)"
| "run_requests e hc ((from, iqid, rid, p) # rs) mw =
     do { (out, mw) \<leftarrow> ah_handleSetRequest e hc from iqid rid p mw;
          (outs, mw) \<leftarrow> run_requests e hc rs mw;
          Some (out # outs, mw) }"

definition answers :: "jid \<times> string \<times> string \<times> cmdrequest \<Rightarrow> adhocout \<Rightarrow> bool" where
  "answers q out = (case (q, out) of ((from, iqid, _), CmdResponse j i r) \<Rightarrow> j = from \<and> i = iqid
     | ((from, iqid, _), CmdError j i err) \<Rightarrow> j = from \<and> i = iqid \<and> err = BadRequest)"

lemma new_adhoc_ok: "adhoc_ok e (addAdHocCommand f new_AdHocManager)"
  by (simp add: adhoc_ok_def ah_session_def sessions_of_def addAdHocCommand_def new_AdHocManager_def smap_get_or_def)

lemma requests_answered:
  assumes "adhoc_ok e m" and "um_inv {} e w"
  obtains outs m' w' where "run_requests e hc rs (m, w) = Some (outs, m', w')" "list_all2 answers rs outs" "adhoc_ok e m'" "um_inv {} e w'"
proof -
  have "\<exists>outs m' w'. run_requests e hc rs (m, w) = Some (outs, m', w') \<and> list_all2 answers rs outs \<and> adhoc_ok e m' \<and> um_inv {} e w'"
    using assms
  proof (induction rs arbitrary: m w)
    case (Cons q rs)
    obtain "from" iqid rid p where q: "q = (from, iqid, rid, p)" by (cases q)
    obtain out m1 w1 where r: "ah_handleSetRequest e hc from iqid rid p (m, w) = Some (out, m1, w1)" "adhoc_ok e m1" "um_inv {} e w1"
      "out = CmdError from iqid BadRequest \<or> (\<exists>r. out = CmdResponse from iqid r)" by (rule request_answered [OF Cons.prems])
    then have "answers q out" by (auto simp: answers_def q)
    with Cons.IH [OF r(2,3)] r(1) show ?case by (fastforce simp: q)
  qed simp
  then show ?thesis using that by blast
qed

section \<open>The collection of old sessions\<close>

definition ah_maps_ok :: "adhoc \<Rightarrow> bool" where
  "ah_maps_ok m \<longleftrightarrow> smap_ok (ah_sessions m) \<and> (\<forall>j cs. smap_get (ah_sessions m) j = Some cs \<longrightarrow> cs \<noteq> [] \<and> smap_ok cs)"

lemma smap_put_nonempty [simp]: "smap_put k v m \<noteq> []"
  by (cases "(k, v, m)" rule: smap_put.cases) auto

lemma sessions_of_ok: "ah_maps_ok m \<Longrightarrow> smap_ok (sessions_of j m)"
  by (auto simp: ah_maps_ok_def sessions_of_def smap_get_or_def split: option.splits)

lemma with_session_maps: "ah_maps_ok m \<Longrightarrow> ah_maps_ok (with_session from cmd m)"
  using sessions_of_ok [of m "from"] by (auto simp: ah_maps_ok_def with_session_def smap_simps smap_ok_put)

lemma end_session_maps: "ah_maps_ok m \<Longrightarrow> ah_maps_ok (end_session from c sid m)"
  using sessions_of_ok [of m "from"] by (auto simp: ah_maps_ok_def end_session_def Let_def smap_simps smap_ok_put smap_ok_del split: if_splits)

lemma maps_ok_heap [simp]: "ah_maps_ok (m\<lparr>ah_heap := h\<rparr>) = ah_maps_ok m"
  by (simp add: ah_maps_ok_def)

lemma request_maps:
  assumes "ah_maps_ok m" and "ah_handleSetRequest e hc from iqid rid p (m, w) = Some (out, m', w')"
  shows "ah_maps_ok m'"
proof -
  have "ah_maps_ok (snd (find_command from rid p m))"
    by (rule find_command_cases [of "from" rid p m]) (simp_all add: assms(1) with_session_maps)
  then show ?thesis using assms(2)
    by (auto simp: ah_handleSetRequest_def bind_eq_Some_conv Let_def end_session_maps split: prod.splits found.splits if_splits)
qed

lemma run_requests_maps: "run_requests e hc rs (m, w) = Some (outs, m', w') \<Longrightarrow> ah_maps_ok m \<Longrightarrow> ah_maps_ok m'"
proof (induction rs arbitrary: m w outs)
  case (Cons q rs)
  obtain "from" iqid rid p where q: "q = (from, iqid, rid, p)" by (cases q)
  obtain out m1 w1 outs' where "ah_handleSetRequest e hc from iqid rid p (m, w) = Some (out, m1, w1)"
    and r: "run_requests e hc rs (m1, w1) = Some (outs', m', w')" using Cons.prems(1) by (auto simp: q bind_eq_Some_conv)
  with Cons.prems(2) have "ah_maps_ok m1" by (blast intro: request_maps)
  with r show ?case by (rule Cons.IH)
qed simp

definition is_old :: "int \<Rightarrow> (nat, adhoccmd) smap \<Rightarrow> nat \<Rightarrow> bool" where
  "is_old now heap c = (case smap_get heap c of None \<Rightarrow> False | Some cmd \<Rightarrow> now - ac_lastActivity cmd > 15 * 60)"

definition without_old :: "int \<Rightarrow> nat set \<Rightarrow> (nat, adhoccmd) smap \<Rightarrow> (nat, adhoccmd) smap \<Rightarrow> bool" where
  "without_old now cs heap heap' \<longleftrightarrow> smap_get heap' = (\<lambda>c. if c \<in> cs \<and> is_old now heap c then None else smap_get heap c)"

lemma old_commands_run:
  assumes "distinct (map snd cs)" and "\<And>c. c \<in> snd ` set cs \<Longrightarrow> smap_get heap c \<noteq> None"
  shows "\<exists>old heap'. old_commands now heap cs = Some (old, heap') \<and> without_old now (snd ` set cs) heap heap'"
  using assms
proof (induction cs arbitrary: heap)
  case (Cons x cs)
  obtain sid c where x: "x = (sid, c)" by (cases x)
  obtain cmd where cmd: "smap_get heap c = Some cmd" using Cons.prems(2) [of c] by (auto simp: x)
  define heap1 where "heap1 = (if is_old now heap c then smap_del c heap else heap)"
  have c: "c \<notin> snd ` set cs" using Cons.prems(1) by (simp add: x)
  have "\<And>a. a \<in> snd ` set cs \<Longrightarrow> smap_get heap1 a \<noteq> None"
    using Cons.prems(2) c by (auto simp: x heap1_def smap_simps)
  then obtain old heap' where r: "old_commands now heap1 cs = Some (old, heap')" and h: "without_old now (snd ` set cs) heap1 heap'"
    using Cons.IH [of heap1] Cons.prems(1) by (auto simp: x)
  have "without_old now (snd ` set (x # cs)) heap heap'"
    using h c cmd by (auto simp: without_old_def x heap1_def is_old_def smap_simps fun_eq_iff)
  moreover have "\<exists>old. old_commands now heap (x # cs) = Some (old, heap')"
    using r cmd by (auto simp: x heap1_def is_old_def split: if_splits)
  ultimately show ?case by blast
qed (simp add: without_old_def)

definition commands_of :: "(jid \<times> (string, nat) smap) list \<Rightarrow> nat list" where
  "commands_of ss = concat (map (\<lambda>(j, cs). map snd cs) ss)"

lemma smap_del_absent: "smap_get m k = None \<Longrightarrow> smap_del k m = m"
  by (force simp: smap_del_def smap_get_None_iff filter_id_conv)

lemma collect_run:
  assumes "distinct (commands_of ss)" and "\<And>c. c \<in> set (commands_of ss) \<Longrightarrow> smap_get heap c \<noteq> None"
    and "\<And>j cs. (j, cs) \<in> set ss \<Longrightarrow> smap_get cs (sw_str sw j) = None"
  shows "\<exists>heap'. collect_sessions sw now heap ss = Some (ss, heap') \<and> without_old now (set (commands_of ss)) heap heap'"
  using assms
proof (induction ss arbitrary: heap)
  case (Cons x ss)
  obtain j cs where x: "x = (j, cs)" by (cases x)
  have d: "distinct (map snd cs)" "distinct (commands_of ss)" "snd ` set cs \<inter> set (commands_of ss) = {}"
    using Cons.prems(1) by (auto simp: commands_of_def x)
  obtain old heap1 where o: "old_commands now heap cs = Some (old, heap1)" and h1: "without_old now (snd ` set cs) heap heap1"
    using old_commands_run [OF d(1), of heap now] Cons.prems(2) by (auto simp: commands_of_def x)
  have "\<And>c. c \<in> set (commands_of ss) \<Longrightarrow> smap_get heap1 c = smap_get heap c" using h1 d(3) by (auto simp: without_old_def)
  then obtain heap' where r: "collect_sessions sw now heap1 ss = Some (ss, heap')" and h: "without_old now (set (commands_of ss)) heap1 heap'"
    using Cons.IH [of heap1] d(2) Cons.prems(2,3) by (auto simp: commands_of_def x)
  have "without_old now (set (commands_of (x # ss))) heap heap'"
    using h h1 d(3) by (auto simp: without_old_def commands_of_def x is_old_def fun_eq_iff split: option.splits)
  moreover have "smap_del (sw_str sw j) cs = cs" using Cons.prems(3) [of j cs] by (simp add: x smap_del_absent)
  ultimately show ?case using o r by (simp add: x)
qed (simp add: without_old_def commands_of_def)

lemma commands_distinct:
  assumes "distinct (map fst ss)" and "\<And>j cs. (j, cs) \<in> set ss \<Longrightarrow> distinct (map fst cs)"
    and "\<And>j cs sid j' cs' sid' c. (j, cs) \<in> set ss \<Longrightarrow> (sid, c) \<in> set cs \<Longrightarrow> (j', cs') \<in> set ss \<Longrightarrow> (sid', c) \<in> set cs' \<Longrightarrow> j = j' \<and> sid = sid'"
  shows "distinct (commands_of ss)"
  using assms
proof (induction ss)
  case (Cons x ss)
  obtain j cs where x: "x = (j, cs)" by (cases x)
  have "inj_on snd (set cs)" using Cons.prems(3) [of j cs _ _ j cs] by (auto simp: x inj_on_def)
  then have "distinct (map snd cs)" using Cons.prems(2) [of j cs] by (auto simp: x distinct_map)
  moreover have "distinct (commands_of ss)"
  proof (rule Cons.IH)
    show "j = j' \<and> sid = sid'" if "(j, cs) \<in> set ss" "(sid, c) \<in> set cs" "(j', cs') \<in> set ss" "(sid', c) \<in> set cs'" for j cs sid j' cs' sid' c
      using Cons.prems(3) [of j cs sid c j' cs' sid'] that by simp
  qed (use Cons.prems(1,2) in auto)
  moreover have "snd ` set cs \<inter> set (commands_of ss) = {}"
  proof -
    { fix c sid j' cs' sid' assume "(sid, c) \<in> set cs" "(j', cs') \<in> set ss" "(sid', c) \<in> set cs'"
      then have "j = j'" using Cons.prems(3) [of j cs sid c j' cs' sid'] by (simp add: x)
      then have False using Cons.prems(1) \<open>(j', cs') \<in> set ss\<close> by (force simp: x) }
    then show ?thesis by (fastforce simp: commands_of_def)
  qed
  ultimately show ?case by (simp add: x commands_of_def)
qed (simp add: commands_of_def)

lemma session_iff: "ah_maps_ok m \<Longrightarrow> ah_session m j sid = Some c \<longleftrightarrow> (\<exists>cs. (j, cs) \<in> set (ah_sessions m) \<and> (sid, c) \<in> set cs)"
proof -
  assume maps: "ah_maps_ok m"
  have "ah_session m j sid = Some c \<longleftrightarrow> (\<exists>cs. smap_get (ah_sessions m) j = Some cs \<and> smap_get cs sid = Some c)"
    by (cases "smap_get (ah_sessions m) j") (simp_all add: ah_session_def sessions_of_def smap_get_or_def)
  also have "\<dots> \<longleftrightarrow> (\<exists>cs. smap_get (ah_sessions m) j = Some cs \<and> (sid, c) \<in> set cs)"
    using maps by (metis ah_maps_ok_def smap_get_iff)
  finally show ?thesis using maps by (simp add: ah_maps_ok_def smap_get_iff)
qed

lemma open_sessions_distinct:
  assumes ok: "adhoc_ok e m" and maps: "ah_maps_ok m"
  shows "distinct (commands_of (ah_sessions m))"
proof (rule commands_distinct)
  show "distinct (map fst (ah_sessions m))" using maps by (simp add: ah_maps_ok_def smap_ok_def strict_sorted_iff)
next
  fix j cs assume "(j, cs) \<in> set (ah_sessions m)"
  then have "smap_ok cs" using maps by (auto simp: ah_maps_ok_def smap_get_iff)
  then show "distinct (map fst cs)" by (simp add: smap_ok_def strict_sorted_iff)
next
  fix j cs sid j' cs' sid' c
  assume "(j, cs) \<in> set (ah_sessions m)" "(sid, c) \<in> set cs" "(j', cs') \<in> set (ah_sessions m)" "(sid', c) \<in> set cs'"
  then have "ah_session m j sid = Some c" "ah_session m j' sid' = Some c" using session_iff [OF maps] by blast+
  then show "j = j' \<and> sid = sid'" using session_unique [OF ok] by blast
qed

text \<open>
  The collection deletes the old commands but keeps their sessions, unless the id of a session is the
  address of its user.
\<close>

lemma collection_keeps_sessions:
  assumes ok: "adhoc_ok e m" and maps: "ah_maps_ok m" and ids: "\<And>j. ah_session m j (sw_str sw j) = None"
  obtains heap where "removeOldSessions sw now m = Some (m\<lparr>ah_heap := heap\<rparr>)"
    "without_old now (set (commands_of (ah_sessions m))) (ah_heap m) heap"
proof -
  have alive: "smap_get (ah_heap m) c \<noteq> None" if "c \<in> set (commands_of (ah_sessions m))" for c
  proof -
    from that obtain j sid where "ah_session m j sid = Some c" using session_iff [OF maps] by (fastforce simp: commands_of_def)
    then show ?thesis by (rule adhoc_okD [OF ok]) simp
  qed
  have entry: "smap_get cs (sw_str sw j) = None \<and> cs \<noteq> []" if "(j, cs) \<in> set (ah_sessions m)" for j cs
  proof -
    have "smap_get (ah_sessions m) j = Some cs" using that maps by (simp add: ah_maps_ok_def smap_get_iff)
    then show ?thesis using ids [of j] maps by (auto simp: ah_session_def sessions_of_def smap_get_or_def ah_maps_ok_def)
  qed
  obtain heap where h: "collect_sessions sw now (ah_heap m) (ah_sessions m) = Some (ah_sessions m, heap)"
    "without_old now (set (commands_of (ah_sessions m))) (ah_heap m) heap"
    using collect_run [OF open_sessions_distinct [OF ok maps] alive, of sw now] entry by blast
  have "filter (\<lambda>(j, cs). cs = []) (ah_sessions m) = []" using entry by (auto simp: filter_empty_conv)
  then show ?thesis using that [of heap] h by (simp add: removeOldSessions_def)
qed

lemma old_commands_mono: "old_commands now heap cs = Some (old, heap') \<Longrightarrow> smap_get heap c = None \<Longrightarrow> smap_get heap' c = None"
  by (induction cs arbitrary: heap old) (auto simp: bind_eq_Some_conv smap_simps split: if_splits)

lemma old_commands_dangling: "smap_get heap c = None \<Longrightarrow> c \<in> snd ` set cs \<Longrightarrow> old_commands now heap cs = None"
proof (induction cs arbitrary: heap)
  case (Cons x cs)
  obtain sid a where x: "x = (sid, a)" by (cases x)
  have "old_commands now heap cs = None" "old_commands now (smap_del a heap) cs = None" if "a \<noteq> c"
    using Cons.IH [of heap] Cons.IH [of "smap_del a heap"] Cons.prems that by (simp_all add: x smap_simps)
  then show ?case using Cons.prems(1) by (cases "a = c"; cases "smap_get heap a") (simp_all add: x)
qed simp

lemma collect_dangling: "smap_get heap c = None \<Longrightarrow> c \<in> set (commands_of ss) \<Longrightarrow> collect_sessions sw now heap ss = None"
proof (induction ss arbitrary: heap)
  case (Cons x ss)
  obtain j cs where x: "x = (j, cs)" by (cases x)
  show ?case
  proof (cases "c \<in> snd ` set cs")
    case False
    then show ?thesis using Cons old_commands_mono [of now heap cs]
      by (auto simp: x commands_of_def bind_eq_None_conv split: prod.splits)
  qed (use old_commands_dangling Cons.prems(1) in \<open>simp add: x\<close>)
qed (simp add: commands_of_def)

lemma collected_session_dangles:
  assumes ok: "adhoc_ok e m" and maps: "ah_maps_ok m" and ids: "\<And>j. ah_session m j (sw_str sw j) = None"
    and s: "ah_session m from sid = Some c" and old: "is_old now (ah_heap m) c" and "sid \<noteq> []"
  obtains m' where "removeOldSessions sw now m = Some m'" "ah_session m' from sid = Some c" "smap_get (ah_heap m') c = None"
    "\<And>(e' :: 'f wenv) hc iqid rid p w. cq_sessionID p = sid \<Longrightarrow> ah_handleSetRequest e' hc from iqid rid p (m', w) = None"
    "\<And>sw now. removeOldSessions sw now m' = None"
proof -
  obtain heap where r: "removeOldSessions sw now m = Some (m\<lparr>ah_heap := heap\<rparr>)"
    and h: "without_old now (set (commands_of (ah_sessions m))) (ah_heap m) heap" by (rule collection_keeps_sessions [OF ok maps ids])
  obtain cs where cs: "(from, cs) \<in> set (ah_sessions m)" "(sid, c) \<in> set cs" using s session_iff [OF maps] by blast
  have c: "c \<in> set (commands_of (ah_sessions m))"
    unfolding commands_of_def set_concat set_map UN_iff by (rule bexI [OF _ imageI [OF cs(1)]]) (use cs(2) in \<open>simp add: rev_image_eqI\<close>)
  have gone: "smap_get heap c = None" using h c old by (simp add: without_old_def)
  have entry: "smap_get (sessions_of from m) sid = Some c" using s by (simp add: ah_session_def)
  moreover from this have "smap_get (ah_sessions m) from \<noteq> None"
    by (cases "smap_get (ah_sessions m) from") (simp_all add: sessions_of_def smap_get_or_def)
  ultimately have f: "find_command from rid p (m\<lparr>ah_heap := heap\<rparr>) = (Command c, m\<lparr>ah_heap := heap\<rparr>)" if "cq_sessionID p = sid" for rid p
    using that \<open>sid \<noteq> []\<close> by (simp add: find_command_def)
  show ?thesis
  proof (rule that)
    show "removeOldSessions sw now m = Some (m\<lparr>ah_heap := heap\<rparr>)" by (rule r)
    show "ah_session (m\<lparr>ah_heap := heap\<rparr>) from sid = Some c" using entry by (simp add: ah_session_def)
    show "smap_get (ah_heap (m\<lparr>ah_heap := heap\<rparr>)) c = None" using gone by simp
    show "ah_handleSetRequest e hc from iqid rid p (m\<lparr>ah_heap := heap\<rparr>, w) = None" if "cq_sessionID p = sid" for e :: "'f wenv" and hc iqid rid p w
      using f [OF that] gone by (simp add: ah_handleSetRequest_def)
    show "removeOldSessions sw now (m\<lparr>ah_heap := heap\<rparr>) = None" for sw now
      using collect_dangling [OF gone c] by (simp add: removeOldSessions_def)
  qed
qed

section \<open>The settings of a user\<close>

text \<open>
  What the settings command relies on: reading a setting stores its default if there is none and
  returns the stored value; an update changes a setting that is stored; neither touches the users.
\<close>

definition settle_in :: "('k \<Rightarrow> 'v option) \<Rightarrow> 'k \<Rightarrow> 'v \<Rightarrow> 'k \<Rightarrow> 'v option" where
  "settle_in f k d = (if f k = None then f(k \<mapsto> d) else f)"

abbreviation setting_names :: "string list" where
  "setting_names \<equiv> [''enable_transport'', ''send_headlines'', ''stay_connected'']"

locale setting_store =
  fixes st :: "'d storage" and look :: "'d \<Rightarrow> int \<times> string \<Rightarrow> string option" and plain :: "string \<Rightarrow> bool"
  assumes get_value: "plain n \<Longrightarrow> plain d \<Longrightarrow> fst (st_getUserSetting st i n d db) = dflt (look db (i, n)) d"
    and get_look: "plain n \<Longrightarrow> plain d \<Longrightarrow> look (snd (st_getUserSetting st i n d db)) = settle_in (look db) (i, n) d"
    and get_user: "st_getUser st (snd (st_getUserSetting st i n d db)) = st_getUser st db"
    and upd_look: "plain n \<Longrightarrow> plain v \<Longrightarrow> look (st_updateUserSetting st i n v db) = (if look db (i, n) = None then look db else (look db)((i, n) \<mapsto> v))"
    and upd_user: "st_getUser st (st_updateUserSetting st i n v db) = st_getUser st db"
    and plain_names: "plain ''enable_transport''" "plain ''send_headlines''" "plain ''stay_connected''" "plain ''0''" "plain ''1''"
begin

lemma bool_str_plain: "plain (bool_str b)"
  using plain_names by (simp add: bool_str_def)

text \<open>A stored value is never lost by reading settings.\<close>

lemma get_keeps: "plain n \<Longrightarrow> plain d \<Longrightarrow> look db (i', n') = Some v \<Longrightarrow> look (snd (st_getUserSetting st i n d db)) (i', n') = Some v"
  by (auto simp: get_look settle_in_def)

lemma settings_form_shows:
  assumes "settings_form st hc i db = (form, db')"
  shows "fieldValue form ''enable_transport'' [] = dflt (look db (i, ''enable_transport'')) ''1''"
    and "fieldValue form ''send_headlines'' [] = dflt (look db (i, ''send_headlines'')) (bool_str (dflt (hc_send_headlines hc) False))"
    and "fieldValue form ''stay_connected'' [] = dflt (look db (i, ''stay_connected'')) (bool_str (dflt (hc_stay_connected hc) False))"
    and "\<And>n. n \<in> {''enable_transport'', ''send_headlines'', ''stay_connected''} \<Longrightarrow> look db' (i, n) = Some (fieldValue form n [])"
    and "st_getUser st db' = st_getUser st db"
proof -
  note names = plain_names bool_str_plain
  obtain v1 db1 where r1: "st_getUserSetting st i ''enable_transport'' ''1'' db = (v1, db1)" by fastforce
  obtain v2 db2 where r2: "st_getUserSetting st i ''send_headlines'' (bool_str (dflt (hc_send_headlines hc) False)) db1 = (v2, db2)" by fastforce
  obtain v3 where r3: "st_getUserSetting st i ''stay_connected'' (bool_str (dflt (hc_stay_connected hc) False)) db2 = (v3, db')"
    using assms by (fastforce simp: settings_form_def setting_field_def r1 r2 split: prod.splits)
  have form: "fieldValue form ''enable_transport'' [] = v1" "fieldValue form ''send_headlines'' [] = v2" "fieldValue form ''stay_connected'' [] = v3"
    using assms by (auto simp: settings_form_def setting_field_def r1 r2 r3 addField_def empty_form_def fieldValue_def
        createBooleanField_def new_field_def field_value_def)
  have v1: "v1 = dflt (look db (i, ''enable_transport'')) ''1''" "look db1 = settle_in (look db) (i, ''enable_transport'') ''1''"
    using get_value [of "''enable_transport''" "''1''" i db] get_look [of "''enable_transport''" "''1''" i db] names by (simp_all add: r1)
  have v2: "v2 = dflt (look db1 (i, ''send_headlines'')) (bool_str (dflt (hc_send_headlines hc) False))"
      "look db2 = settle_in (look db1) (i, ''send_headlines'') (bool_str (dflt (hc_send_headlines hc) False))"
    using get_value [of "''send_headlines''" "bool_str (dflt (hc_send_headlines hc) False)" i db1]
      get_look [of "''send_headlines''" "bool_str (dflt (hc_send_headlines hc) False)" i db1] names by (simp_all add: r2)
  have v3: "v3 = dflt (look db2 (i, ''stay_connected'')) (bool_str (dflt (hc_stay_connected hc) False))"
      "look db' = settle_in (look db2) (i, ''stay_connected'') (bool_str (dflt (hc_stay_connected hc) False))"
    using get_value [of "''stay_connected''" "bool_str (dflt (hc_stay_connected hc) False)" i db2]
      get_look [of "''stay_connected''" "bool_str (dflt (hc_stay_connected hc) False)" i db2] names by (simp_all add: r3)
  show "fieldValue form ''enable_transport'' [] = dflt (look db (i, ''enable_transport'')) ''1''" using form v1 by simp
  show "fieldValue form ''send_headlines'' [] = dflt (look db (i, ''send_headlines'')) (bool_str (dflt (hc_send_headlines hc) False))"
    using form v1(2) v2(1) by (simp add: settle_in_def)
  show "fieldValue form ''stay_connected'' [] = dflt (look db (i, ''stay_connected'')) (bool_str (dflt (hc_stay_connected hc) False))"
    using form v1(2) v2(2) v3(1) by (simp add: settle_in_def)
  show "look db' (i, n) = Some (fieldValue form n [])" if "n \<in> {''enable_transport'', ''send_headlines'', ''stay_connected''}" for n
    using that form v1 v2 v3 by (auto simp: settle_in_def dflt_def split: option.splits if_splits)
  show "st_getUser st db' = st_getUser st db"
    using get_user [of i "''enable_transport''" "''1''" db] get_user [of i "''send_headlines''" _ db1] get_user [of i "''stay_connected''" _ db2]
    by (metis r1 r2 r3 snd_conv)
qed

lemma updateUserSetting_look:
  assumes "plain n" and "plain (fieldValue form n [])" and "look db (i, n) \<noteq> None"
  shows "look (updateUserSetting st form i n db) = (if fieldValue form n [] = [] then look db else (look db)((i, n) \<mapsto> fieldValue form n []))"
    and "st_getUser st (updateUserSetting st form i n db) = st_getUser st db"
  using assms by (auto simp: updateUserSetting_def Let_def upd_look upd_user)

text \<open>A submitted form: an empty value leaves the setting as it is.\<close>

lemma response_stores:
  assumes "we_store e = Some st" and "st_getUser st db (bare_str e (ac_initiator cmd)) = Some info" and "cq_form p = Some form"
    and "\<And>n. n \<in> set setting_names \<Longrightarrow> plain (fieldValue form n []) \<and> look db (ui_id info, n) = Some (v n)"
  obtains db' where "ah_handleResponse e cmd p db = Some (settings_response (ac_id cmd) Completed None, db')" "st_getUser st db' = st_getUser st db"
    "\<And>n. n \<in> set setting_names \<Longrightarrow> look db' (ui_id info, n) = Some (if fieldValue form n [] = [] then v n else fieldValue form n [])"
proof -
  let ?i = "ui_id info"
  define db1 where "db1 = updateUserSetting st form ?i ''enable_transport'' db"
  define db2 where "db2 = updateUserSetting st form ?i ''send_headlines'' db1"
  define db3 where "db3 = updateUserSetting st form ?i ''stay_connected'' db2"
  note vals = assms(4) [of "''enable_transport''", simplified] assms(4) [of "''send_headlines''", simplified] assms(4) [of "''stay_connected''", simplified]
  note u1 = updateUserSetting_look [of "''enable_transport''" form db ?i, folded db1_def]
  note u2 = updateUserSetting_look [of "''send_headlines''" form db1 ?i, folded db2_def]
  note u3 = updateUserSetting_look [of "''stay_connected''" form db2 ?i, folded db3_def]
  have l1: "look db1 = (if fieldValue form ''enable_transport'' [] = [] then look db else (look db)((?i, ''enable_transport'') \<mapsto> fieldValue form ''enable_transport'' []))"
    using u1(1) vals plain_names by simp
  have l2: "look db2 = (if fieldValue form ''send_headlines'' [] = [] then look db1 else (look db1)((?i, ''send_headlines'') \<mapsto> fieldValue form ''send_headlines'' []))"
    by (rule u2(1)) (use vals plain_names l1 in auto)
  have l3: "look db3 = (if fieldValue form ''stay_connected'' [] = [] then look db2 else (look db2)((?i, ''stay_connected'') \<mapsto> fieldValue form ''stay_connected'' []))"
    by (rule u3(1)) (use vals plain_names l1 l2 in auto)
  have users: "st_getUser st db3 = st_getUser st db"
    by (simp add: db3_def db2_def db1_def updateUserSetting_def Let_def upd_user)
  show ?thesis
  proof (rule that)
    show "ah_handleResponse e cmd p db = Some (settings_response (ac_id cmd) Completed None, db3)"
      using assms(1-3) by (simp add: ah_handleResponse_def db1_def db2_def db3_def)
    show "look db3 (?i, n) = Some (if fieldValue form n [] = [] then v n else fieldValue form n [])" if "n \<in> set setting_names" for n
      using that vals by (auto simp: l1 l2 l3)
  qed (rule users)
qed

lemma load_settings_keeps:
  assumes "we_store e = Some st" and "load_settings e hc ss u w = Some w'"
    and "\<And>node n d. (node, n, d) \<in> set ss \<Longrightarrow> plain n \<and> plain (setting_default hc node n d)"
  shows "st_getUser st (w_db w') = st_getUser st (w_db w)" and "look (w_db w) k = Some v \<Longrightarrow> look (w_db w') k = Some v"
proof -
  have "st_getUser st (w_db w') = st_getUser st (w_db w) \<and> (look (w_db w) k = Some v \<longrightarrow> look (w_db w') k = Some v)"
    using assms(2,3)
  proof (induction ss arbitrary: w)
    case (Cons s ss)
    obtain node n d where s: "s = (node, n, d)" by (cases s)
    obtain usr where u: "smap_get (w_heap w) u = Some usr" using Cons.prems(1) by (auto simp: bind_eq_Some_conv)
    let ?r = "st_getUserSetting st (ui_id (u_info usr)) n (setting_default hc node n d) (w_db w)"
    have "snd (load_setting e hc s usr (w_db w)) = snd ?r" using assms(1) by (simp add: load_setting_def s split: prod.splits)
    then obtain usr' where "load_setting e hc s usr (w_db w) = (usr', snd ?r)" by (metis prod.collapse)
    then have "load_settings e hc ss u (w\<lparr>w_db := snd ?r, w_heap := smap_put u usr' (w_heap w)\<rparr>) = Some w'"
      using Cons.prems(1) u by simp
    moreover have "plain n \<and> plain (setting_default hc node n d)" if "(node, n, d) \<in> set ss" for node n d using Cons.prems(2) [of node n d] that by simp
    ultimately have ih: "st_getUser st (w_db w') = st_getUser st (snd ?r) \<and> (look (snd ?r) k = Some v \<longrightarrow> look (w_db w') k = Some v)"
      by (drule_tac Cons.IH) simp_all
    have "plain n" "plain (setting_default hc node n d)" using Cons.prems(2) s by auto
    then show ?case using ih get_user get_keeps [of n "setting_default hc node n d" "w_db w" "fst k" "snd k" v] by simp
  qed simp
  then show "st_getUser st (w_db w') = st_getUser st (w_db w)" "look (w_db w) k = Some v \<Longrightarrow> look (w_db w') k = Some v" by auto
qed

text \<open>A request of a registered user without a session gets the form and a session.\<close>

lemma first_request:
  assumes "we_store e = Some st" and "st_getUser st (w_db w) (bare_str e from) = Some info" and "smap_get (ah_sessions m) from = None"
    and "smap_get (ah_factories m) (cq_node p) \<noteq> None" and "cq_action p \<noteq> Cancel" and form: "settings_form st hc (ui_id info) (w_db w) = (form, db')"
  obtains m' where "ah_handleSetRequest e hc from iqid rid p (m, w)
      = Some (CmdResponse from iqid (settings_response rid Executing (Some form)), m', w\<lparr>w_db := db'\<rparr>)"
    "smap_get (ah_sessions m') from = Some [(rid, ah_next m)]" "ah_factories m' = ah_factories m"
    "\<exists>t. smap_get (ah_heap m') (ah_next m) = Some \<lparr>ac_id = rid, ac_initiator = from, ac_state = WaitingForResponse, ac_lastActivity = t\<rparr>"
proof -
  let ?c = "ah_next m" and ?cmd = "(new_command rid from)\<lparr>ac_state := WaitingForResponse, ac_lastActivity := we_now e\<rparr>"
  let ?m = "with_session from (new_command rid from) m"
  have none: "sessions_of from m = []" using assms(3) by (simp add: sessions_of_def smap_get_or_def)
  have f: "find_command from rid p m = (Command ?c, ?m)"
    using assms(3,4) by (simp add: find_command_def Let_def with_session_def new_command_def)
  have c: "smap_get (ah_heap ?m) ?c = Some (new_command rid from)" by (simp add: with_session_def smap_simps)
  have "getForm e hc (new_command rid from) (w_db w) = (settings_response rid Executing (Some form), db')"
    using assms(1,2) form by (simp add: getForm_def new_command_def)
  then have r: "ah_handleRequest e hc (new_command rid from) p (w_db w)
      = Some (settings_response rid Executing (Some form), (new_command rid from)\<lparr>ac_state := WaitingForResponse\<rparr>, db')"
    using assms(5) by (simp add: ah_handleRequest_def new_command_def)
  show ?thesis
  proof (rule that)
    show "ah_handleSetRequest e hc from iqid rid p (m, w) = Some (CmdResponse from iqid (settings_response rid Executing (Some form)),
        ?m\<lparr>ah_heap := smap_put ?c ?cmd (ah_heap ?m)\<rparr>, w\<lparr>w_db := db'\<rparr>)"
      by (simp add: ah_handleSetRequest_def f c r Let_def settings_response_def) (simp add: new_command_def)
  qed (simp_all add: with_session_def none smap_simps new_command_def)
qed

text \<open>The answer to the form ends the session and keeps what is stored.\<close>

lemma second_request:
  assumes "we_store e = Some st" and "um_inv {} e w" and "smap_get (ah_sessions m) from = Some [(rid, c)]" and "rid \<noteq> []"
    and "smap_get (ah_heap m) c = Some \<lparr>ac_id = rid, ac_initiator = from, ac_state = WaitingForResponse, ac_lastActivity = t\<rparr>"
    and "cq_sessionID p = rid" and "cq_action p \<noteq> Cancel" and "ah_factories m = [(''settings'', SettingsAdHocCommandFactory)]"
    and "ah_handleResponse e \<lparr>ac_id = rid, ac_initiator = from, ac_state = WaitingForResponse, ac_lastActivity = t\<rparr> p (w_db w)
      = Some (settings_response rid Completed None, db')"
  obtains m' w' where "ah_handleSetRequest e hc from iqid rid' p (m, w) = Some (CmdResponse from iqid (settings_response rid Completed None), m', w')"
    "smap_get (ah_sessions m') from = None" "ah_factories m' = ah_factories m" "um_inv {} e w'"
    "st_getUser st (w_db w') = st_getUser st db'" "\<And>k v. look db' k = Some v \<Longrightarrow> look (w_db w') k = Some v"
proof -
  let ?cmd = "\<lparr>ac_id = rid, ac_initiator = from, ac_state = WaitingForResponse, ac_lastActivity = t\<rparr>"
  let ?m = "m\<lparr>ah_heap := smap_put c (?cmd\<lparr>ac_lastActivity := we_now e\<rparr>) (ah_heap m)\<rparr>"
  have cs: "sessions_of from m = [(rid, c)]" using assms(3) by (simp add: sessions_of_def smap_get_or_def)
  have d: "smap_del rid [(rid, c)] = []" by (simp add: smap_del_def)
  have f: "find_command from rid' p m = (Command c, m)"
    using assms(3,4,6) cs by (simp add: find_command_def smap_get_Cons)
  have r: "ah_handleRequest e hc ?cmd p (w_db w) = Some (settings_response rid Completed None, ?cmd, db')"
    using assms(7,9) by (simp add: ah_handleRequest_def)
  obtain uo w1 w2 where u: "um_getUser e (bare_str e from) (w\<lparr>w_db := db'\<rparr>) = Some (uo, w1)"
    "(case uo of None \<Rightarrow> Some w1 | Some u \<Rightarrow> ah_handleUserCreated e hc ?m u w1) = Some w2" "um_inv {} e w2"
    by (rule refresh_runs [OF um_inv_db(1) [OF assms(2)]])
  have db1: "w_db w1 = db'" using u(1) by (auto simp: um_getUser_def um_lookup_def bind_eq_Some_conv split: option.splits if_splits)
  have plain: "plain n \<and> plain (setting_default hc node n d)"
    if "(node, n, d) \<in> set (concat (map (\<lambda>(n, f). map (\<lambda>(name, def). (fa_node f, name, def)) (fa_userSettings f)) (ah_factories m)))" for node n d
    using that assms(8) plain_names bool_str_plain by (auto simp: SettingsAdHocCommandFactory_def setting_default_def)
  have stored: "st_getUser st (w_db w2) = st_getUser st db' \<and> (\<forall>k v. look db' k = Some v \<longrightarrow> look (w_db w2) k = Some v)"
  proof (cases uo)
    case (Some u')
    then have "load_settings e hc (concat (map (\<lambda>(n, f). map (\<lambda>(name, def). (fa_node f, name, def)) (fa_userSettings f)) (ah_factories m))) u' w1 = Some w2"
      using u(2) by (simp add: ah_handleUserCreated_def)
    from load_settings_keeps [OF assms(1) this plain] show ?thesis by (simp add: db1)
  qed (use u(2) db1 in simp_all)
  show ?thesis
  proof (rule that)
    show "ah_handleSetRequest e hc from iqid rid' p (m, w)
        = Some (CmdResponse from iqid (settings_response rid Completed None), end_session from c rid ?m, w2)"
      using u(1,2) by (simp add: ah_handleSetRequest_def f assms(5) r Let_def settings_response_def)
    show "smap_get (ah_sessions (end_session from c rid ?m)) from = None"
      by (simp add: end_session_def cs d smap_simps)
    show "ah_factories (end_session from c rid ?m) = ah_factories m" by (simp add: end_session_def Let_def)
    show "st_getUser st (w_db w2) = st_getUser st db'" using stored by simp
    show "look (w_db w2) k = Some v" if "look db' k = Some v" for k v using stored that by blast
  qed (rule u(3))
qed

lemma submitted_is_shown:
  assumes "we_store e = Some st" and "um_inv {} e w" and "st_getUser st (w_db w) (bare_str e from) = Some info"
    and "smap_get (ah_sessions m) from = None" and "ah_factories m = [(''settings'', SettingsAdHocCommandFactory)]" and "rid \<noteq> []"
    and p1: "cq_node p1 = ''settings''" "cq_action p1 \<noteq> Cancel" and p2: "cq_sessionID p2 = rid" "cq_action p2 \<noteq> Cancel" "cq_form p2 = Some form"
    and p3: "cq_node p3 = ''settings''" "cq_action p3 \<noteq> Cancel"
    and ok: "\<And>n. n \<in> set setting_names \<Longrightarrow> plain (fieldValue form n [])"
  obtains f1 f3 m' w' where
    "run_requests e hc [(from, q1, rid, p1), (from, q2, rid2, p2), (from, q3, rid3, p3)] (m, w)
      = Some ([CmdResponse from q1 (settings_response rid Executing (Some f1)), CmdResponse from q2 (settings_response rid Completed None),
               CmdResponse from q3 (settings_response rid3 Executing (Some f3))], m', w')"
    "\<And>n. n \<in> set setting_names \<Longrightarrow> fieldValue f3 n [] = (if fieldValue form n [] = [] then fieldValue f1 n [] else fieldValue form n [])"
proof -
  obtain f1 db1 where f1: "settings_form st hc (ui_id info) (w_db w) = (f1, db1)" by fastforce
  note shows1 = settings_form_shows [OF f1]
  have fac: "smap_get (ah_factories m) (cq_node p1) \<noteq> None" using assms(5) p1(1) by (simp add: smap_get_Cons)
  obtain m1 where r1: "ah_handleSetRequest e hc from q1 rid p1 (m, w) = Some (CmdResponse from q1 (settings_response rid Executing (Some f1)), m1, w\<lparr>w_db := db1\<rparr>)"
    "smap_get (ah_sessions m1) from = Some [(rid, ah_next m)]" "ah_factories m1 = ah_factories m"
    "\<exists>t. smap_get (ah_heap m1) (ah_next m) = Some \<lparr>ac_id = rid, ac_initiator = from, ac_state = WaitingForResponse, ac_lastActivity = t\<rparr>"
    by (rule first_request [OF assms(1,3,4) fac p1(2) f1])
  then obtain t where t: "smap_get (ah_heap m1) (ah_next m) = Some \<lparr>ac_id = rid, ac_initiator = from, ac_state = WaitingForResponse, ac_lastActivity = t\<rparr>" by blast
  let ?cmd = "\<lparr>ac_id = rid, ac_initiator = from, ac_state = WaitingForResponse, ac_lastActivity = t\<rparr>"
  have info1: "st_getUser st db1 (bare_str e (ac_initiator ?cmd)) = Some info" using shows1(5) assms(3) by simp
  obtain db2 where resp: "ah_handleResponse e ?cmd p2 db1 = Some (settings_response (ac_id ?cmd) Completed None, db2)" "st_getUser st db2 = st_getUser st db1"
    "\<And>n. n \<in> set setting_names \<Longrightarrow> look db2 (ui_id info, n) = Some (if fieldValue form n [] = [] then fieldValue f1 n [] else fieldValue form n [])"
    by (rule response_stores [OF assms(1) info1 p2(3), of "\<lambda>n. fieldValue f1 n []"]) (use ok shows1(4) in auto)
  have resp': "ah_handleResponse e ?cmd p2 (w_db (w\<lparr>w_db := db1\<rparr>)) = Some (settings_response rid Completed None, db2)" using resp(1) by simp
  have fac1: "ah_factories m1 = [(''settings'', SettingsAdHocCommandFactory)]" using r1(3) assms(5) by simp
  obtain m2 w2 where r2: "ah_handleSetRequest e hc from q2 rid2 p2 (m1, w\<lparr>w_db := db1\<rparr>) = Some (CmdResponse from q2 (settings_response rid Completed None), m2, w2)"
    "smap_get (ah_sessions m2) from = None" "ah_factories m2 = ah_factories m1" "st_getUser st (w_db w2) = st_getUser st db2"
    "\<And>k v. look db2 k = Some v \<Longrightarrow> look (w_db w2) k = Some v"
    by (rule second_request [OF assms(1) um_inv_db(1) [OF assms(2)] r1(2) assms(6) t p2(1,2) fac1 resp', of hc q2 rid2]) blast
  obtain f3 db3 where f3: "settings_form st hc (ui_id info) (w_db w2) = (f3, db3)" by fastforce
  have info2: "st_getUser st (w_db w2) (bare_str e from) = Some info" using r2(4) resp(2) info1 by simp
  have fac3: "smap_get (ah_factories m2) (cq_node p3) \<noteq> None" using r2(3) fac1 p3(1) by (simp add: smap_get_Cons)
  obtain m3 where r3: "ah_handleSetRequest e hc from q3 rid3 p3 (m2, w2) = Some (CmdResponse from q3 (settings_response rid3 Executing (Some f3)), m3, w2\<lparr>w_db := db3\<rparr>)"
    by (rule first_request [OF assms(1) info2 r2(2) fac3 p3(2) f3])
  have "fieldValue f3 n [] = (if fieldValue form n [] = [] then fieldValue f1 n [] else fieldValue form n [])" if "n \<in> set setting_names" for n
    using r2(5) [OF resp(3) [OF that]] settings_form_shows(1-3) [OF f3] that by (auto simp: dflt_def)
  then show ?thesis using that [of f1 f3 m3] r1(1) r2(1) r3 by simp
qed

end

text \<open>The SQLite database keeps settings so; its texts have no zero byte.\<close>

definition sql_setting_value :: "sqldb \<Rightarrow> int \<times> string \<Rightarrow> string option" where
  "sql_setting_value db k = map_option us_value (sql_user_setting (fst k) (snd k) db)"

lemma find_snoc: "find P (xs @ [x]) = (case find P xs of None \<Rightarrow> if P x then Some x else None | Some y \<Rightarrow> Some y)"
  by (induction xs) auto

lemma sql_insert_usetting_value:
  "sql_user_setting i n db = None \<Longrightarrow> us_user r = i \<Longrightarrow> us_var r = n
    \<Longrightarrow> sql_setting_value (sql_insert_usetting r db) = (sql_setting_value db)((i, n) \<mapsto> us_value r)"
proof -
  assume none: "sql_user_setting i n db = None" and r: "us_user r = i" "us_var r = n"
  then have "(us_user r, us_var r) \<notin> set (map (\<lambda>r. (us_user r, us_var r)) (t_usettings db))" by (auto simp: sql_user_setting_def find_None_iff)
  then have rows: "t_usettings (sql_insert_usetting r db) = t_usettings db @ [r]" by (simp add: sql_insert_usetting_def)
  show ?thesis
  proof
    fix k show "sql_setting_value (sql_insert_usetting r db) k = ((sql_setting_value db)((i, n) \<mapsto> us_value r)) k"
      using none r by (cases "k = (i, n)") (auto simp: sql_setting_value_def sql_user_setting_def rows find_snoc prod_eq_iff split: option.splits)
  qed
qed

lemma sql_update_usetting_value:
  "sql_setting_value (sql_update_usetting v i n db) = (if sql_setting_value db (i, n) = None then sql_setting_value db else (sql_setting_value db)((i, n) \<mapsto> v))"
proof -
  have "map_option us_value (find (\<lambda>r. us_user r = j \<and> us_var r = k) (map (\<lambda>r. if us_user r = i \<and> us_var r = n then r\<lparr>us_value := v\<rparr> else r) rs))
      = map_option (\<lambda>r. if j = i \<and> k = n then v else us_value r) (find (\<lambda>r. us_user r = j \<and> us_var r = k) rs)" for j k and rs :: "usetting_row list"
    by (induction rs) auto
  then have "sql_setting_value (sql_update_usetting v i n db) k
      = (if sql_setting_value db (i, n) = None then sql_setting_value db else (sql_setting_value db)((i, n) \<mapsto> v)) k" for k
    by (cases "k = (i, n)") (auto simp: sql_setting_value_def sql_user_setting_def sql_update_usetting_def prod_eq_iff)
  then show ?thesis by blast
qed

interpretation ss: setting_store "sqlite_storage base v" sql_setting_value text_ok for base v
proof
  fix n d :: string and i :: int and db :: sqldb
  assume n: "text_ok n" and d: "text_ok d"
  show "fst (st_getUserSetting (sqlite_storage base v) i n d db) = dflt (sql_setting_value db (i, n)) d"
    using n d by (simp add: sqlite_storage_def sqlite_getUserSetting_def no_faults_def sql_setting_value_def dflt_def c_str_id split: option.splits)
  show "sql_setting_value (snd (st_getUserSetting (sqlite_storage base v) i n d db)) = settle_in (sql_setting_value db) (i, n) d"
    using n d sql_insert_usetting_value [of i n db]
    by (auto simp: sqlite_storage_def sqlite_getUserSetting_def exec_stmt_def no_faults_def settle_in_def c_str_id sql_setting_value_def [of db "(i, n)"] split: option.splits)
next
  fix n d :: string and i :: int and db :: sqldb
  assume n: "text_ok n" and d: "text_ok d"
  show "sql_setting_value (st_updateUserSetting (sqlite_storage base v) i n d db)
      = (if sql_setting_value db (i, n) = None then sql_setting_value db else (sql_setting_value db)((i, n) \<mapsto> d))"
    using n d by (simp add: sqlite_storage_def sqlite_updateUserSetting_def exec_stmt_def no_faults_def c_str_id sql_update_usetting_value)
qed (auto simp: sqlite_storage_def sqlite_getUserSetting_def sqlite_updateUserSetting_def exec_stmt_def no_faults_def sql_insert_usetting_def
      sql_update_usetting_def sqlite_getUser_def text_ok_def NUL_def split: option.splits)

end
