(* ===== verification/Services.thy ===== *)
theory Services
  imports NPlugin Accounts AdminProps AdHocProps HandlersInv
begin

text \<open>
  The services around the user manager, on any state that the transport reaches: the registration of
  accounts in the SQLite database, the reconnection of users after a start, the administration
  interface and the ad-hoc commands.
\<close>

section \<open>A gateway with a database\<close>

definition service_wenv :: "sqldb wenv" where
  "service_wenv = \<lparr>we_sw = witness_sw, we_cf = (ce_cf witness_cenv)\<lparr>cf_server_mode := None, cf_needRegistration := Some True\<rparr>,
     we_store = Some (sqlite_storage witness_userinfo empty_var), we_uninit = witness_userinfo,
     we_caps = (\<lambda>_. Some []), we_low = id, we_now = 100, we_senv = witness_senv, we_penv = witness_penv 100\<rparr>"

definition service_henv :: henv where
  "service_henv = \<lparr>he_cd = witness_codec, he_fix = id, he_img = (\<lambda>_. None), he_mode = OobWrapAll, he_stamp = (\<lambda>_. Some 0),
     he_parse = (\<lambda>_. []), he_xml_iq = (\<lambda>_. []), he_admin = None, he_reg = witness_regconf\<rparr>"

abbreviation client :: jid where
  "client \<equiv> JID ''u'' ''x'' (Some ''a'')"

definition register_bob :: regpayload where
  "register_bob = \<lparr>rp_instructions = [], rp_registered = False, rp_remove = False, rp_username = Some ''bob'', rp_password = Some ''pw'', rp_form = None\<rparr>"

text \<open>An account is registered; the user is not logged in.\<close>

definition registered_day :: "wevent list" where
  "registered_day = [RegisterSet client ''q1'' register_bob]"

lemma registered_day_runs:
  obtains w info where "run_world service_wenv service_henv registered_day (empty_world empty_db) = Some w" "um_inv {} service_wenv w"
    "w_users w = []" "st_getUser (sqlite_storage witness_userinfo empty_var) (w_db w) ''u@x'' = Some info" "ui_id info = 1"
    "map ur_uin (t_users (w_db w)) = [''bob@chat'']"
proof -
  have "map_option (\<lambda>w. (w_users w, map ur_uin (t_users (w_db w)), map_option ui_id (st_getUser (sqlite_storage witness_userinfo empty_var) (w_db w) ''u@x'')))
      (run_world service_wenv service_henv registered_day (empty_world empty_db)) = Some ([], [''bob@chat''], Some 1)"
    by code_simp
  then obtain w where w: "run_world service_wenv service_henv registered_day (empty_world empty_db) = Some w" "w_users w = []"
    "map ur_uin (t_users (w_db w)) = [''bob@chat'']" "st_getUser (sqlite_storage witness_userinfo empty_var) (w_db w) ''u@x'' \<noteq> None"
    "map_option ui_id (st_getUser (sqlite_storage witness_userinfo empty_var) (w_db w) ''u@x'') = Some 1"
    by auto
  then show ?thesis using that um_keepsD [OF run_world_keeps empty_world_inv w(1)] by auto
qed

section \<open>Accounts\<close>





section \<open>Administration\<close>


definition witness_aenv :: aenv where
  "witness_aenv = \<lparr>ae_start = 10, ae_fields = ''Jabber ID'' @ [newline] @ ''Name'' @ [newline] @ ''Password'', ae_rss = 5, ae_shared = 2, ae_reload = True,
     ae_setOAuth2Code = (\<lambda>_ _. []), ae_getOAuth2URL = (\<lambda>_. []), ae_registration = True\<rparr>"

lemma witness_admin:
  obtains cmds where "new_AdminInterface witness_aenv = Some cmds" "smap_get cmds ''has_online_user'' = Some HasOnlineUserCommand"
proof -
  have "map_option (\<lambda>cmds. smap_get cmds ''has_online_user'') (new_AdminInterface witness_aenv) = Some (Some HasOnlineUserCommand)" by code_simp
  then show ?thesis using that by auto
qed




section \<open>Ad-hoc commands\<close>

definition settings_manager :: adhoc where
  "settings_manager = addAdHocCommand SettingsAdHocCommandFactory new_AdHocManager"

lemma settings_manager_ok: "adhoc_ok e settings_manager" "ah_maps_ok settings_manager"
  "ah_factories settings_manager = [(''settings'', SettingsAdHocCommandFactory)]"
  unfolding settings_manager_def
  by (rule new_adhoc_ok)
     (simp_all add: ah_maps_ok_def addAdHocCommand_def new_AdHocManager_def SettingsAdHocCommandFactory_def)

lemma requests_reach:
  assumes "run_world e h evs (empty_world db) = Some w" and "run_requests e hc rs (settings_manager, w) = Some (outs, m, w')"
  shows "adhoc_ok e m" and "ah_maps_ok m" and "um_inv {} e w'"
proof -
  have "um_inv {} e w" using um_keepsD [OF run_world_keeps empty_world_inv assms(1)] .
  then obtain outs2 m2 w2 where "run_requests e hc rs (settings_manager, w) = Some (outs2, m2, w2)" "adhoc_ok e m2" "um_inv {} e w2"
    by (rule requests_answered [OF settings_manager_ok(1)])
  then show "adhoc_ok e m" "um_inv {} e w'" using assms(2) by simp_all
  show "ah_maps_ok m" using run_requests_maps [OF assms(2) settings_manager_ok(2)] .
qed

lemma find_command_factories: "ah_factories (snd (find_command from rid p m)) = ah_factories m"
  by (rule find_command_cases [of "from" rid p m]) (simp_all add: with_session_def)

lemma request_factories: "ah_handleSetRequest e hc from q rid p mw = Some (out, m', w') \<Longrightarrow> ah_factories m' = ah_factories (fst mw)"
  using find_command_factories [of "from" rid p "fst mw"]
  by (auto simp: ah_handleSetRequest_def bind_eq_Some_conv Let_def end_session_def split: prod.splits found.splits if_splits)

lemma run_requests_factories: "run_requests e hc rs mw = Some (outs, m', w') \<Longrightarrow> ah_factories m' = ah_factories (fst mw)"
proof (induction rs arbitrary: mw outs)
  case (Cons r rs)
  obtain "from" q rid p where r: "r = (from, q, rid, p)" by (cases r)
  obtain out m1 w1 outs' where "ah_handleSetRequest e hc from q rid p mw = Some (out, m1, w1)" "run_requests e hc rs (m1, w1) = Some (outs', m', w')"
    using Cons.prems by (auto simp: r bind_eq_Some_conv)
  then show ?case using Cons.IH [of "(m1, w1)" outs'] request_factories by simp
qed auto

definition witness_ahconf :: ahconf where
  "witness_ahconf = \<lparr>hc_send_headlines = None, hc_stay_connected = Some True, hc_string = (\<lambda>_. None), hc_bool = (\<lambda>_. None)\<rparr>"

definition ask_settings :: cmdrequest where
  "ask_settings = \<lparr>cq_node = ''settings'', cq_sessionID = [], cq_action = OtherAction, cq_form = None\<rparr>"

definition submit_headlines :: cmdrequest where
  "submit_headlines = \<lparr>cq_node = ''settings'', cq_sessionID = ''s1'', cq_action = OtherAction,
     cq_form = Some (addField (createBooleanField ''send_headlines'' ''1'' [] False) empty_form)\<rparr>"

text \<open>
  C21: However users and strangers use the settings command, with whatever session ids, and with or
  without a database, no request reaches a deleted command or a missing database: each request gets
  exactly one answer, to its sender and with its id, a response or the error \<open>bad-request\<close>.
\<close>

theorem adhoc_requests_answered:
  assumes "run_world e h evs (empty_world db) = Some w"
  shows "\<exists>outs m' w'. run_requests e hc rs (settings_manager, w) = Some (outs, m', w') \<and> list_all2 answers rs outs"
proof -
  have "um_inv {} e w" using um_keepsD [OF run_world_keeps empty_world_inv assms(1)] .
  then obtain outs m' w' where "run_requests e hc rs (settings_manager, w) = Some (outs, m', w')" "list_all2 answers rs outs"
    by (rule requests_answered [OF settings_manager_ok(1)])
  then show ?thesis by blast
qed

theorem adhoc_requests_answered_witness:
  "case run_world service_wenv service_henv registered_day (empty_world empty_db) of
     None \<Rightarrow> False
   | Some w \<Rightarrow> (\<exists>outs m' w'. run_requests service_wenv witness_ahconf
         [(client, ''q1'', ''s1'', ask_settings), (client, ''q2'', ''s2'', submit_headlines), (client, ''q3'', ''s3'', submit_headlines\<lparr>cq_node := ''x''\<rparr>)]
         (settings_manager, w) = Some (outs, m', w') \<and> length outs = 3)"
proof -
  obtain w where w: "run_world service_wenv service_henv registered_day (empty_world empty_db) = Some w" by (rule registered_day_runs)
  show ?thesis
    using adhoc_requests_answered [OF w, of witness_ahconf "[(client, ''q1'', ''s1'', ask_settings), (client, ''q2'', ''s2'', submit_headlines),
        (client, ''q3'', ''s3'', submit_headlines\<lparr>cq_node := ''x''\<rparr>)]"] by (fastforce simp: w dest: list_all2_lengthD)
qed

text \<open>
  C10: A registered user who asks for his settings and submits the form finds what he has submitted in
  the next form; a field he has left empty keeps its value. Before, any requests of any users may have
  been handled.
\<close>

theorem submitted_settings_are_shown:
  assumes "run_world e h evs (empty_world db) = Some w0" and "run_requests e hc rs (settings_manager, w0) = Some (outs, m, w)"
    and "we_store e = Some (sqlite_storage base v)" and "st_getUser (sqlite_storage base v) (w_db w) (bare_str e from) = Some info"
    and "smap_get (ah_sessions m) from = None" and "rid \<noteq> []"
    and "cq_node p1 = ''settings''" "cq_action p1 \<noteq> Cancel" and "cq_sessionID p2 = rid" "cq_action p2 \<noteq> Cancel" "cq_form p2 = Some form"
    and "cq_node p3 = ''settings''" "cq_action p3 \<noteq> Cancel" and "list_all (\<lambda>n. text_ok (fieldValue form n [])) setting_names"
  shows "\<exists>f1 f3 m' w'. run_requests e hc [(from, q1, rid, p1), (from, q2, rid2, p2), (from, q3, rid3, p3)] (m, w)
      = Some ([CmdResponse from q1 (settings_response rid Executing (Some f1)), CmdResponse from q2 (settings_response rid Completed None),
               CmdResponse from q3 (settings_response rid3 Executing (Some f3))], m', w')
    \<and> list_all (\<lambda>n. fieldValue f3 n [] = (if fieldValue form n [] = [] then fieldValue f1 n [] else fieldValue form n [])) setting_names"
proof -
  have fac: "ah_factories m = [(''settings'', SettingsAdHocCommandFactory)]"
    using run_requests_factories [OF assms(2)] settings_manager_ok(3) by simp
  have ok: "n \<in> set setting_names \<Longrightarrow> text_ok (fieldValue form n [])" for n using assms(14) by (auto simp: list_all_iff)
  note inv = requests_reach(3) [OF assms(1,2)]
  show ?thesis
  proof (rule ss.submitted_is_shown [OF assms(3) inv assms(4,5) fac assms(6-13) ok, of hc q1 q2 rid2 q3 rid3])
    fix f1 f3 m' w'
    assume r: "run_requests e hc [(from, q1, rid, p1), (from, q2, rid2, p2), (from, q3, rid3, p3)] (m, w)
      = Some ([CmdResponse from q1 (settings_response rid Executing (Some f1)), CmdResponse from q2 (settings_response rid Completed None),
               CmdResponse from q3 (settings_response rid3 Executing (Some f3))], m', w')"
      and "\<And>n. n \<in> set setting_names \<Longrightarrow> fieldValue f3 n [] = (if fieldValue form n [] = [] then fieldValue f1 n [] else fieldValue form n [])"
    then have "list_all (\<lambda>n. fieldValue f3 n [] = (if fieldValue form n [] = [] then fieldValue f1 n [] else fieldValue form n [])) setting_names"
      by (simp add: list_all_iff)
    with r show ?thesis by blast
  qed
qed

theorem submitted_settings_are_shown_witness:
  "case run_world service_wenv service_henv registered_day (empty_world empty_db) of
     None \<Rightarrow> False
   | Some w \<Rightarrow> (\<exists>r1 r2 f3 m' w'. run_requests service_wenv witness_ahconf
         [(client, ''q1'', ''s1'', ask_settings), (client, ''q2'', ''s2'', submit_headlines), (client, ''q3'', ''s3'', ask_settings)]
         (settings_manager, w) = Some ([r1, r2, CmdResponse client ''q3'' (settings_response ''s3'' Executing (Some f3))], m', w')
       \<and> fieldValue f3 ''send_headlines'' [] = ''1'')"
proof -
  obtain w info where w: "run_world service_wenv service_henv registered_day (empty_world empty_db) = Some w"
    "st_getUser (sqlite_storage witness_userinfo empty_var) (w_db w) ''u@x'' = Some info" by (rule registered_day_runs)
  let ?form = "addField (createBooleanField ''send_headlines'' ''1'' [] False) empty_form"
  have st: "we_store service_wenv = Some (sqlite_storage witness_userinfo empty_var)" by (simp add: service_wenv_def)
  have b: "bare_str service_wenv client = ''u@x''" by code_simp
  have none: "smap_get (ah_sessions settings_manager) client = None" by code_simp
  have ok: "list_all (\<lambda>n. text_ok (fieldValue ?form n [])) setting_names" by code_simp
  have h: "fieldValue ?form ''send_headlines'' [] = ''1''" by code_simp
  have run: "run_requests service_wenv witness_ahconf [] (settings_manager, w) = Some ([], settings_manager, w)" by simp
  have u: "st_getUser (sqlite_storage witness_userinfo empty_var) (w_db w) (bare_str service_wenv client) = Some info" using w(2) b by simp
  show ?thesis
    using submitted_settings_are_shown [OF w(1) run st u none, of "''s1''" ask_settings submit_headlines ?form ask_settings "''q1''" "''q2''" "''s2''" "''q3''" "''s3''"]
      ok h unfolding w(1) by (auto simp: ask_settings_def submit_headlines_def)
qed

text \<open>
  C36: The collection of old sessions makes the server unsafe. Once the timer has run while a user has
  had a form open for more than fifteen minutes, the entry of his session is still there but its
  command is deleted: submitting the form, or running the collection again, uses the deleted command.
  (Unless the id of a session is the address of its user.)
\<close>

theorem old_sessions_left_behind:
  assumes "run_world e h evs (empty_world db) = Some w0" and "run_requests e hc rs (settings_manager, w0) = Some (outs, m, w)"
    and "\<And>j. ah_session m j (sw_str sw j) = None" and "ah_session m from sid = Some c" and "is_old now (ah_heap m) c" and "sid \<noteq> []"
    and "cq_sessionID p = sid"
  shows "\<exists>m'. removeOldSessions sw now m = Some m' \<and> ah_session m' from sid = Some c \<and> smap_get (ah_heap m') c = None
    \<and> ah_handleSetRequest e hc from q rid p (m', w) = None \<and> removeOldSessions sw now' m' = None"
  by (rule collected_session_dangles [OF requests_reach(1,2) [OF assms(1,2)] assms(3-6)]) (use assms(7) in blast)

theorem old_sessions_left_behind_witness:
  "case run_world service_wenv service_henv registered_day (empty_world empty_db) of
     None \<Rightarrow> False
   | Some w \<Rightarrow> (case run_requests service_wenv witness_ahconf [(client, ''q1'', ''s1'', ask_settings)] (settings_manager, w) of
       None \<Rightarrow> False
     | Some (outs, m, w') \<Rightarrow> (\<exists>m'. removeOldSessions witness_sw 2000 m = Some m'
         \<and> ah_handleSetRequest service_wenv witness_ahconf client ''q2'' ''s2'' submit_headlines (m', w') = None))"
proof -
  obtain w where w: "run_world service_wenv service_henv registered_day (empty_world empty_db) = Some w" by (rule registered_day_runs)
  have "map_option (\<lambda>(outs, m, w'). (ah_sessions m, ah_heap m))
      (Option.bind (run_world service_wenv service_henv registered_day (empty_world empty_db))
        (\<lambda>w. run_requests service_wenv witness_ahconf [(client, ''q1'', ''s1'', ask_settings)] (settings_manager, w)))
    = Some ([(client, [(''s1'', 0)])], [(0, \<lparr>ac_id = ''s1'', ac_initiator = client, ac_state = WaitingForResponse, ac_lastActivity = 100\<rparr>)])"
    by code_simp
  then obtain outs m w' where r: "run_requests service_wenv witness_ahconf [(client, ''q1'', ''s1'', ask_settings)] (settings_manager, w) = Some (outs, m, w')"
    and m: "ah_sessions m = [(client, [(''s1'', 0)])]"
      "ah_heap m = [(0, \<lparr>ac_id = ''s1'', ac_initiator = client, ac_state = WaitingForResponse, ac_lastActivity = 100\<rparr>)]"
    by (auto simp: w)
  have "ah_session m j (sw_str witness_sw j) = None" for j
    by (auto simp: ah_session_def sessions_of_def smap_get_or_def m smap_get_Cons witness_sw_def)
  moreover have "ah_session m client ''s1'' = Some 0" by (simp add: ah_session_def sessions_of_def smap_get_or_def m smap_get_Cons)
  moreover have "is_old 2000 (ah_heap m) 0" by (simp add: is_old_def m smap_get_Cons)
  ultimately show ?thesis
    using old_sessions_left_behind [OF w r, of witness_sw client "''s1''" 0 2000 submit_headlines "''q2''" "''s2''"] w r
    by (auto simp: submit_headlines_def)
qed

end
