(* ===== verification/Pqxx.thy ===== *)
theory Pqxx
  imports Sqlite
begin

text \<open>
  \<open>libtransport/PQXXBackend.cpp\<close>: the storage interface on a PostgreSQL server, over the rows and statements of
  \<open>Tables\<close>. Each statement is committed by itself (\<open>pqxx::nontransaction\<close>), and an exception ends the
  function. The server is a parameter: the text it reads for a quoted value, whether a column
  \<open>varchar(n)\<close> takes a text, which statements fail for reasons outside the tables and how many numbers
  of a sequence a failing statement uses up. \<open>None\<close> is the use of \<open>settings.find("icon_hash")\<close> when there
  is no such setting.
\<close>

section \<open>Definitions\<close>

record pgenv =
  pg_key :: string
  pg_b64 :: base64
  pg_quote :: "string \<Rightarrow> string"
  pg_fits :: "nat \<Rightarrow> string \<Rightarrow> bool"

record pgfaults =
  pf_fail :: "nat \<Rightarrow> bool"
  pf_gap :: nat

definition pg_no_faults :: pgfaults where
  "pg_no_faults = \<lparr>pf_fail = (\<lambda>_. False), pf_gap = 0\<rparr>"

text \<open>The tables with the sequences of the two columns of type \<open>SERIAL\<close>.\<close>

record pgdb =
  pg_tables :: sqldb
  pg_user_seq :: int
  pg_buddy_seq :: int

definition empty_pgdb :: pgdb where
  "empty_pgdb = \<lparr>pg_tables = empty_db, pg_user_seq = 1, pg_buddy_seq = 1\<rparr>"

definition pg_upd :: "(sqldb \<Rightarrow> sqldb) \<Rightarrow> pgdb \<Rightarrow> pgdb" where
  "pg_upd g db = db\<lparr>pg_tables := g (pg_tables db)\<rparr>"

text \<open>Statement \<open>k\<close> of a function, which the server may refuse.\<close>

definition pg_exec :: "pgfaults \<Rightarrow> nat \<Rightarrow> bool \<Rightarrow> (sqldb \<Rightarrow> sqldb) \<Rightarrow> pgdb \<Rightarrow> pgdb option" where
  "pg_exec f k accepted g db = (if pf_fail f k \<or> \<not> accepted then None else Some (pg_upd g db))"

text \<open>The schema: the widths of the columns and the type \<open>Subscription\<close>.\<close>

definition pg_subscription :: "string \<Rightarrow> bool" where
  "pg_subscription s \<longleftrightarrow> s \<in> {''to'', ''from'', ''both'', ''ask'', ''none''}"

definition pg_smallint :: "int \<Rightarrow> bool" where
  "pg_smallint i \<longleftrightarrow> - 32768 \<le> i \<and> i \<le> 32767"

definition pg_user_fits :: "pgenv \<Rightarrow> user_row \<Rightarrow> bool" where
  "pg_user_fits pe r \<longleftrightarrow> pg_fits pe 255 (ur_jid r) \<and> pg_fits pe 4095 (ur_uin r) \<and> pg_fits pe 255 (ur_password r)
     \<and> pg_fits pe 25 (ur_language r) \<and> pg_fits pe 50 (ur_encoding r)"

definition pg_buddy_fits :: "pgenv \<Rightarrow> string \<Rightarrow> string \<Rightarrow> string \<Rightarrow> string \<Rightarrow> int \<Rightarrow> bool" where
  "pg_buddy_fits pe uin subscription groups nickname flags \<longleftrightarrow> pg_fits pe 255 uin \<and> pg_subscription subscription
     \<and> pg_fits pe 255 groups \<and> pg_fits pe 255 nickname \<and> pg_smallint flags"

subsection \<open>Connection\<close>

text \<open>\<open>connect\<close>: the connection string; the server and the port are left out when they are empty or zero.\<close>

record pgconfig =
  gc_connectionstring :: string
  gc_database :: string
  gc_server :: string
  gc_user :: string
  gc_password :: string
  gc_port :: int

definition pg_part :: "string \<Rightarrow> string \<Rightarrow> string" where
  "pg_part name val = (if val = [] then [] else name @ val)"

definition pg_connection_str :: "(int \<Rightarrow> string) \<Rightarrow> pgconfig \<Rightarrow> string" where
  "pg_connection_str show_int c =
     (if gc_connectionstring c \<noteq> [] then gc_connectionstring c
      else ''dbname='' @ gc_database c @ pg_part '' host='' (gc_server c) @ pg_part '' user='' (gc_user c)
           @ pg_part '' password='' (gc_password c) @ (if gc_port c \<noteq> 0 then '' port='' @ show_int (gc_port c) else []))"

text \<open>
  \<open>createDatabase\<close>: all tables are created if \<open>buddies_settings\<close> cannot be read. A table that already
  exists stays; a new one has a new sequence.
\<close>

definition pg_createDatabase :: "disk \<Rightarrow> disk" where
  "pg_createDatabase d =
     (if d_bsettings d = None
      then \<lparr>d_buddies = create_table (d_buddies d), d_bsettings = Some [], d_users = create_table (d_users d),
            d_usettings = create_table (d_usettings d)\<rparr>
      else d)"

subsection \<open>Users\<close>

text \<open>With a key, \<open>encryptPassword\<close> always succeeds; \<open>decryptPassword\<close> may find a text that is not base64.\<close>

definition pg_encrypt :: "pgenv \<Rightarrow> string \<Rightarrow> string option" where
  "pg_encrypt pe password = (if pg_key pe = [] then Some password else encryptPassword (pg_b64 pe) password (pg_key pe))"

definition pg_decrypt :: "pgenv \<Rightarrow> string \<Rightarrow> string option" where
  "pg_decrypt pe stored = (if pg_key pe = [] then Some stored else decryptPassword (pg_b64 pe) stored (pg_key pe))"

definition pg_user_row :: "pgenv \<Rightarrow> int \<Rightarrow> userinfo \<Rightarrow> string \<Rightarrow> user_row" where
  "pg_user_row pe i user encrypted =
     \<lparr>ur_id = i, ur_jid = pg_quote pe (ui_jid user), ur_uin = pg_quote pe (ui_uin user), ur_password = pg_quote pe encrypted,
      ur_language = pg_quote pe (ui_language user), ur_encoding = pg_quote pe (ui_encoding user), ur_vip = ui_vip user,
      ur_online = False\<rparr>"

text \<open>\<open>INSERT INTO users\<close>, with \<open>UNIQUE (jid)\<close>: a user who is in the table is not changed.\<close>

definition pq_setUser :: "pgenv \<Rightarrow> pgfaults \<Rightarrow> userinfo \<Rightarrow> pgdb \<Rightarrow> pgdb option" where
  "pq_setUser pe f user db =
     do { encrypted \<leftarrow> pg_encrypt pe (ui_password user);
          let row = pg_user_row pe (pg_user_seq db) user encrypted;
          Some (if pf_fail f 0 \<or> \<not> pg_user_fits pe row \<or> user_with_jid (ur_jid row) (pg_tables db) \<noteq> None
                then db\<lparr>pg_user_seq := pg_user_seq db + int (pf_gap f)\<rparr>
                else (pg_upd (\<lambda>t. t\<lparr>t_users := t_users t @ [row]\<rparr>) db)\<lparr>pg_user_seq := pg_user_seq db + 1\<rparr>) }"

text \<open>When \<open>decryptPassword\<close> throws, \<open>getUser\<close> fails with the fields before the encoding filled in.\<close>

definition pq_getUser :: "pgenv \<Rightarrow> pgfaults \<Rightarrow> string \<Rightarrow> userinfo \<Rightarrow> pgdb \<Rightarrow> bool \<times> userinfo" where
  "pq_getUser pe f barejid user db =
     (if pf_fail f 0 then (False, user)
      else case user_with_jid (pg_quote pe barejid) (pg_tables db) of
             None \<Rightarrow> (False, user)
           | Some r \<Rightarrow>
               (case pg_decrypt pe (ur_password r) of
                  None \<Rightarrow> (False, user\<lparr>ui_id := ur_id r, ui_jid := ur_jid r, ui_uin := ur_uin r, ui_password := ur_password r\<rparr>)
                | Some password \<Rightarrow> (True, (fill_userinfo r user)\<lparr>ui_password := password\<rparr>)))"

definition pq_setUserOnline :: "pgfaults \<Rightarrow> int \<Rightarrow> bool \<Rightarrow> pgdb \<Rightarrow> pgdb" where
  "pq_setUserOnline f i online db = dflt (pg_exec f 0 True (sql_set_online i online) db) db"

definition pq_getOnlineUsers :: "pgfaults \<Rightarrow> pgdb \<Rightarrow> string list \<Rightarrow> bool \<times> string list" where
  "pq_getOnlineUsers f db users =
     (if pf_fail f 0 then (False, users) else (True, users @ map ur_jid (filter ur_online (t_users (pg_tables db)))))"

definition pq_getUsers :: "pgfaults \<Rightarrow> pgdb \<Rightarrow> string list \<Rightarrow> bool \<times> string list" where
  "pq_getUsers f db users = (if pf_fail f 0 then (False, users) else (True, users @ map ur_jid (t_users (pg_tables db))))"

definition pq_getLegacyNetworkUsers :: "pgfaults \<Rightarrow> pgdb \<Rightarrow> string list \<Rightarrow> bool \<times> string list" where
  "pq_getLegacyNetworkUsers f db users =
     (if pf_fail f 0 then (False, users) else (True, users @ map ur_uin (t_users (pg_tables db))))"

text \<open>The \<open>DELETE\<close> statements run until one fails.\<close>

fun pg_exec_all :: "pgfaults \<Rightarrow> nat \<Rightarrow> (sqldb \<Rightarrow> sqldb) list \<Rightarrow> pgdb \<Rightarrow> bool \<times> pgdb" where
  "pg_exec_all f k [] db = (True, db)"
| "pg_exec_all f k (g # gs) db =
     (case pg_exec f k True g db of None \<Rightarrow> (False, db) | Some db \<Rightarrow> pg_exec_all f (Suc k) gs db)"

definition pq_removeUser :: "pgfaults \<Rightarrow> int \<Rightarrow> pgdb \<Rightarrow> bool \<times> pgdb" where
  "pq_removeUser f i =
     pg_exec_all f 0 [sql_delete_user i, sql_delete_user_buddies i, sql_delete_user_settings i, sql_delete_user_buddies_settings i]"

subsection \<open>Contacts\<close>

text \<open>
  \<open>UPDATE buddies_settings SET var, type, value WHERE user_id AND buddy_id\<close>: refused if the primary key
  \<open>(buddy_id, var)\<close> would be violated, which \<open>INSERT INTO buddies_settings\<close> checks too.
\<close>

definition pg_own_setting :: "int \<Rightarrow> int \<Rightarrow> bsetting_row \<Rightarrow> bool" where
  "pg_own_setting userId buddyId r \<longleftrightarrow> bs_user r = userId \<and> bs_buddy r = buddyId"

definition pg_bsettings_key :: "bsetting_row list \<Rightarrow> bool" where
  "pg_bsettings_key rs \<longleftrightarrow> distinct (map (\<lambda>r. (bs_buddy r, bs_var r)) rs)"

definition pg_update_icon :: "int \<Rightarrow> int \<Rightarrow> string \<Rightarrow> bsetting_row list \<Rightarrow> bsetting_row list" where
  "pg_update_icon userId buddyId hash =
     map (\<lambda>r. if pg_own_setting userId buddyId r then r\<lparr>bs_var := ''icon_hash'', bs_type := TYPE_STRING, bs_value := hash\<rparr> else r)"

definition pg_icon_row :: "int \<Rightarrow> int \<Rightarrow> string \<Rightarrow> bsetting_row" where
  "pg_icon_row userId buddyId hash =
     \<lparr>bs_user = userId, bs_buddy = buddyId, bs_var = ''icon_hash'', bs_type = TYPE_STRING, bs_value = hash\<rparr>"

definition pg_store_icon :: "pgenv \<Rightarrow> pgfaults \<Rightarrow> int \<Rightarrow> int \<Rightarrow> string \<Rightarrow> pgdb \<Rightarrow> pgdb option" where
  "pg_store_icon pe f userId buddyId hash db =
     (let rs = t_bsettings (pg_tables db); rs' = pg_update_icon userId buddyId hash rs
      in do { db \<leftarrow> pg_exec f 1 (pg_fits pe 255 hash \<and> pg_bsettings_key rs') (\<lambda>t. t\<lparr>t_bsettings := rs'\<rparr>) db;
              if list_ex (pg_own_setting userId buddyId) rs then Some db
              else pg_exec f 2 (pg_bsettings_key (rs' @ [pg_icon_row userId buddyId hash]))
                     (\<lambda>t. t\<lparr>t_bsettings := rs' @ [pg_icon_row userId buddyId hash]\<rparr>) db })"

definition pg_insert_buddy :: "pgenv \<Rightarrow> pgfaults \<Rightarrow> int \<Rightarrow> buddyinfo \<Rightarrow> pgdb \<Rightarrow> int option \<times> pgdb" where
  "pg_insert_buddy pe f userId b db =
     (let uin = pg_quote pe (bi_legacyName b); subscription = pg_quote pe (bi_subscription b);
          groups = pg_quote pe (serializeGroups (bi_groups b)); nickname = pg_quote pe (bi_alias b);
          i = pg_buddy_seq db;
          row = \<lparr>br_id = i, br_user = userId, br_uin = uin, br_subscription = subscription, br_nickname = nickname,
                 br_groups = groups, br_flags = bi_flags b\<rparr>
      in if pf_fail f 0 \<or> \<not> pg_buddy_fits pe uin subscription groups nickname (bi_flags b)
            \<or> (userId, uin) \<in> set (map (\<lambda>r. (br_user r, br_uin r)) (t_buddies (pg_tables db)))
         then (None, db\<lparr>pg_buddy_seq := i + int (pf_gap f)\<rparr>)
         else (Some i, (pg_upd (\<lambda>t. t\<lparr>t_buddies := t_buddies t @ [row]\<rparr>) db)\<lparr>pg_buddy_seq := i + 1\<rparr>))"

text \<open>An exception after the \<open>INSERT\<close> returns -1, although the contact is in the table.\<close>

definition pq_addBuddy :: "pgenv \<Rightarrow> pgfaults \<Rightarrow> int \<Rightarrow> buddyinfo \<Rightarrow> pgdb \<Rightarrow> (int \<times> pgdb) option" where
  "pq_addBuddy pe f userId b db =
     (case pg_insert_buddy pe f userId b db of
        (None, db) \<Rightarrow> Some (-1, db)
      | (Some i, db) \<Rightarrow>
          do { v \<leftarrow> smap_get (bi_settings b) ''icon_hash'';
               Some (case pg_store_icon pe f userId i (pg_quote pe (sv_s v)) db of None \<Rightarrow> (-1, db) | Some db \<Rightarrow> (i, db)) })"

definition pq_updateBuddy :: "pgenv \<Rightarrow> pgfaults \<Rightarrow> int \<Rightarrow> buddyinfo \<Rightarrow> pgdb \<Rightarrow> pgdb" where
  "pq_updateBuddy pe f userId b db =
     (let uin = pg_quote pe (bi_legacyName b); subscription = pg_quote pe (bi_subscription b);
          groups = pg_quote pe (serializeGroups (bi_groups b)); nickname = pg_quote pe (bi_alias b)
      in dflt (pg_exec f 0 (pg_buddy_fits pe [] subscription groups nickname (bi_flags b)
                 \<or> (userId, uin) \<notin> set (map (\<lambda>r. (br_user r, br_uin r)) (t_buddies (pg_tables db))))
                 (sql_update_buddy groups nickname (bi_flags b) subscription userId uin) db) db)"

text \<open>\<open>removeBuddy\<close> and the functions for the settings of contacts have empty bodies.\<close>

definition pq_removeBuddy :: "int \<Rightarrow> pgdb \<Rightarrow> pgdb" where
  "pq_removeBuddy i db = db"

definition pq_getBuddySetting :: "int \<Rightarrow> int \<Rightarrow> string \<Rightarrow> int \<times> string \<Rightarrow> pgdb \<Rightarrow> int \<times> string" where
  "pq_getBuddySetting userId buddyId variable tv db = tv"

definition pq_updateBuddySetting :: "int \<Rightarrow> int \<Rightarrow> string \<Rightarrow> int \<Rightarrow> string \<Rightarrow> pgdb \<Rightarrow> pgdb" where
  "pq_updateBuddySetting userId buddyId variable type val db = db"

text \<open>\<open>BOOST_FOREACH\<close> up to the first contact with the id.\<close>

fun pq_assign :: "int \<Rightarrow> string \<Rightarrow> settingvar \<Rightarrow> buddyinfo list \<Rightarrow> buddyinfo list" where
  "pq_assign i key var [] = []"
| "pq_assign i key var (b # bs) =
     (if bi_id b = i then b\<lparr>bi_settings := smap_put key var (bi_settings b)\<rparr> # bs else b # pq_assign i key var bs)"

fun pq_settings_loop :: "settingvar \<Rightarrow> bsetting_row list \<Rightarrow> buddyinfo list \<Rightarrow> buddyinfo list" where
  "pq_settings_loop var0 [] bs = bs"
| "pq_settings_loop var0 (r # rs) bs =
     pq_settings_loop var0 rs (if known_type (bs_type r) then pq_assign (bs_buddy r) (bs_var r) (read_setting r var0) bs else bs)"

definition pq_getBuddies :: "pgfaults \<Rightarrow> settingvar \<Rightarrow> int \<Rightarrow> buddyinfo list \<Rightarrow> pgdb \<Rightarrow> bool \<times> buddyinfo list" where
  "pq_getBuddies f var0 i roster db =
     (if pf_fail f 0 then (False, roster)
      else let roster = roster @ map fill_buddyinfo (sql_buddies i (pg_tables db))
           in if pf_fail f 1 then (False, roster)
              else (True, pq_settings_loop var0 (sql_bsettings i (pg_tables db)) roster))"

subsection \<open>Settings\<close>

definition pq_getAllSettings :: "pgfaults \<Rightarrow> int \<Rightarrow> (string, string) smap \<Rightarrow> pgdb \<Rightarrow> (string, string) smap" where
  "pq_getAllSettings f i m db =
     (if pf_fail f 0 then m
      else fold (\<lambda>r. smap_put (us_var r) (us_value r)) (filter (\<lambda>r. us_user r = i) (t_usettings (pg_tables db))) m)"

definition pq_getUserSetting :: "pgenv \<Rightarrow> pgfaults \<Rightarrow> int \<Rightarrow> string \<Rightarrow> int \<times> string \<Rightarrow> pgdb \<Rightarrow> (int \<times> string) \<times> pgdb" where
  "pq_getUserSetting pe f i variable tv db =
     (let var = pg_quote pe variable; val = pg_quote pe (snd tv)
      in if pf_fail f 0 then (tv, db)
         else case sql_user_setting i var (pg_tables db) of
                Some r \<Rightarrow> ((us_type r, us_value r), db)
              | None \<Rightarrow> (tv, dflt (pg_exec f 1 (pg_fits pe 50 var \<and> pg_fits pe 255 val \<and> pg_smallint (fst tv))
                         (sql_insert_usetting \<lparr>us_user = i, us_var = var, us_type = fst tv, us_value = val\<rparr>) db) db))"

text \<open>A value that is too long is refused when there is a row to change.\<close>

definition pq_updateUserSetting :: "pgenv \<Rightarrow> pgfaults \<Rightarrow> int \<Rightarrow> string \<Rightarrow> string \<Rightarrow> pgdb \<Rightarrow> pgdb" where
  "pq_updateUserSetting pe f i variable val db =
     dflt (pg_exec f 0 (pg_fits pe 255 (pg_quote pe val) \<or> sql_user_setting i (pg_quote pe variable) (pg_tables db) = None)
             (sql_update_usetting (pg_quote pe val) i (pg_quote pe variable)) db) db"

section \<open>The constraints of the schema\<close>

definition pg_users_ok :: "int \<Rightarrow> user_row list \<Rightarrow> bool" where
  "pg_users_ok n us \<longleftrightarrow> distinct (map ur_id us) \<and> distinct (map ur_jid us) \<and> list_all (\<lambda>r. 0 < ur_id r \<and> ur_id r < n) us"

definition pg_buddies_ok :: "int \<Rightarrow> buddy_row list \<Rightarrow> bool" where
  "pg_buddies_ok n bs \<longleftrightarrow> distinct (map br_id bs) \<and> distinct (map (\<lambda>r. (br_user r, br_uin r)) bs)
     \<and> list_all (\<lambda>r. 0 < br_id r \<and> br_id r < n) bs"

definition pg_ok :: "pgdb \<Rightarrow> bool" where
  "pg_ok db \<longleftrightarrow> 0 < pg_user_seq db \<and> 0 < pg_buddy_seq db \<and> pg_users_ok (pg_user_seq db) (t_users (pg_tables db))
     \<and> pg_buddies_ok (pg_buddy_seq db) (t_buddies (pg_tables db))
     \<and> distinct (map (\<lambda>r. (us_user r, us_var r)) (t_usettings (pg_tables db))) \<and> pg_bsettings_key (t_bsettings (pg_tables db))"

lemmas pg_ok_defs = pg_ok_def pg_users_ok_def pg_buddies_ok_def pg_bsettings_key_def

definition pg_keeps :: "(sqldb \<Rightarrow> sqldb) \<Rightarrow> bool" where
  "pg_keeps g \<longleftrightarrow> (\<forall>db. pg_ok db \<longrightarrow> pg_ok (pg_upd g db))"

named_theorems pg_keeps_intros

lemma pg_keeps_delete [pg_keeps_intros]:
  "pg_keeps (sql_delete_user i)" "pg_keeps (sql_delete_user_settings i)" "pg_keeps (sql_delete_user_buddies i)"
  "pg_keeps (sql_delete_user_buddies_settings i)"
  by (auto simp: pg_keeps_def pg_upd_def pg_ok_defs distinct_map_filter list_all_iff sql_delete_user_def
      sql_delete_user_settings_def sql_delete_user_buddies_def sql_delete_user_buddies_settings_def)

lemma pg_keeps_set_online [pg_keeps_intros]: "pg_keeps (sql_set_online i b)"
  by (auto simp: pg_keeps_def pg_upd_def pg_ok_defs sql_set_online_def list_all_iff comp_def if_distrib cong: if_cong)

lemma pg_keeps_update_buddy [pg_keeps_intros]: "pg_keeps (sql_update_buddy g n fl s i u)"
  by (auto simp: pg_keeps_def pg_upd_def pg_ok_defs sql_update_buddy_def list_all_iff comp_def if_distrib cong: if_cong)

lemma pg_keeps_usettings [pg_keeps_intros]: "pg_keeps (sql_insert_usetting r)" "pg_keeps (sql_update_usetting v i k)"
  by (auto simp: pg_keeps_def pg_upd_def pg_ok_defs sql_insert_usetting_def sql_update_usetting_def list_all_iff comp_def
      if_distrib cong: if_cong)

lemma pg_exec_ok: "pg_keeps g \<Longrightarrow> pg_exec f k a g db = Some db' \<Longrightarrow> pg_ok db \<Longrightarrow> pg_ok db'"
  by (auto simp: pg_exec_def pg_keeps_def split: if_splits)

lemma pg_exec_dflt_ok: "pg_keeps g \<Longrightarrow> pg_ok db \<Longrightarrow> pg_ok (dflt (pg_exec f k a g db) db)"
  by (auto simp: dflt_def intro: pg_exec_ok split: option.splits)

lemma pg_exec_all_ok: "list_all pg_keeps gs \<Longrightarrow> pg_ok db \<Longrightarrow> pg_ok (snd (pg_exec_all f k gs db))"
proof (induction gs arbitrary: k db)
  case (Cons g gs)
  then show ?case using pg_exec_ok [of g f k True db] by (auto split: option.splits)
qed simp

lemma pq_removeUser_ok: "pg_ok db \<Longrightarrow> pg_ok (snd (pq_removeUser f i db))"
  unfolding pq_removeUser_def by (rule pg_exec_all_ok) (simp_all add: pg_keeps_delete)

lemma pq_setUser_ok: "pq_setUser pe f user db = Some db' \<Longrightarrow> pg_ok db \<Longrightarrow> pg_ok db'"
  by (fastforce simp: pq_setUser_def bind_eq_Some_conv Let_def pg_upd_def pg_ok_defs list_all_iff user_with_jid_def find_None_iff
      pg_user_row_def split: if_splits)

lemma pg_insert_buddy_ok: "pg_insert_buddy pe f u b db = (io, db') \<Longrightarrow> pg_ok db \<Longrightarrow> pg_ok db'"
  by (fastforce simp: pg_insert_buddy_def Let_def pg_upd_def pg_ok_defs list_all_iff split: if_splits)

lemma pg_keeps_bsettings: "pg_bsettings_key rs \<Longrightarrow> pg_keeps (\<lambda>t. t\<lparr>t_bsettings := rs\<rparr>)"
  by (simp add: pg_keeps_def pg_upd_def pg_ok_def)

lemma pg_store_icon_ok: "pg_store_icon pe f u i h db = Some db' \<Longrightarrow> pg_ok db \<Longrightarrow> pg_ok db'"
  by (auto simp: pg_store_icon_def Let_def bind_eq_Some_conv pg_exec_def intro!: pg_keeps_bsettings [unfolded pg_keeps_def, rule_format]
      split: if_splits)

lemma pq_addBuddy_ok: "pq_addBuddy pe f u b db = Some (i, db') \<Longrightarrow> pg_ok db \<Longrightarrow> pg_ok db'"
  by (auto simp: pq_addBuddy_def bind_eq_Some_conv split: prod.splits option.splits dest: pg_insert_buddy_ok pg_store_icon_ok)

lemma pq_getUserSetting_ok: "pg_ok db \<Longrightarrow> pg_ok (snd (pq_getUserSetting pe f i var tv db))"
  by (auto simp: pq_getUserSetting_def Let_def intro: pg_exec_dflt_ok pg_keeps_intros split: option.splits)

section \<open>Sequences of operations\<close>

fun pg_step :: "pgenv \<Rightarrow> pgfaults \<Rightarrow> sqlop \<Rightarrow> pgdb \<Rightarrow> pgdb option" where
  "pg_step pe f (OpSetUser user) db = pq_setUser pe f user db"
| "pg_step pe f (OpSetOnline i online) db = Some (pq_setUserOnline f i online db)"
| "pg_step pe f (OpRemoveUser i) db = Some (snd (pq_removeUser f i db))"
| "pg_step pe f (OpAddBuddy u b) db = map_option snd (pq_addBuddy pe f u b db)"
| "pg_step pe f (OpUpdateBuddy u b) db = Some (pq_updateBuddy pe f u b db)"
| "pg_step pe f (OpRemoveBuddy i) db = Some (pq_removeBuddy i db)"
| "pg_step pe f (OpGetUserSetting i var tv) db = Some (snd (pq_getUserSetting pe f i var tv db))"
| "pg_step pe f (OpUpdateUserSetting i var val) db = Some (pq_updateUserSetting pe f i var val db)"
| "pg_step pe f (OpUpdateBuddySetting u b var t val) db = Some (pq_updateBuddySetting u b var t val db)"

fun run_pg :: "pgenv \<Rightarrow> (pgfaults \<times> sqlop) list \<Rightarrow> pgdb \<Rightarrow> pgdb option" where
  "run_pg pe [] db = Some db"
| "run_pg pe ((f, op) # ops) db = do { db \<leftarrow> pg_step pe f op db; run_pg pe ops db }"

interpretation pgrun: each_loop "\<lambda>(f, op). pg_step pe f op" "run_pg pe" for pe
  by unfold_locales (auto split: prod.splits)

lemma pq_updates_ok:
  "pg_ok db \<Longrightarrow> pg_ok (pq_setUserOnline f i online db)" "pg_ok db \<Longrightarrow> pg_ok (pq_updateBuddy pe f u b db)"
  "pg_ok db \<Longrightarrow> pg_ok (pq_updateUserSetting pe f i var val db)"
  by (simp_all only: pq_setUserOnline_def pq_updateBuddy_def pq_updateUserSetting_def Let_def pg_exec_dflt_ok pg_keeps_intros)

lemma pg_step_ok: "pg_step pe f op db = Some db' \<Longrightarrow> pg_ok db \<Longrightarrow> pg_ok db'"
  by (cases op)
     (auto simp: pq_removeBuddy_def pq_updateBuddySetting_def pq_removeUser_ok pq_getUserSetting_ok pq_updates_ok
      dest: pq_setUser_ok pq_addBuddy_ok)

lemma empty_pgdb_ok: "pg_ok empty_pgdb"
  by (simp add: empty_pgdb_def empty_db_def pg_ok_defs)

lemma run_pg_ok:
  assumes "run_pg pe ops empty_pgdb = Some db"
  shows "pg_ok db"
  using pgrun.run_inv [where P = pg_ok, OF _ empty_pgdb_ok assms] pg_step_ok by (auto split: prod.splits)

section \<open>The contact list\<close>

definition put_setting :: "settingvar \<Rightarrow> bsetting_row \<Rightarrow> (string, settingvar) smap \<Rightarrow> (string, settingvar) smap" where
  "put_setting var0 r ss = smap_put (bs_var r) (read_setting r var0) ss"

lemma pq_assign_map:
  "distinct (map bi_id bs) \<Longrightarrow> pq_assign i key var bs
     = map (\<lambda>b. if bi_id b = i then b\<lparr>bi_settings := smap_put key var (bi_settings b)\<rparr> else b) bs"
proof (induction bs)
  case (Cons b bs)
  then have "bi_id b = i \<Longrightarrow> map (\<lambda>b. if bi_id b = i then b\<lparr>bi_settings := smap_put key var (bi_settings b)\<rparr> else b) bs = bs"
    by (intro map_idI) (force simp: image_iff)
  then show ?case using Cons by simp
qed simp

lemma pq_settings_loop_map:
  "distinct (map bi_id bs) \<Longrightarrow> pq_settings_loop var0 rs bs
     = map (\<lambda>b. b\<lparr>bi_settings := fold (put_setting var0) (filter (\<lambda>r. known_type (bs_type r) \<and> bs_buddy r = bi_id b) rs) (bi_settings b)\<rparr>) bs"
proof (induction rs arbitrary: bs)
  case (Cons r rs)
  show ?case
  proof (cases "known_type (bs_type r)")
    case True
    let ?bs = "map (\<lambda>b. if bi_id b = bs_buddy r then b\<lparr>bi_settings := smap_put (bs_var r) (read_setting r var0) (bi_settings b)\<rparr> else b) bs"
    have "map bi_id ?bs = map bi_id bs" by simp
    then have d: "distinct (map bi_id ?bs)" using Cons.prems by metis
    have "pq_settings_loop var0 (r # rs) bs = pq_settings_loop var0 rs ?bs" using True pq_assign_map [OF Cons.prems] by simp
    then show ?thesis using Cons.IH [OF d] True by (auto simp: put_setting_def)
  next
    case False
    then show ?thesis using Cons by simp
  qed
qed simp

lemma view_fold_put:
  "list_all (\<lambda>r. known_type (bs_type r)) rs \<Longrightarrow> view_settings (fold (put_setting var0) rs ss) = fold put_row rs (view_settings ss)"
  by (induction rs arbitrary: ss) (simp_all add: put_setting_def view_put_read)

lemma pg_contacts_distinct: "pg_ok db \<Longrightarrow> distinct (map bi_id (map fill_buddyinfo (sql_buddies i (pg_tables db))))"
  by (simp add: pg_ok_defs sql_buddies_def comp_def distinct_map_sort_key distinct_map_filter)

lemma pg_contact_list:
  assumes "pg_ok db"
  shows "\<exists>r. pq_getBuddies pg_no_faults var0 i [] db = (True, r)
    \<and> map (\<lambda>b. b\<lparr>bi_settings := []\<rparr>) r = map fill_buddyinfo (sql_buddies i (pg_tables db))
    \<and> list_all (\<lambda>b. view_settings (bi_settings b) = joined (filter (\<lambda>s. known_type (bs_type s)) (sql_bsettings i (pg_tables db))) (bi_id b)) r"
proof -
  let ?bs = "map fill_buddyinfo (sql_buddies i (pg_tables db))" and ?rs = "sql_bsettings i (pg_tables db)"
  let ?set = "\<lambda>b. b\<lparr>bi_settings := fold (put_setting var0) (filter (\<lambda>r. known_type (bs_type r) \<and> bs_buddy r = bi_id b) ?rs) (bi_settings b)\<rparr>"
  have r: "pq_getBuddies pg_no_faults var0 i [] db = (True, map ?set ?bs)"
    using pq_settings_loop_map [OF pg_contacts_distinct [OF assms]] by (simp add: pq_getBuddies_def pg_no_faults_def)
  have none: "b\<lparr>bi_settings := []\<rparr> = b" "bi_settings b = []" if "b \<in> set ?bs" for b using that by (auto simp: fill_buddyinfo_def)
  have "map (\<lambda>b. b\<lparr>bi_settings := []\<rparr>) (map ?set ?bs) = ?bs" using none(1) by (simp add: comp_def fill_buddyinfo_def)
  moreover have "view_settings (fold (put_setting var0) (filter (\<lambda>r. known_type (bs_type r) \<and> bs_buddy r = j) ?rs) [])
      = joined (filter (\<lambda>s. known_type (bs_type s)) ?rs) j" for j
  proof -
    have "view_settings [] = []" by (simp add: view_settings_def)
    then show ?thesis by (simp add: joined_def view_fold_put list_all_iff conj_commute)
  qed
  then have "list_all (\<lambda>b. view_settings (bi_settings b) = joined (filter (\<lambda>s. known_type (bs_type s)) ?rs) (bi_id b)) (map ?set ?bs)"
    by (simp add: list_all_iff)
  ultimately show ?thesis using r by blast
qed

text \<open>A server with a single-byte encoding, which counts bytes.\<close>

definition latin_server :: "string \<Rightarrow> base64 \<Rightarrow> pgenv" where
  "latin_server key b = \<lparr>pg_key = key, pg_b64 = b, pg_quote = c_str, pg_fits = (\<lambda>n s. length s \<le> n)\<rparr>"

text \<open>
  C12: Whatever operations run on a new PostgreSQL database, and whichever statements the server
  refuses, \<open>getBuddies\<close> returns the contacts of the user in the order of their ids, each with exactly his
  own settings of a known type, also when there are settings of contacts that no longer exist.
\<close>

theorem postgres_contact_list:
  assumes "run_pg pe ops empty_pgdb = Some db"
  shows "\<exists>r. pq_getBuddies pg_no_faults var0 i [] db = (True, r)
    \<and> map (\<lambda>b. b\<lparr>bi_settings := []\<rparr>) r = map fill_buddyinfo (sql_buddies i (pg_tables db))
    \<and> list_all (\<lambda>b. view_settings (bi_settings b) = joined (filter (\<lambda>s. known_type (bs_type s)) (sql_bsettings i (pg_tables db))) (bi_id b)) r"
  using pg_contact_list [OF run_pg_ok [OF assms]] .

theorem postgres_contact_list_witness:
  "case run_pg (latin_server [] std_base64) (map (Pair pg_no_faults) witness_ops) empty_pgdb of
     None \<Rightarrow> False
   | Some db \<Rightarrow> map br_uin (sql_buddies 1 (pg_tables db)) = [''joe'', ''ann'']
     \<and> (\<exists>r. pq_getBuddies pg_no_faults empty_var 1 [] db = (True, r)
       \<and> map (\<lambda>b. b\<lparr>bi_settings := []\<rparr>) r = map fill_buddyinfo (sql_buddies 1 (pg_tables db))
       \<and> list_all (\<lambda>b. view_settings (bi_settings b) = joined (filter (\<lambda>s. known_type (bs_type s)) (sql_bsettings 1 (pg_tables db))) (bi_id b)) r)"
proof -
  let ?pe = "latin_server [] std_base64"
  have "map_option (\<lambda>db. map br_uin (sql_buddies 1 (pg_tables db))) (run_pg ?pe (map (Pair pg_no_faults) witness_ops) empty_pgdb)
    = Some [''joe'', ''ann'']" by code_simp
  then obtain db where db: "run_pg ?pe (map (Pair pg_no_faults) witness_ops) empty_pgdb = Some db" "map br_uin (sql_buddies 1 (pg_tables db)) = [''joe'', ''ann'']"
    by auto
  show ?thesis using postgres_contact_list [OF db(1), of empty_var 1] by (simp only: db option.case simp_thms)
qed

end
