(* ===== verification/PqxxProps.thy ===== *)
theory PqxxProps
  imports Pqxx AdHocProps
begin

text \<open>
  The PostgreSQL backend as a store of accounts and of settings: the laws that the registration and the
  settings command rely on (locales \<open>user_store\<close> and \<open>setting_store\<close>) follow from what PostgreSQL documents
  (locale \<open>pg_server\<close>), for texts that the columns take.
\<close>

section \<open>The storage interface\<close>

definition pq_storage :: "pgenv \<Rightarrow> userinfo \<Rightarrow> settingvar \<Rightarrow> pgdb storage" where
  "pq_storage pe base var0 = \<lparr>
     st_getUser = (\<lambda>db j. let (found, info) = pq_getUser pe pg_no_faults j base db in if found then Some info else None),
     st_setUser = (\<lambda>user db. dflt (pq_setUser pe pg_no_faults user db) db),
     st_setUserOnline = pq_setUserOnline pg_no_faults,
     st_getUserSetting = (\<lambda>i var val db. let ((t, v), db) = pq_getUserSetting pe pg_no_faults i var (TYPE_BOOLEAN, val) db in (v, db)),
     st_getAllSettings = (\<lambda>db i. pq_getAllSettings pg_no_faults i [] db),
     st_getBuddies = (\<lambda>db i. snd (pq_getBuddies pg_no_faults var0 i [] db)),
     st_addBuddy = (\<lambda>u b db. case pq_addBuddy pe pg_no_faults u b db of None \<Rightarrow> (-1, db) | Some r \<Rightarrow> r),
     st_updateBuddy = pq_updateBuddy pe pg_no_faults,
     st_removeBuddy = pq_removeBuddy,
     st_removeUser = pq_removeUser pg_no_faults,
     st_getOnlineUsers = (\<lambda>db. pq_getOnlineUsers pg_no_faults db []),
     st_getUsers = (\<lambda>db. pq_getUsers pg_no_faults db []),
     st_getLegacyNetworkUsers = (\<lambda>db. pq_getLegacyNetworkUsers pg_no_faults db []),
     st_updateUserSetting = pq_updateUserSetting pe pg_no_faults\<rparr>"

text \<open>
  What the server guarantees: a text without zero bytes is read as it is written, and a short
  \<open>ASCII\<close> text fits into a column.
\<close>

definition ascii :: "string \<Rightarrow> bool" where
  "ascii s \<longleftrightarrow> list_all (\<lambda>c. 0 < (of_char c :: nat) \<and> (of_char c :: nat) < 128) s"

locale pg_server =
  fixes pe :: pgenv
  assumes quote_text: "text_ok s \<Longrightarrow> pg_quote pe s = s"
    and fits_short: "ascii s \<Longrightarrow> length s \<le> n \<Longrightarrow> pg_fits pe n s"

interpretation la: pg_server "latin_server key b" for key b
  by unfold_locales (simp_all add: latin_server_def c_str_id)

section \<open>Accounts\<close>

text \<open>Stored passwords can be decrypted; a valid account fits into its columns and its password comes back.\<close>

definition pg_store_ok :: "pgenv \<Rightarrow> pgdb \<Rightarrow> bool" where
  "pg_store_ok pe db \<longleftrightarrow> pg_ok db \<and> list_all (\<lambda>r. pg_decrypt pe (ur_password r) \<noteq> None) (t_users (pg_tables db))"

definition pg_valid :: "pgenv \<Rightarrow> userinfo \<Rightarrow> bool" where
  "pg_valid pe user \<longleftrightarrow> list_all text_ok [ui_jid user, ui_uin user, ui_language user, ui_encoding user]
     \<and> (case pg_encrypt pe (ui_password user) of
          None \<Rightarrow> False
        | Some x \<Rightarrow> text_ok x \<and> pg_decrypt pe x = Some (ui_password user) \<and> pg_user_fits pe (pg_user_row pe 0 user x))"

lemma pg_getUser_find:
  "st_getUser (pq_storage pe base v) db j = Option.bind (user_with_jid (pg_quote pe j) (pg_tables db))
     (\<lambda>r. map_option (\<lambda>p. (fill_userinfo r base)\<lparr>ui_password := p\<rparr>) (pg_decrypt pe (ur_password r)))"
proof (cases "user_with_jid (pg_quote pe j) (pg_tables db)")
  case (Some r)
  then show ?thesis by (cases "pg_decrypt pe (ur_password r)") (simp_all add: pq_storage_def pq_getUser_def pg_no_faults_def)
qed (simp add: pq_storage_def pq_getUser_def pg_no_faults_def)

lemma pg_user_with_jid_iff: "pg_ok db \<Longrightarrow> user_with_jid j (pg_tables db) = Some r \<longleftrightarrow> r \<in> set (t_users (pg_tables db)) \<and> ur_jid r = j"
  by (simp add: user_with_jid_def find_distinct_Some_iff pg_ok_def pg_users_ok_def)

lemma pg_removeUser_tables:
  "t_users (pg_tables (snd (pq_removeUser pg_no_faults i db))) = filter (\<lambda>r. ur_id r \<noteq> i) (t_users (pg_tables db))"
  by (simp add: pq_removeUser_def pg_exec_def pg_upd_def pg_no_faults_def sql_delete_user_def sql_delete_user_settings_def
      sql_delete_user_buddies_def sql_delete_user_buddies_settings_def)

lemma pg_removeUser_find:
  assumes "pg_ok db"
  shows "user_with_jid j (pg_tables (snd (pq_removeUser pg_no_faults i db)))
    = (case user_with_jid j (pg_tables db) of None \<Rightarrow> None | Some r \<Rightarrow> if ur_id r = i then None else Some r)"
  using assms find_of_filter [of ur_jid "t_users (pg_tables db)" j "\<lambda>r. ur_id r \<noteq> i"]
  by (simp add: user_with_jid_def pg_removeUser_tables pg_ok_def pg_users_ok_def if_distrib cong: option.case_cong if_cong)
    (auto split: option.splits)

lemma pg_setUser_valid:
  assumes "pg_valid pe user" and "pg_encrypt pe (ui_password user) = Some x"
  shows "pq_setUser pe pg_no_faults user db =
    Some (if user_with_jid (pg_quote pe (ui_jid user)) (pg_tables db) \<noteq> None then db
          else (pg_upd (\<lambda>t. t\<lparr>t_users := t_users t @ [pg_user_row pe (pg_user_seq db) user x]\<rparr>) db)\<lparr>pg_user_seq := pg_user_seq db + 1\<rparr>)"
proof -
  have "pg_user_fits pe (pg_user_row pe (pg_user_seq db) user x)" using assms by (simp add: pg_valid_def pg_user_fits_def pg_user_row_def)
  then show ?thesis using assms(2) by (simp add: pq_setUser_def pg_no_faults_def pg_user_row_def)
qed

context pg_server
begin

lemma pg_setUser_find:
  assumes "pg_store_ok pe db" and "pg_valid pe user"
  obtains x where "pg_encrypt pe (ui_password user) = Some x"
    and "pg_store_ok pe (st_setUser (pq_storage pe base v) user db)"
    and "\<And>j. user_with_jid j (pg_tables (st_setUser (pq_storage pe base v) user db))
      = (if user_with_jid (ui_jid user) (pg_tables db) = None \<and> j = ui_jid user then Some (pg_user_row pe (pg_user_seq db) user x)
         else user_with_jid j (pg_tables db))"
proof -
  obtain x where x: "pg_encrypt pe (ui_password user) = Some x" "text_ok x" "pg_decrypt pe x = Some (ui_password user)"
    and t: "list_all text_ok [ui_jid user, ui_uin user, ui_language user, ui_encoding user]"
    using assms(2) by (auto simp: pg_valid_def split: option.splits)
  have q: "pg_quote pe (ui_jid user) = ui_jid user" "pg_quote pe x = x" using t x(2) by (simp_all add: quote_text)
  have set: "st_setUser (pq_storage pe base v) user db = dflt (pq_setUser pe pg_no_faults user db) db" by (simp add: pq_storage_def)
  have ok: "pg_ok (st_setUser (pq_storage pe base v) user db)"
    using pq_setUser_ok [of pe pg_no_faults user db] assms(1) by (auto simp: set dflt_def pg_store_ok_def split: option.splits)
  have "list_all (\<lambda>r. pg_decrypt pe (ur_password r) \<noteq> None) (t_users (pg_tables (st_setUser (pq_storage pe base v) user db)))"
    using pg_setUser_valid [OF assms(2) x(1), of db] assms(1) x(3) q by (simp add: set dflt_def pg_store_ok_def pg_upd_def pg_user_row_def)
  moreover have "user_with_jid j (pg_tables (st_setUser (pq_storage pe base v) user db))
      = (if user_with_jid (ui_jid user) (pg_tables db) = None \<and> j = ui_jid user then Some (pg_user_row pe (pg_user_seq db) user x)
         else user_with_jid j (pg_tables db))" for j
    using pg_setUser_valid [OF assms(2) x(1), of db] q
    by (auto simp: set dflt_def user_with_jid_def pg_upd_def pg_user_row_def find_snoc split: option.splits)
  ultimately show ?thesis using that x(1) ok by (simp add: pg_store_ok_def)
qed

lemma row_stored:
  assumes "pg_valid pe user" and "pg_encrypt pe (ui_password user) = Some x"
  shows "stored_as user ((fill_userinfo (pg_user_row pe i user x) base)\<lparr>ui_password := ui_password user\<rparr>)"
  using assms by (simp add: pg_valid_def stored_as_def fill_userinfo_def pg_user_row_def quote_text)

end

sublocale pg_server \<subseteq> pu: user_store "pq_storage pe base v" "pg_store_ok pe" "pg_valid pe" text_ok for base v
proof (unfold_locales, goal_cases)
  case (1 db user)
  then show ?case by (rule pg_setUser_find)
next
  case (2 db user)
  obtain x where x: "pg_encrypt pe (ui_password user) = Some x" "text_ok x" "pg_decrypt pe x = Some (ui_password user)" and j: "text_ok (ui_jid user)"
    using 2(2) by (auto simp: pg_valid_def split: option.splits)
  have "user_with_jid (ui_jid user) (pg_tables db) = None"
  proof (rule ccontr)
    assume "user_with_jid (ui_jid user) (pg_tables db) \<noteq> None"
    then obtain r where r: "user_with_jid (ui_jid user) (pg_tables db) = Some r" by blast
    then have "pg_decrypt pe (ur_password r) \<noteq> None" using 2(1) pg_user_with_jid_iff [of db] by (auto simp: pg_store_ok_def list_all_iff)
    then show False using 2(3) r j by (auto simp: pg_getUser_find quote_text)
  qed
  then have "user_with_jid (ui_jid user) (pg_tables (st_setUser (pq_storage pe base v) user db)) = Some (pg_user_row pe (pg_user_seq db) user x)"
    using pg_setUser_find [OF 2(1,2), of base v] x(1) by (metis option.inject)
  then show ?case using row_stored [OF 2(2) x(1)] x j by (auto simp: pg_getUser_find quote_text) (simp add: pg_user_row_def quote_text)
next
  case (3 db user j)
  then have "user_with_jid j (pg_tables (st_setUser (pq_storage pe base v) user db)) = user_with_jid j (pg_tables db)"
    by (metis pg_setUser_find [OF 3(1,2), of base v])
  then show ?case using 3(3) by (simp add: pg_getUser_find quote_text)
next
  case (4 db i)
  then show ?case
    by (simp add: pq_storage_def pg_store_ok_def pq_removeUser_ok pg_removeUser_tables list_all_iff)
next
  case (5 db i j)
  have "st_removeUser (pq_storage pe base v) = pq_removeUser pg_no_faults" by (simp add: pq_storage_def)
  then show ?case using 5 pg_removeUser_find [of db "pg_quote pe j" i]
    by (auto simp: pg_getUser_find pg_store_ok_def split: option.splits)
next
  case (6 db j k a b)
  then obtain r r' where "r \<in> set (t_users (pg_tables db))" "ur_jid r = j" "r' \<in> set (t_users (pg_tables db))" "ur_jid r' = k" "ur_id r = ur_id r'"
    by (auto simp: pg_getUser_find quote_text bind_eq_Some_conv pg_store_ok_def pg_user_with_jid_iff)
  then show ?case using 6(1) by (auto simp: pg_store_ok_def pg_ok_def pg_users_ok_def distinct_map inj_on_def)
next
  case (7 user)
  then show ?case by (simp add: pg_valid_def)
qed

section \<open>Settings\<close>

definition pg_setting_value :: "pgdb \<Rightarrow> int \<times> string \<Rightarrow> string option" where
  "pg_setting_value db = sql_setting_value (pg_tables db)"

definition pg_plain :: "pgenv \<Rightarrow> string \<Rightarrow> bool" where
  "pg_plain pe s \<longleftrightarrow> text_ok s \<and> pg_fits pe 50 s \<and> pg_fits pe 255 s"

lemma TYPE_BOOLEAN_smallint [simp]: "pg_smallint TYPE_BOOLEAN"
  by (simp add: pg_smallint_def TYPE_BOOLEAN_def)

lemma pg_getUserSetting_eq:
  assumes "pg_quote pe n = n" "pg_quote pe d = d" "pg_plain pe n" "pg_plain pe d"
  shows "st_getUserSetting (pq_storage pe base v) i n d db =
    (dflt (pg_setting_value db (i, n)) d,
     if sql_user_setting i n (pg_tables db) = None
     then pg_upd (sql_insert_usetting \<lparr>us_user = i, us_var = n, us_type = TYPE_BOOLEAN, us_value = d\<rparr>) db else db)"
  using assms
  by (auto simp: pq_storage_def pq_getUserSetting_def pg_no_faults_def pg_exec_def pg_plain_def dflt_def pg_setting_value_def
      sql_setting_value_def Let_def split: option.splits)

sublocale pg_server \<subseteq> ps: setting_store "pq_storage pe base v" pg_setting_value "pg_plain pe" for base v
proof
  fix n d :: string and i :: int and db :: pgdb
  assume n: "pg_plain pe n" and d: "pg_plain pe d"
  then have q: "pg_quote pe n = n" "pg_quote pe d = d" by (simp_all add: quote_text pg_plain_def)
  note get = pg_getUserSetting_eq [OF q n d, of base v i db]
  show "fst (st_getUserSetting (pq_storage pe base v) i n d db) = dflt (pg_setting_value db (i, n)) d" by (simp add: get)
  show "pg_setting_value (snd (st_getUserSetting (pq_storage pe base v) i n d db)) = settle_in (pg_setting_value db) (i, n) d"
    using sql_insert_usetting_value [of i n "pg_tables db"]
    by (auto simp: get settle_in_def pg_setting_value_def pg_upd_def sql_setting_value_def [of "pg_tables db" "(i, n)"])
  show "pg_setting_value (st_updateUserSetting (pq_storage pe base v) i n d db)
      = (if pg_setting_value db (i, n) = None then pg_setting_value db else (pg_setting_value db)((i, n) \<mapsto> d))"
    using d q by (simp add: pq_storage_def pq_updateUserSetting_def pg_no_faults_def pg_exec_def dflt_def pg_plain_def pg_setting_value_def
        pg_upd_def sql_update_usetting_value)
next
  have "pg_plain pe s" if "ascii s" "length s \<le> 50" for s
    using that fits_short [OF that(1), of 50] fits_short [OF that(1), of 255]
    by (auto simp: pg_plain_def text_ok_def NUL_def ascii_def list_all_iff)
  then show "pg_plain pe ''enable_transport''" "pg_plain pe ''send_headlines''" "pg_plain pe ''stay_connected''" "pg_plain pe ''0''" "pg_plain pe ''1''"
    by (auto simp: ascii_def)
qed (auto simp: pg_getUser_find fun_eq_iff, auto simp: pq_storage_def pq_getUserSetting_def pq_updateUserSetting_def pg_no_faults_def pg_exec_def
      pg_upd_def dflt_def Let_def user_with_jid_def sql_insert_usetting_def sql_update_usetting_def split: option.splits)

end
