(* ===== verification/Queries.thy ===== *)
theory Queries
  imports VCards Services PqxxProps
begin

text \<open>
  The queries of clients on any state that the transport reaches: claims about the responders of the
  XMPP frontend together with the users, their contact lists, the backends and the database.
\<close>

section \<open>A gateway with a user\<close>

definition query_day :: "wevent list" where
  "query_day = [NewBackend, RegisterSet client ''q1'' register_bob,
     Presence (mk_presence (JID [] ''chat'' None) client Available)]"

definition witness_rconfig :: rconfig where
  "witness_rconfig = \<lparr>rc_identity_name = ''Spectrum'', rc_identity_category = ''gateway'', rc_identity_type = ''xmpp'',
     rc_muc = Some True, rc_receipts = None, rc_max_room_list_size = 100, rc_gateway_prompt = ''Name'', rc_gateway_label = ''Enter'',
     rc_to_lower = id, rc_caps = (\<lambda>_. ''hash'')\<rparr>"

definition witness_resp :: resp where
  "witness_resp = \<lparr>rs_disco = new_DiscoInfoResponder witness_rconfig, rs_vcards = new_VCardResponder\<rparr>"

definition eve :: rosteritem where
  "eve = \<lparr>ri_jid = JID ''eve'' ''chat'' None, ri_name = ''Eve'', ri_groups = [''Friends''], ri_sub = ItemNone\<rparr>"

lemma query_day_runs:
  obtains w usr where "run_world service_wenv service_henv query_day (empty_world empty_db) = Some w"
    "smap_get (w_users w) (bare_str service_wenv client) = Some 0" "w_heap w = [(0, usr)]" "r_buddies (u_roster usr) = []" "r_queue (u_roster usr) = []"
    "backends_alive (w_pool w)"
proof -
  have "map_option (\<lambda>w. (smap_get (w_users w) (bare_str service_wenv client), map fst (w_heap w), map (r_buddies \<circ> u_roster \<circ> snd) (w_heap w),
      map (r_queue \<circ> u_roster \<circ> snd) (w_heap w), backends_alive (w_pool w)))
      (run_world service_wenv service_henv query_day (empty_world empty_db)) = Some (Some 0, [0], [[]], [[]], True)"
    by code_simp
  then show ?thesis using that by (auto simp: map_eq_Cons_conv)
qed

lemma query_day_ok:
  assumes "w_heap w = [(0, usr)]" and "r_buddies (u_roster usr) = []" and "r_queue (u_roster usr) = []"
  shows "rosters_ok service_wenv w" and "items_ok service_wenv [eve] w"
    and "addr_ok (renv_of (uenv_of service_wenv w) usr) (ri_jid eve)"
    and "JIDToBuddy (renv_of (uenv_of service_wenv w) usr) (ri_jid eve) (u_roster usr) = None"
proof -
  show "rosters_ok service_wenv w" using assms by (simp add: rosters_ok_def roster_ok_def bq_ok_def)
  show a: "addr_ok (renv_of (uenv_of service_wenv w) usr) (ri_jid eve)"
    by (simp add: addr_ok_def renv_of_def uenv_of_def service_wenv_def witness_sw_def eve_def jid_none_def)
  then show "items_ok service_wenv [eve] w" using assms by (simp add: items_ok_def)
  show "JIDToBuddy (renv_of (uenv_of service_wenv w) usr) (ri_jid eve) (u_roster usr) = None"
    using assms by (simp add: JIDToBuddy_def getBuddy_def smap_get_or_def)
qed

section \<open>Every query is answered\<close>



section \<open>Contacts\<close>



text \<open>
  A contact whose address the JID library refuses: \<open>createBuddy\<close> returns null, and the handler
  dereferences it.
\<close>

lemma refused_contact_crashes:
  assumes "um_inv {} e w" and "smap_get (w_users w) (bare_str e from) = Some u" and "smap_get (w_heap w) u = Some usr"
    and "jid_node (ri_jid item) \<noteq> []" and "ri_sub item \<noteq> ItemRemove"
    and "JIDToBuddy (renv_of (uenv_of e w) usr) (ri_jid item) (u_roster usr) = None"
    and "createBuddy (renv_of (uenv_of e w) usr) (new_contact e item usr w) = None"
  shows "handle_query rc e (RosterSet (item # rest)) from to i s w = None"
proof -
  define re where "re = renv_of (uenv_of e w) usr"
  obtain wa usra where sa: "resp_step e w [IqResult from None i (IqRoster [])] wa" and usra: "smap_get (w_heap wa) u = Some usra"
    and rea: "renv_of (uenv_of e wa) usra = re" and get: "\<And>n. getBuddy re n (u_roster usra) = getBuddy re n (u_roster usr)"
    and set: "roster_handleSetRequest e from i (item # rest) w = add_contact e u item wa"
    using roster_set_new [OF assms(1-6)] unfolding re_def by blast
  have "legacy_name e (ri_jid item) usra wa = legacy_name e (ri_jid item) usr w"
    using rea get by (simp add: legacy_name_def JIDToLegacyName_def roster_name_def re_def)
  then have "new_contact e item usra wa = new_contact e item usr w" by (simp add: new_contact_def)
  then show ?thesis using set usra rea assms(7) by (simp add: add_contact_def re_def)
qed

section \<open>VCards\<close>

text \<open>
  C31: Whatever clients ask for, whatever VCards arrive under whatever numbers and whenever the timer
  ticks, no request for a VCard follows a dangling pointer; each one that was accepted has been
  answered exactly once or still waits, and after a tick of the timer none is left that waits for
  more than 40 seconds (for at most \<open>2 ^ 32\<close> events, when the numbers begin to repeat).
\<close>

theorem vcard_requests_answered:
  assumes "list_all vevent_ok evs" and "length evs \<le> 2 ^ 32"
  shows "\<exists>q asked out. vrun evs new_VCardResponder = Some (q, asked, out)
    \<and> mset asked = mset (map answered_request out) + waiting q
    \<and> list_all (\<lambda>(i, v). now - vd_received v \<le> 40) (vq_queries (fst (collectTimeouted now q)))"
proof -
  obtain q asked out where r: "vrun evs new_VCardResponder = Some (q, asked, out)" "length asked \<le> length evs"
    using vrun_returns [OF assms(1)] by blast
  then have "vq_inv (0 + length asked) q \<and> mset asked + {#} = mset (map answered_request out) + waiting q"
    using vrun_waiting [OF new_VCardResponder_inv(1) _ r(1)] assms(2) new_VCardResponder_inv(2) by simp
  moreover from this have "list_all (\<lambda>(i, v). now - vd_received v \<le> 40) (vq_queries (fst (collectTimeouted now q)))"
    by (auto simp: collectTimeouted_exact vq_inv_def list_all_iff)
  ultimately show ?thesis using r(1) by simp
qed

theorem vcard_requests_answered_witness:
  "case run_world service_wenv service_henv query_day (empty_world empty_db) of
     None \<Rightarrow> False
   | Some w \<Rightarrow> (\<exists>q asked out. vrun [VGet service_wenv w client (ri_jid eve) ''v1'', VGet service_wenv w client client ''v2'',
            VArrived 1 empty_vcard, VArrived 7 empty_vcard, VTick 130] new_VCardResponder = Some (q, asked, out)
       \<and> mset asked = mset (map answered_request out) + waiting q)"
proof -
  obtain w where w: "run_world service_wenv service_henv query_day (empty_world empty_db) = Some w" "backends_alive (w_pool w)"
    by (rule query_day_runs)
  have "um_inv {} service_wenv w" using um_keepsD [OF run_world_keeps empty_world_inv w(1)] .
  then show ?thesis
    using vcard_requests_answered [of "[VGet service_wenv w client (ri_jid eve) ''v1'', VGet service_wenv w client client ''v2'',
            VArrived 1 empty_vcard, VArrived 7 empty_vcard, VTick 130]" 130] w by auto
qed

section \<open>Discovery\<close>

text \<open>
  C7: However the configuration changes, features and commands are added and rooms are published, the
  transport advertises every feature once, and all that are configured or were added; contacts
  advertise exactly the configured features, under the capabilities hash of just these; every
  listed command can be asked about. What the transport has once advertised it advertises for ever.
\<close>

theorem discovery_invariant:
  "disco_ok (drun e evs (rc, new_DiscoInfoResponder rc))
   \<and> set (di_features (ds_transportInfo (snd (drun e evs (rc, new_DiscoInfoResponder rc)))))
       \<subseteq> set (di_features (ds_transportInfo (snd (drun e (evs @ evs') (rc, new_DiscoInfoResponder rc)))))"
proof -
  have "drun e (evs @ evs') s = drun e evs' (drun e evs s)" for s by (simp add: drun_def)
  then show ?thesis using drun_ok [OF new_DiscoInfoResponder_ok] drun_keeps_features by metis
qed

text \<open>A feature that is taken back is still advertised.\<close>

lemma removed_feature_advertised:
  "f \<in> set (di_features (ds_transportInfo d)) \<Longrightarrow> f \<in> set (di_features (ds_transportInfo (removeTransportFeature rc f d)))"
  using dstep_keeps_features [of d e "RemoveFeature f" rc for e :: "unit wenv"] by auto

section \<open>Gateway addresses\<close>

text \<open>
  The address that the gateway makes from a name stands for the name again, unless the name has
  nothing to escape but contains \<open>%\<close>: then its last \<open>%\<close> becomes an \<open>@\<close>.
\<close>

lemma gateway_address_round_trip:
  assumes "dflt (cf_jid_escaping (we_cf e)) True" and "find_str (CHR 0x5C # ''40'') name = None"
    and "sw_unescape (we_sw e) (sw_escape (we_sw e) name) = name"
  shows "node_to_legacy (we_sw e) (gateway_node e name)
    = (if sw_escape (we_sw e) name = name then replace_last CHR ''%'' CHR ''@'' name else name)"
  using assms by (auto simp: gateway_node_def legacy_node_def node_to_legacy_def)

section \<open>Private storage\<close>

lemma text_ok_storage: "text_ok ''storage''"
  by (simp add: text_ok_def NUL_def)

lemma text_ok_Nil: "text_ok []"
  by (simp add: text_ok_def)

context setting_store
begin

text \<open>What is stored is read back if the setting is there already; otherwise it is lost.\<close>

lemma private_storage:
  assumes "plain ''storage''" and "plain val" and "plain []" and "um_inv {} e w" and "we_store e = Some st"
    and "smap_get (w_users w) (bare_str e from) = Some u" and "smap_get (w_heap w) u = Some usr"
  shows "\<exists>w1 w2. handle_query rc e (PrivateSet (Some val)) from to i s w = Some (True, s, w1)
    \<and> handle_query rc e PrivateGet from to i' s w1 = Some (True, s, w2)
    \<and> said (w_out w2) = said (w_out w) @ [IqResult from None i IqNoPayload,
        IqResult from None i' (IqPrivate (if look (w_db w) (ui_id (u_info usr), ''storage'') = None then [] else val))]"
proof -
  obtain w1 usr1 where set: "storage_handleSetRequest e from i (Some val) w = Some (True, w1)" and s1: "resp_step e w [IqResult from None i IqNoPayload] w1"
    and db: "w_db w1 = st_updateUserSetting st (ui_id (u_info usr)) ''storage'' val (w_db w)"
    and u1: "smap_get (w_heap w1) u = Some usr1" "ui_id (u_info usr1) = ui_id (u_info usr)"
    using storage_set_eq [OF assms(4-7)] by blast
  have us: "smap_get (w_users w1) (bare_str e from) = Some u" using assms(6) s1 by (simp add: resp_step_def)
  obtain w2 where get: "storage_handleGetRequest e from i' w1 = Some (True, w2)"
    and s2: "resp_step e w1 [IqResult from None i' (IqPrivate (fst (st_getUserSetting st (ui_id (u_info usr1)) ''storage'' [] (w_db w1))))] w2"
    using storage_get_eq [OF resp_stepD(1) [OF s1] assms(5) us u1(1)] by blast
  have "fst (st_getUserSetting st (ui_id (u_info usr1)) ''storage'' [] (w_db w1))
      = (if look (w_db w) (ui_id (u_info usr), ''storage'') = None then [] else val)"
    using get_value [OF assms(1,3)] upd_look [OF assms(1,2)] by (simp add: db u1(2) dflt_def)
  then have "said (w_out w2) = said (w_out w) @ [IqResult from None i IqNoPayload,
        IqResult from None i' (IqPrivate (if look (w_db w) (ui_id (u_info usr), ''storage'') = None then [] else val))]"
    using resp_step_trans [OF s1 s2] by (simp only: resp_step_def append_Cons append_Nil)
  with set get show ?thesis by (intro exI [of _ w1] exI [of _ w2] conjI) simp_all
qed

end

text \<open>
  C32: A client that stores its bookmarks (\<open>jabber:iq:private\<close>) is told that they are stored. They come back
  when it asks for them if the database already has a row for them, that is, if a client has asked
  before; otherwise they are lost and the answer is empty. The storage is SQLite.
\<close>

theorem private_storage_first_write_lost:
  assumes "run_world e h evs (empty_world db) = Some w" and "we_store e = Some (sqlite_storage base v)" and "text_ok val"
    and "smap_get (w_users w) (bare_str e from) = Some u" and "smap_get (w_heap w) u = Some usr"
  shows "\<exists>w1 w2. handle_query rc e (PrivateSet (Some val)) from to i s w = Some (True, s, w1)
    \<and> handle_query rc e PrivateGet from to i' s w1 = Some (True, s, w2)
    \<and> said (w_out w2) = said (w_out w) @ [IqResult from None i IqNoPayload,
        IqResult from None i' (IqPrivate (if sql_setting_value (w_db w) (ui_id (u_info usr), ''storage'') = None then [] else val))]"
  using ss.private_storage [OF text_ok_storage assms(3) text_ok_Nil um_keepsD [OF run_world_keeps empty_world_inv assms(1)] assms(2,4,5)] .

theorem private_storage_first_write_lost_witness:
  "case run_world service_wenv service_henv query_day (empty_world empty_db) of
     None \<Rightarrow> False
   | Some w \<Rightarrow> (case smap_get (w_heap w) 0 of
       None \<Rightarrow> False
     | Some usr \<Rightarrow> \<exists>w1 w2. handle_query witness_rconfig service_wenv (PrivateSet (Some ''<storage/>'')) client (JID [] ''chat'' None) ''p1'' witness_resp w
           = Some (True, witness_resp, w1)
         \<and> handle_query witness_rconfig service_wenv PrivateGet client (JID [] ''chat'' None) ''p2'' witness_resp w1 = Some (True, witness_resp, w2)
         \<and> said (w_out w2) = said (w_out w) @ [IqResult client None ''p1'' IqNoPayload,
             IqResult client None ''p2'' (IqPrivate (if sql_setting_value (w_db w) (ui_id (u_info usr), ''storage'') = None then [] else ''<storage/>''))])"
proof -
  obtain w usr where w: "run_world service_wenv service_henv query_day (empty_world empty_db) = Some w"
    "smap_get (w_users w) (bare_str service_wenv client) = Some 0" "w_heap w = [(0, usr)]" by (rule query_day_runs)
  have u: "smap_get (w_heap w) 0 = Some usr" by (simp add: w(3) smap_get_Cons)
  have st: "we_store service_wenv = Some (sqlite_storage witness_userinfo empty_var)" by (simp add: service_wenv_def)
  have t: "text_ok ''<storage/>''" by (simp add: text_ok_def NUL_def)
  show ?thesis
    using private_storage_first_write_lost [OF w(1) st t w(2) u] by (simp only: w(1) u option.case)
qed

text \<open>PostgreSQL does the same, for texts that its columns take.\<close>

lemma private_storage_postgres:
  assumes "run_world e h evs (empty_world db) = Some w" and "we_store e = Some (pq_storage (latin_server key b) base v)"
    and "text_ok val" and "length val \<le> 50"
    and "smap_get (w_users w) (bare_str e from) = Some u" and "smap_get (w_heap w) u = Some usr"
  shows "\<exists>w1 w2. handle_query rc e (PrivateSet (Some val)) from to i s w = Some (True, s, w1)
    \<and> handle_query rc e PrivateGet from to i' s w1 = Some (True, s, w2)
    \<and> said (w_out w2) = said (w_out w) @ [IqResult from None i IqNoPayload,
        IqResult from None i' (IqPrivate (if pg_setting_value (w_db w) (ui_id (u_info usr), ''storage'') = None then [] else val))]"
proof -
  have p: "pg_plain (latin_server key b) ''storage''" "pg_plain (latin_server key b) val" "pg_plain (latin_server key b) []"
    using text_ok_storage text_ok_Nil assms(3,4) by (simp_all add: pg_plain_def latin_server_def)
  show ?thesis
    using la.ps.private_storage [OF p um_keepsD [OF run_world_keeps empty_world_inv assms(1)] assms(2,5,6)] .
qed

end
