(* ===== verification/Spec2Isabelle.thy ===== *)
theory Spec2Isabelle
  imports Queries
begin

text \<open>
  Spectrum 2 is an XMPP transport: users of an XMPP network log in to other networks through it.

  \<^bold>\<open>The program.\<close> The server (\<open>spectrum/src/main.cpp\<close>) links \<open>libtransport\<close>, which keeps the users, their
  contacts and conversations, and one of two XMPP frontends of Swiften: as a component of an XMPP
  server (gateway mode) or as an XMPP server of its own (server mode). The legacy protocols run in
  backend processes, which the server spawns and to which it speaks a protocol of length-prefixed
  protobuf messages. A presence of an XMPP user reaches the presence oracle and then the user manager,
  which creates a \<open>User\<close>; the pool puts the user on a backend and logs him in; what the backend reports
  comes back through the payload handlers to the contact list and the conversations of the user, and
  from there to the frontend.

  \<^bold>\<open>The theories\<close>, with the code each models (paths under \<open>src/\<close>):

  \<^item> \<open>Prelude\<close>: ordered maps (\<open>std::map\<close>) and strings; the interfaces \<open>ordered_map\<close> and \<open>each_loop\<close>.
  \<^item> \<open>Protocol\<close> (C1): \<open>protocol.proto\<close>, framing, and the two read loops, \<open>NetworkPluginServer::handleDataRead\<close>
    and \<open>NetworkPlugin::handleDataRead\<close>, as instances of the locale \<open>frame_reader\<close>: however the bytes are
    cut into chunks, the messages are handled once and in order.
  \<^item> \<open>NPlugin\<close> (C3): every operation of the backend's side, \<open>plugin/cpp/networkplugin.cpp\<close>.
  \<^item> \<open>Stanza\<close>: addresses, presences, messages, the configuration, and the effects of an operation:
    stanzas sent, signals emitted, database writes, in the order in which they happen.
  \<^item> \<open>Oracle\<close> (C5, C6): \<open>libtransport/PresenceOracle.cpp\<close>; refinement of the set of online resources.
  \<^item> \<open>Naming\<close>: names of the legacy network as XMPP nodes and back.
  \<^item> \<open>Roster\<close> (C11, C13, C14): \<open>Buddy.cpp\<close>, \<open>LocalBuddy.cpp\<close>, \<open>RosterStorage.cpp\<close>, \<open>RosterManager.cpp\<close> of
    \<open>libtransport\<close> and \<open>XMPPRosterManager.cpp\<close> of the frontend.
  \<^item> \<open>Conv\<close> (C15 to C18): \<open>libtransport/Conversation.cpp\<close> and \<open>ConversationManager.cpp\<close>.
  \<^item> \<open>Pool\<close> (C22 to C24, C26, C28): the backends of \<open>libtransport/NetworkPluginServer.cpp\<close>: spawning, the queue of
    users that wait, pings, idle users, and what is sent to a backend.
  \<^item> \<open>Users\<close> (C30, C33): \<open>libtransport/User.cpp\<close>.
  \<^item> \<open>Sessions\<close> (C34, C35, C37): server mode: \<open>include/Swiften/Server/ServerFromClientSession.cpp\<close>, \<open>Server.cpp\<close>,
    \<open>ServerStanzaChannel.cpp\<close> and \<open>libtransport/UserRegistry.cpp\<close>.
  \<^item> \<open>Media\<close> (C38): pictures in messages, \<open>wrapIncomingMedia\<close> of \<open>NetworkPluginServer.cpp\<close>.
  \<^item> \<open>Storage\<close>: the interface of the databases, \<open>include/transport/StorageBackend.h\<close>, and what users of it rely
    on (locale \<open>user_store\<close>); \<open>Tables\<close>: the tables, the SQL statements and the loop that reads a contact
    list; \<open>Sqlite\<close> (C4, C8): \<open>libtransport/SQLite3Backend.cpp\<close>, with statements that fail;
    \<open>Pqxx\<close> (C12): \<open>libtransport/PQXXBackend.cpp\<close>; \<open>PqxxProps\<close>: it is a \<open>user_store\<close> and a \<open>setting_store\<close> too, on a
    server that does what PostgreSQL documents (locale \<open>pg_server\<close>).
  \<^item> \<open>Codecs\<close> (C9): groups and passwords as they are stored (\<open>StorageBackend.cpp\<close>), base64 and URL encoding
    (\<open>protocol/Util.cpp\<close>). \<open>Forms\<close>: \<open>formutils.cpp\<close> of the XMPP frontend.
  \<^item> \<open>World\<close>: \<open>libtransport/UserManager.cpp\<close> on the state of all components, with the signals that connect
    them; \<open>WorldInv\<close>: its invariant, and that every operation keeps it.
  \<^item> \<open>Registration\<close>: \<open>libtransport/UserRegistration.cpp\<close>, \<open>XMPPUserRegistration.cpp\<close> of the frontend and
    \<open>libtransport/UsersReconnecter.cpp\<close>; \<open>Accounts\<close>: these on the SQLite database.
  \<^item> \<open>Admin\<close>: \<open>libtransport/AdminInterface.cpp\<close> and \<open>AdminInterfaceCommand.cpp\<close>; \<open>AdminProps\<close>: what queries
    read and change, and which end the server.
  \<^item> \<open>AdHoc\<close>: \<open>adhocmanager.cpp\<close>, \<open>adhoccommand.cpp\<close> and \<open>settingsadhoccommand.cpp\<close> of the frontend;
    \<open>AdHocProps\<close>: their sessions, and the settings of a user (locale \<open>setting_store\<close>, interpreted on both databases).
  \<^item> \<open>Handlers\<close>: the payload handlers of \<open>NetworkPluginServer.cpp\<close>, the end of a backend, and the events of
    the whole program (\<open>run_world\<close>); \<open>HandlersInv\<close>: they keep the invariant.
  \<^item> \<open>Shutdown\<close>: the loop of \<open>UserManager::removeAllUsers\<close>.
  \<^item> \<open>Services\<close> (C10, C19, C21, C25, C27, C29, C36): accounts, reconnection, administration and ad-hoc commands on
    any state that the transport reaches.
  \<^item> \<open>Disco\<close>: \<open>discoinforesponder.cpp\<close> and \<open>discoitemsresponder.cpp\<close> of the frontend and the room lists of
    \<open>XMPPUser.cpp\<close>; \<open>Responders\<close>: \<open>rosterresponder.cpp\<close>, \<open>vcardresponder.cpp\<close>, \<open>gatewayresponder.cpp\<close>,
    \<open>storageresponder.cpp\<close>, \<open>blockresponder.cpp\<close>, \<open>carbonresponder.cpp\<close> and \<open>statsresponder.cpp\<close>, as
    \<open>XMPPUserManager.cpp\<close> starts them; \<open>RespondersProps\<close>: what each of them says, and that none of them follows
    a dangling pointer; \<open>VCards\<close>: VCard requests from the question to the answer.
  \<^item> \<open>Queries\<close> (C2, C7, C20, C31, C32): these on any state that the transport reaches.
  \<^item> This theory: the properties of the whole (C39, C40).

  \<^bold>\<open>State and operations.\<close> An object of a class is a record; a pointer to an object that may be deleted
  (users, backends, sessions) is a number, and following one that refers to nothing is the value \<open>None\<close>
  of the operation, so a theorem that an operation returns \<open>Some\<close> says that it follows no dangling or
  null pointer. The objects of a user that live as long as he does are parts of his record. Failures
  that the code handles are values too. Sequences of events are lists.

  \<^bold>\<open>Parameters.\<close> Code that is not in the repository is an argument of the definitions: the operations of
  Swiften with an algorithm of their own (record \<open>swiften\<close>), the protobuf encoding (\<open>codec\<close>), the base64
  iterators of Boost (\<open>base64\<close>), lower-casing, the regular expression search for pictures, the
  clock, random ids, process ids, the capabilities of clients. The user manager runs on any database
  (record \<open>storage\<close>); \<open>sqlite_storage\<close> and \<open>pq_storage\<close> are two. Hypotheses on them are named in the theorems; each such
  theorem has a witness with concrete functions.

  \<^bold>\<open>Loops.\<close> All loops are total functions with a termination proof, except \<open>media_loop\<close>, which is \<open>None\<close> when
  the search never advances (C38 shows that it ends when matches are not empty), and
  \<open>um_removeAllUsers\<close>, which is run a given number of rounds (C40 shows that the number of users is enough).
  Counters and identifiers are numbers without bound, except the numbers of VCard requests, which are
  32-bit words as in the code; lengths of frames are 32-bit words too.

  \<^bold>\<open>Errors of the program\<close> that the theorems exhibit: a message of an unknown type stops the read loop
  (C3); null entries of the contact list are dereferenced (\<open>remote_roster_null_deref\<close>); pointers to backends outlive them (C26);
  cached messages are lost (\<open>cached_messages_not_delivered\<close>); bookmarks are lost (C32); a client gets a session without a
  password (C35), and a removal that is never forgotten closes later logins (C37); some passwords do not
  come back from the database (C9); two queries of administrators end the server (C29); the collection
  of old command sessions leaves pointers to deleted commands (C36). Further lemmas show that logins are
  requested twice (\<open>login_requests\<close>), that a contact with an address that the JID library refuses crashes the
  server (\<open>refused_contact_crashes\<close>), that a feature that is taken back is still advertised
  (\<open>removed_feature_advertised\<close>), that a gateway address does not always stand for the name it was made from
  (\<open>gateway_address_round_trip\<close>), that a backend may
  be removed twice (\<open>ping_check_removes\<close>), that a missing backend is dereferenced
  (\<open>message_without_backend\<close>), that clients can crash the server (\<open>impolite_clients\<close>), that a setting of a
  contact that no longer exists hides the settings of other contacts (\<open>orphan_hides\<close>), that rights of
  administrators are never checked (\<open>rights_never_checked\<close>), and that the contacts of a removed account
  are never told (\<open>unregister_forgets_contacts\<close>).

  \<^bold>\<open>Not modelled.\<close> The MySQL backend, HTTP, OAuth2 and WebSocket clients and the Slack
  frontend (glue around libraries and services), threads, TLS, the backends themselves (glue around
  protocol libraries), the web manager and the vendored web server. Of the XMPP frontend, the roster
  exchange branch of \<open>XMPPRosterManager::sendRIE\<close> and the set-up of the connection (\<open>XMPPFrontend::init\<close>); of \<open>libtransport\<close>, the
  configuration files and the logging.
\<close>

section \<open>A small gateway\<close>

text \<open>A gateway without a database and without registration, for the examples.\<close>

definition witness_wenv :: "unit wenv" where
  "witness_wenv = \<lparr>we_sw = witness_sw,
     we_cf = (ce_cf witness_cenv)\<lparr>cf_server_mode := None, cf_needRegistration := Some False\<rparr>, we_store = None,
     we_uninit = \<lparr>ui_id = 0, ui_jid = [], ui_uin = [], ui_password = [], ui_language = [], ui_encoding = [], ui_settings = [], ui_vip = False\<rparr>,
     we_caps = (\<lambda>_. Some []), we_low = id, we_now = 100, we_senv = witness_senv, we_penv = witness_penv 100\<rparr>"

definition witness_henv :: henv where
  "witness_henv = \<lparr>he_cd = witness_codec\<lparr>par_wrap := (\<lambda>m. Some (if m = [5] then TYPE_PONG else TYPE_CONNECTED, m)), par_connected := (\<lambda>_. Some ''u@x'')\<rparr>,
     he_fix = id, he_img = (\<lambda>_. None), he_mode = OobWrapAll, he_stamp = (\<lambda>_. Some 0),
     he_parse = (\<lambda>_. []), he_xml_iq = (\<lambda>_. []), he_admin = None, he_reg = witness_regconf\<rparr>"

definition witness_day :: "wevent list" where
  "witness_day = [NewBackend, Presence (mk_presence (JID [] ''gw'' None) (JID ''u'' ''x'' (Some ''a'')) Available),
     FromBackend 0 (frame [5] @ frame [1]), RemoveTimer]"

lemma witness_day_runs:
  obtains w where "run_world witness_wenv witness_henv witness_day (empty_world ()) = Some w"
    and "w_users w = [(''u@x'', 0)]" and "map (u_roster \<circ> snd) (w_heap w) = [empty_roster\<lparr>r_storage := False\<rparr>]"
    and "p_data (w_pool w) = [(0, 0)]" and "map (\<lambda>(b, bk). (b, be_users bk)) (p_heap (w_pool w)) = [(0, [0])]"
    and "p_next (w_pool w) = 1" and "p_clients (w_pool w) = [0]" and "p_waiting (w_pool w) = []" and "p_slots (w_pool w) = [0]"
proof -
  have "map_option (\<lambda>w. (w_users w, map (u_roster \<circ> snd) (w_heap w),
      p_data (w_pool w), map (\<lambda>(b, bk). (b, be_users bk)) (p_heap (w_pool w)),
      p_next (w_pool w), p_clients (w_pool w), p_waiting (w_pool w), p_slots (w_pool w)))
      (run_world witness_wenv witness_henv witness_day (empty_world ()))
    = Some ([(''u@x'', 0)], [empty_roster\<lparr>r_storage := False\<rparr>], [(0, 0)], [(0, [0])], 1, [0], [], [0])"
    by code_simp
  then show ?thesis using that by (auto simp: map_option_case split: option.splits)
qed

section \<open>Properties of the whole\<close>

text \<open>
  C39: Whatever presences, messages, timers, clients, backends and payloads of backends the transport
  has handled, \<open>UserManager::getUser\<close> with its one-entry cache never follows a pointer to a deleted
  user and returns what the map of users says; and the user it returns for an address is the one
  live \<open>User\<close> object with this address: none is lost and none is listed twice.
\<close>

theorem cached_lookup:
  assumes "run_world e h evs (empty_world db) = Some w"
  shows "(\<exists>w'. um_getUser e key w = Some (smap_get (w_users w) key, w'))
    \<and> (smap_get (w_users w) key = Some u \<longleftrightarrow> (\<exists>usr. smap_get (w_heap w) u = Some usr \<and> bare_str e (u_jid usr) = key))"
proof -
  have inv: "um_inv {} e w" using um_keepsD [OF run_world_keeps empty_world_inv assms] .
  then have ok: "um_ok e w" by (simp add: um_inv_def)
  have "\<exists>usr. smap_get (w_heap w) u = Some usr \<and> bare_str e (u_jid usr) = key" if "smap_get (w_users w) key = Some u"
    using ok that unfolding um_ok_iff by (force simp: jids_def)
  moreover have "smap_get (w_users w) key = Some u" if "smap_get (w_heap w) u = Some usr" "bare_str e (u_jid usr) = key" for usr
    using inv that by (auto simp: um_inv_def jids_def)
  ultimately show ?thesis using ul.lookup [OF inv, of key] by metis
qed

theorem cached_lookup_witness:
  "case run_world witness_wenv witness_henv witness_day (empty_world ()) of
     None \<Rightarrow> False
   | Some w \<Rightarrow> (\<exists>w'. um_getUser witness_wenv ''u@x'' w = Some (Some 0, w'))
       \<and> (\<exists>usr. smap_get (w_heap w) 0 = Some usr \<and> bare_str witness_wenv (u_jid usr) = ''u@x'')"
proof -
  obtain w where w: "run_world witness_wenv witness_henv witness_day (empty_world ()) = Some w" "w_users w = [(''u@x'', 0)]"
    by (rule witness_day_runs)
  then show ?thesis using cached_lookup [OF w(1), of "''u@x''" 0] by (simp add: smap_get_Cons)
qed



end
